theory Spec2Isabelle
  imports Main
begin

section \<open>Values, errors and the arithmetic of the EVM\<close>

text \<open>
  The two ledgers \<^verbatim>\<open>dmfUSD\<close> and \<^verbatim>\<open>dmfEUR\<close> (Solidity 0.8.30, embedded in
  \<^verbatim>\<open>src/lib/web3/config.ts\<close>) are the same contract up to the name of the backing asset
  and the way the backing asset is received and paid out. The embedding below follows
  \<^verbatim>\<open>dmfUSD\<close> line by line and takes the one difference as a field of the deployment.

  A \<^verbatim>\<open>uint256\<close> is a natural number below \<open>2 ^ 256\<close>. Solidity 0.8 checks every
  \<open>+\<close>, \<open>-\<close>, \<open>*\<close> and \<open>/\<close> and reverts with a panic when the result leaves the type;
  inside an \<^verbatim>\<open>unchecked\<close> block the result wraps around. Both are written out.
  A revert is the value \<open>Inl e\<close>; a call that returns is \<open>Inr\<close> of its result.
  Events are not part of the model.
\<close>

type_synonym address = nat
type_synonym uint256 = nat

datatype error =
    dmfUSDAddress
  | dmfUSDAmount
  | InsufficientBalance
  | InsufficientUSDC
  | NoTokensInCirculation
  | USDCTransferFailed
  | Panic
  | Revert
  | Require string

type_synonym 'a result = "error + 'a"

definition rbind :: "'a result \<Rightarrow> ('a \<Rightarrow> 'b result) \<Rightarrow> 'b result" where
  "rbind m f = (case m of Inl e \<Rightarrow> Inl e | Inr x \<Rightarrow> f x)"

definition UINT_LIMIT :: nat where
  "UINT_LIMIT = 2 ^ 256"

definition cadd :: "uint256 \<Rightarrow> uint256 \<Rightarrow> uint256 result" where
  "cadd a b = (if a + b < UINT_LIMIT then Inr (a + b) else Inl Panic)"

definition csub :: "uint256 \<Rightarrow> uint256 \<Rightarrow> uint256 result" where
  "csub a b = (if b \<le> a then Inr (a - b) else Inl Panic)"

definition cmul :: "uint256 \<Rightarrow> uint256 \<Rightarrow> uint256 result" where
  "cmul a b = (if a * b < UINT_LIMIT then Inr (a * b) else Inl Panic)"

definition cdiv :: "uint256 \<Rightarrow> uint256 \<Rightarrow> uint256 result" where
  "cdiv a b = (if b = 0 then Inl Panic else Inr (a div b))"

text \<open>Subtraction and addition inside an \<^verbatim>\<open>unchecked\<close> block.\<close>

definition usub :: "uint256 \<Rightarrow> uint256 \<Rightarrow> uint256" where
  "usub a b = (a + UINT_LIMIT - b) mod UINT_LIMIT"

definition uadd :: "uint256 \<Rightarrow> uint256 \<Rightarrow> uint256" where
  "uadd a b = (a + b) mod UINT_LIMIT"

text \<open>
  Modelled from the spec: \<^verbatim>\<open>Math.mulDiv\<close> and \<^verbatim>\<open>Math.min\<close> of the imported
  OpenZeppelin 4.9.3 library are not under \<^verbatim>\<open>src/\<close>. Section 4.3 of the spec: a fee is
  an integer multiply, then a floor division (\<^verbatim>\<open>fee = amount * bps / 10000\<close>,
  truncating). The library computes the product in 512 bits, panics on a zero
  denominator when the product fits 256 bits, and otherwise requires the
  denominator to exceed the high word of the product, that is, the quotient to fit.
\<close>

definition mulDiv :: "uint256 \<Rightarrow> uint256 \<Rightarrow> uint256 \<Rightarrow> uint256 result" where
  "mulDiv x y denominator =
     (if x * y < UINT_LIMIT then
        (if denominator = 0 then Inl Panic else Inr (x * y div denominator))
      else if denominator \<le> x * y div UINT_LIMIT then Inl (Require ''Math: mulDiv overflow'')
      else Inr (x * y div denominator))"

section \<open>The contract's constants\<close>

definition TOTAL_SUPPLY :: nat where
  "TOTAL_SUPPLY = 100000000000 * 1000000"

definition BURNING_LIMIT :: nat where
  "BURNING_LIMIT = TOTAL_SUPPLY div 5"

definition MINIMUM_PURCHASE_USDC :: nat where
  "MINIMUM_PURCHASE_USDC = 100000"

definition BASE_PRICE :: nat where
  "BASE_PRICE = 1000000"

definition PRECISION_DIVISOR :: nat where
  "PRECISION_DIVISOR = 10000"

definition EFFECTIVE_BACKING_NUMERATOR :: nat where
  "EFFECTIVE_BACKING_NUMERATOR = 999"

definition EFFECTIVE_BACKING_DENOMINATOR :: nat where
  "EFFECTIVE_BACKING_DENOMINATOR = 1000"

definition BUY_DEV_FEE_BPS :: nat where
  "BUY_DEV_FEE_BPS = 5"

definition BUY_RESERVE_FEE_BPS :: nat where
  "BUY_RESERVE_FEE_BPS = 10"

definition BUY_REFLECTION_FEE_BPS :: nat where
  "BUY_REFLECTION_FEE_BPS = 10"

definition REFUND_DEV_FEE_BPS :: nat where
  "REFUND_DEV_FEE_BPS = 5"

definition REFUND_REFLECTION_FEE_BPS :: nat where
  "REFUND_REFLECTION_FEE_BPS = 5"

definition TRANSFER_DEV_FEE_BPS :: nat where
  "TRANSFER_DEV_FEE_BPS = 5"

definition TRANSFER_REFLECTION_FEE_BPS :: nat where
  "TRANSFER_REFLECTION_FEE_BPS = 10"

definition TRANSFER_RESERVE_FEE_BPS :: nat where
  "TRANSFER_RESERVE_FEE_BPS = 10"

definition MAGNITUDE :: nat where
  "MAGNITUDE = 2 ^ 128"

section \<open>Storage, deployment and the world outside\<close>

text \<open>
  The storage of the contract, with the storage it inherits: \<open>balances\<close>,
  \<open>erc20TotalSupply\<close> and \<open>allowances\<close> are \<^verbatim>\<open>_balances\<close>, \<^verbatim>\<open>_totalSupply\<close> and
  \<^verbatim>\<open>_allowances\<close> of \<^verbatim>\<open>ERC20\<close>, \<open>entered\<close> is \<^verbatim>\<open>_status == _ENTERED\<close> of
  \<^verbatim>\<open>ReentrancyGuard\<close>, \<open>owner\<close> and \<open>pendingOwner\<close> are those of \<^verbatim>\<open>Ownable2Step\<close>.
  \<open>pairCache\<close> and \<open>notPairCache\<close> are the mappings \<^verbatim>\<open>_isLiquidityPair\<close> and
  \<^verbatim>\<open>_isNotLiquidityPair\<close>. \<open>backingHeld\<close> is the amount of the backing asset in the
  contract's custody, in the asset's own unit (wei of the native token for
  \<^verbatim>\<open>dmfUSD\<close>, six-decimal units of the pulled token for \<^verbatim>\<open>dmfEUR\<close>).
\<close>

record state =
  usdcReserves :: uint256
  totalBurned :: uint256
  tokensSold :: uint256
  devAddress :: address
  magnifiedDividendPerShare :: uint256
  totalDividendsDistributed :: uint256
  lastDividendPerShare :: "address \<Rightarrow> uint256"
  accumulatedDividends :: "address \<Rightarrow> uint256"
  isExcludedFromFee :: "address \<Rightarrow> bool"
  pairCache :: "address \<Rightarrow> bool"
  notPairCache :: "address \<Rightarrow> bool"
  balances :: "address \<Rightarrow> uint256"
  erc20TotalSupply :: uint256
  allowances :: "address \<Rightarrow> address \<Rightarrow> uint256"
  entered :: bool
  owner :: address
  pendingOwner :: address
  backingHeld :: nat

text \<open>
  A deployment: the contract's own address, and whether the backing asset is the
  native token sent with the call (\<^verbatim>\<open>dmfUSD\<close>) or a token pulled from the caller
  (\<^verbatim>\<open>dmfEUR\<close>).
\<close>

record deployment =
  this :: address
  nativeBacking :: bool

text \<open>
  The signatures probed by the classifier, and what a \<^verbatim>\<open>staticcall\<close> answers: the
  success flag, the length of the returned bytes and the value of their first word.
\<close>

datatype probe =
    Token0 | Token1 | Factory | GetReserves | GetPair | Swap | Supply | Deposit | SendToChain

record reply =
  ok :: bool
  len :: nat
  word :: nat

text \<open>
  The world outside the contract at the time of a call: the code size of every
  address, the answers to the probes, whether a recipient accepts native value
  (\<open>callSucceeds\<close>), and whether the backing token lets the contract pull from and
  push to an address.
\<close>

record env =
  codeLength :: "address \<Rightarrow> nat"
  staticcall :: "address \<Rightarrow> probe \<Rightarrow> reply"
  callSucceeds :: "address \<Rightarrow> nat \<Rightarrow> bool"
  pullSucceeds :: "address \<Rightarrow> nat \<Rightarrow> bool"
  pushSucceeds :: "address \<Rightarrow> nat \<Rightarrow> bool"

section \<open>Inherited library code\<close>

text \<open>
  Modelled from the spec: \<^verbatim>\<open>ERC20._transfer\<close> and \<^verbatim>\<open>ERC20._burn\<close> of the imported
  OpenZeppelin 4.9.3 library (called as \<^verbatim>\<open>super._transfer\<close> and \<^verbatim>\<open>_burn\<close>) are not
  under \<^verbatim>\<open>src/\<close>. Section 4.1 of the spec: the transfer rejects zero addresses,
  rejects if \<^verbatim>\<open>balance[from] < amount\<close>, and atomically decrements \<^verbatim>\<open>from\<close> and
  increments \<^verbatim>\<open>to\<close>. The library's increment is \<^verbatim>\<open>unchecked\<close>.
\<close>

definition ERC20_transfer :: "state \<Rightarrow> address \<Rightarrow> address \<Rightarrow> uint256 \<Rightarrow> state result" where
  "ERC20_transfer s from to amount =
     (if from = 0 then Inl (Require ''ERC20: transfer from the zero address'')
      else if to = 0 then Inl (Require ''ERC20: transfer to the zero address'')
      else if balances s from < amount then Inl (Require ''ERC20: transfer amount exceeds balance'')
      else
        (let b1 = (balances s)(from := balances s from - amount);
             b2 = b1(to := uadd (b1 to) amount)
         in Inr (s\<lparr>balances := b2\<rparr>)))"

definition ERC20_burn :: "state \<Rightarrow> address \<Rightarrow> uint256 \<Rightarrow> state result" where
  "ERC20_burn s account amount =
     (if account = 0 then Inl (Require ''ERC20: burn from the zero address'')
      else if balances s account < amount then Inl (Require ''ERC20: burn amount exceeds balance'')
      else Inr (s\<lparr>balances := (balances s)(account := balances s account - amount),
                  erc20TotalSupply := usub (erc20TotalSupply s) amount\<rparr>))"

text \<open>
  The pattern \<^verbatim>\<open>if (x != 0) { super._transfer(from, to, x); }\<close> of lines 440-445 and
  580-582.
\<close>

definition transferIfNonzero :: "state \<Rightarrow> address \<Rightarrow> address \<Rightarrow> uint256 \<Rightarrow> state result" where
  "transferIfNonzero s from to amount =
     (if amount \<noteq> 0 then ERC20_transfer s from to amount else Inr s)"

text \<open>
  Modelled from the spec: the modifier \<^verbatim>\<open>nonReentrant\<close> of the imported
  \<^verbatim>\<open>ReentrancyGuard\<close> is not under \<^verbatim>\<open>src/\<close>. Section 5 of the spec: a single boolean
  lock acquired at entry and released at exit; a nested call while one is in flight
  is rejected outright.
\<close>

definition nonReentrant :: "state \<Rightarrow> (state \<Rightarrow> state result) \<Rightarrow> state result" where
  "nonReentrant s body =
     (if entered s then Inl (Require ''ReentrancyGuard: reentrant call'')
      else rbind (body (s\<lparr>entered := True\<rparr>)) (\<lambda>s'. Inr (s'\<lparr>entered := False\<rparr>)))"

section \<open>The classifier\<close>

text \<open>
  \<^verbatim>\<open>isContract\<close> (lines 783-814) is a \<^verbatim>\<open>view\<close> function that reads no storage. Beside
  its answer the model returns the probes it sends, in order.
\<close>

definition isContract_run :: "env \<Rightarrow> address \<Rightarrow> bool \<times> probe list" where
  "isContract_run e a =
     (if codeLength e a = 0 then (False, [])
      else if ok (staticcall e a Token0) \<and> ok (staticcall e a Token1)
              \<and> len (staticcall e a Token0) = 32 \<and> len (staticcall e a Token1) = 32
        then (True, [Token0, Token1])
      else if ok (staticcall e a Factory)
        then (True, [Token0, Token1, Factory])
      else if ok (staticcall e a GetReserves)
        then (True, [Token0, Token1, Factory, GetReserves])
      else if ok (staticcall e a GetPair)
        then (True, [Token0, Token1, Factory, GetReserves, GetPair])
      else if ok (staticcall e a Swap)
        then (True, [Token0, Token1, Factory, GetReserves, GetPair, Swap])
      else if ok (staticcall e a Supply)
        then (True, [Token0, Token1, Factory, GetReserves, GetPair, Swap, Supply])
      else if ok (staticcall e a Deposit)
        then (True, [Token0, Token1, Factory, GetReserves, GetPair, Swap, Supply, Deposit])
      else if ok (staticcall e a SendToChain)
        then (True, [Token0, Token1, Factory, GetReserves, GetPair, Swap, Supply, Deposit,
                     SendToChain])
      else (False, [Token0, Token1, Factory, GetReserves, GetPair, Swap, Supply, Deposit,
                    SendToChain]))"

definition isContract :: "env \<Rightarrow> address \<Rightarrow> bool" where
  "isContract e a = fst (isContract_run e a)"

definition cacheLiquidityPair :: "state \<Rightarrow> address \<Rightarrow> state" where
  "cacheLiquidityPair s addr = s\<lparr>pairCache := (pairCache s)(addr := True)\<rparr>"

text \<open>
  \<^verbatim>\<open>isLiquidityPair\<close> (lines 381-402): the answer, the storage after the call and the
  probes sent. \<^verbatim>\<open>abi.decode\<close> of an address reverts on a word that is not below
  \<open>2 ^ 160\<close>.
\<close>

definition isLiquidityPair ::
  "deployment \<Rightarrow> env \<Rightarrow> state \<Rightarrow> address \<Rightarrow> (bool \<times> state \<times> probe list) result" where
  "isLiquidityPair c e s addr =
     (if codeLength e addr = 0 then Inr (False, s, [])
      else if pairCache s addr then Inr (True, s, [])
      else if notPairCache s addr then Inr (False, s, [])
      else
        (let r0 = staticcall e addr Token0; r1 = staticcall e addr Token1 in
         if ok r0 \<and> ok r1 \<and> len r0 = 32 \<and> len r1 = 32 then
           (if 2 ^ 160 \<le> word r0 then Inl Revert
            else if 2 ^ 160 \<le> word r1 then Inl Revert
            else if (word r0 = this c \<or> word r1 = this c) \<and> word r0 \<noteq> word r1
              then Inr (True, cacheLiquidityPair s addr, [Token0, Token1])
            else Inr (False, s\<lparr>notPairCache := (notPairCache s)(addr := True)\<rparr>,
                      [Token0, Token1]))
         else Inr (False, s\<lparr>notPairCache := (notPairCache s)(addr := True)\<rparr>,
                   [Token0, Token1])))"

text \<open>
  The expression \<^verbatim>\<open>isContract(a) && isLiquidityPair(a)\<close> of lines 412 and 419, evaluated
  left to right: its value, the storage after it and the probes it sends.
\<close>

definition contractAndPair ::
  "deployment \<Rightarrow> env \<Rightarrow> state \<Rightarrow> address \<Rightarrow> (bool \<times> state \<times> probe list) result" where
  "contractAndPair c e s a =
     (if isContract e a
      then rbind (isLiquidityPair c e s a) (\<lambda>r.
             Inr (fst r, fst (snd r), snd (isContract_run e a) @ snd (snd r)))
      else Inr (False, s, snd (isContract_run e a)))"

section \<open>Dividend bookkeeping\<close>

definition totalSupply :: "state \<Rightarrow> uint256 result" where
  "totalSupply s = csub TOTAL_SUPPLY (totalBurned s)"

text \<open>\<^verbatim>\<open>getCirculatingSupply\<close> (lines 619-624).\<close>

definition getCirculatingSupply :: "deployment \<Rightarrow> state \<Rightarrow> uint256 result" where
  "getCirculatingSupply c s =
     rbind (totalSupply s) (\<lambda>total. csub total (balances s (this c)))"

text \<open>\<^verbatim>\<open>_distributeDividends\<close> (lines 605-617).\<close>

definition distributeDividends :: "deployment \<Rightarrow> state \<Rightarrow> uint256 \<Rightarrow> state result" where
  "distributeDividends c s amount =
     (if amount = 0 then Inr s
      else rbind (getCirculatingSupply c s) (\<lambda>circulatingSupply.
        if circulatingSupply = 0 then Inr s
        else rbind (cmul amount MAGNITUDE) (\<lambda>scaled.
          rbind (cdiv scaled circulatingSupply) (\<lambda>dividendPerShare.
          rbind (cadd (magnifiedDividendPerShare s) dividendPerShare) (\<lambda>perShare.
          rbind (cadd (totalDividendsDistributed s) amount) (\<lambda>distributed.
          Inr (s\<lparr>magnifiedDividendPerShare := perShare,
                 totalDividendsDistributed := distributed\<rparr>)))))))"

text \<open>
  The block that the source repeats inline wherever it accrues (lines 481-486,
  503-508, 543-548, 636-641, 665-670): the difference of the accumulator, the new
  dividends of a balance, and their addition to \<^verbatim>\<open>accumulatedDividends[user]\<close>. It is
  only entered with the last value below the current one.
\<close>

definition accumulateNewDividends ::
  "state \<Rightarrow> address \<Rightarrow> uint256 \<Rightarrow> uint256 \<Rightarrow> uint256 \<Rightarrow> state result" where
  "accumulateNewDividends s user userBalance currentPerShare lastPerShare =
     rbind (csub currentPerShare lastPerShare) (\<lambda>dividendDifference.
     rbind (cmul userBalance dividendDifference) (\<lambda>product.
       (let newDividends = product div MAGNITUDE in
        if 0 < newDividends
        then rbind (cadd (accumulatedDividends s user) newDividends) (\<lambda>total.
               Inr (s\<lparr>accumulatedDividends := (accumulatedDividends s)(user := total)\<rparr>))
        else Inr s)))"

text \<open>\<^verbatim>\<open>_updateUserDividendTracking\<close> (lines 626-647).\<close>

definition updateUserDividendTracking :: "env \<Rightarrow> state \<Rightarrow> address \<Rightarrow> state result" where
  "updateUserDividendTracking e s user =
     (if isContract e user then Inr s
      else
        (let userBalance = balances s user;
             currentDividendPerShare = magnifiedDividendPerShare s;
             lastUserDividendPerShare = lastDividendPerShare s user
         in rbind (if 0 < userBalance \<and> lastUserDividendPerShare < currentDividendPerShare
                   then accumulateNewDividends s user userBalance currentDividendPerShare
                          lastUserDividendPerShare
                   else Inr s)
              (\<lambda>s1. Inr (s1\<lparr>lastDividendPerShare :=
                              (lastDividendPerShare s1)(user := currentDividendPerShare)\<rparr>))))"

text \<open>\<^verbatim>\<open>pendingDividends\<close> (lines 690-706), a view.\<close>

definition pendingDividends :: "env \<Rightarrow> state \<Rightarrow> address \<Rightarrow> uint256 result" where
  "pendingDividends e s user =
     (if isContract e user then Inr 0
      else if balances s user = 0 then Inr (accumulatedDividends s user)
      else if lastDividendPerShare s user < magnifiedDividendPerShare s
        then rbind (csub (magnifiedDividendPerShare s) (lastDividendPerShare s user))
               (\<lambda>dividendDifference.
             rbind (cmul (balances s user) dividendDifference) (\<lambda>product.
             cadd (accumulatedDividends s user) (product div MAGNITUDE)))
      else Inr (accumulatedDividends s user))"

text \<open>
  \<^verbatim>\<open>claimDividends\<close> (lines 653-683): the body, with \<open>user\<close> for \<^verbatim>\<open>msg.sender\<close>, and
  the function under its modifier \<^verbatim>\<open>nonReentrant\<close>.
\<close>

definition claim_body :: "deployment \<Rightarrow> env \<Rightarrow> state \<Rightarrow> address \<Rightarrow> state result" where
  "claim_body c e s user =
     (if isContract e user then Inr s
      else
        (let userBalance = balances s user;
             currentDividendPerShare = magnifiedDividendPerShare s;
             lastUserDividendPerShare = lastDividendPerShare s user
         in rbind (if 0 < userBalance \<and> lastUserDividendPerShare < currentDividendPerShare
                   then accumulateNewDividends s user userBalance currentDividendPerShare
                          lastUserDividendPerShare
                   else Inr s)
              (\<lambda>s1.
                 (let s2 = s1\<lparr>lastDividendPerShare :=
                                (lastDividendPerShare s1)(user := currentDividendPerShare)\<rparr>;
                      totalAccumulated = accumulatedDividends s2 user
                  in if 0 < totalAccumulated
                     then ERC20_transfer
                            (s2\<lparr>accumulatedDividends := (accumulatedDividends s2)(user := 0)\<rparr>)
                            (this c) user totalAccumulated
                     else Inr s2))))"

definition claimDividends :: "deployment \<Rightarrow> env \<Rightarrow> state \<Rightarrow> address \<Rightarrow> state result" where
  "claimDividends c e s user = nonReentrant s (\<lambda>s0. claim_body c e s0 user)"

section \<open>Pricing and buying\<close>

text \<open>\<^verbatim>\<open>_getTokensForUsdc\<close> (lines 754-776; \<^verbatim>\<open>_getTokensForEurc\<close>, lines 1515-1537).\<close>

definition getTokensForUsdc :: "deployment \<Rightarrow> state \<Rightarrow> uint256 \<Rightarrow> uint256 \<Rightarrow> uint256 result" where
  "getTokensForUsdc c s usdcAmount balanceBefore =
     (if usdcAmount = 0 then Inr 0
      else
        (let availableToSell = balances s (this c) in
         if availableToSell = 0 then Inr 0
         else rbind (totalSupply s) (\<lambda>total.
           rbind (csub total availableToSell) (\<lambda>circulating.
           rbind (if circulating = 0 \<or> balanceBefore = 0 then Inr BASE_PRICE
                  else rbind (cmul balanceBefore 1000000) (\<lambda>scaled.
                       rbind (cdiv scaled circulating) (\<lambda>refundPrice.
                       rbind (cmul refundPrice 10010) (\<lambda>marked.
                       cdiv marked PRECISION_DIVISOR))))
             (\<lambda>pricePerToken.
           rbind (cmul usdcAmount 1000000) (\<lambda>paid.
           rbind (cdiv paid pricePerToken) (\<lambda>tokensToPurchase.
           Inr (min tokensToPurchase availableToSell))))))))"

text \<open>\<^verbatim>\<open>calculateTokensForUsdc\<close> (lines 713-715), a view.\<close>

definition calculateTokensForUsdc :: "deployment \<Rightarrow> state \<Rightarrow> uint256 \<Rightarrow> uint256 result" where
  "calculateTokensForUsdc c s usdcAmount = getTokensForUsdc c s usdcAmount (usdcReserves s)"

text \<open>
  The two accruals that \<^verbatim>\<open>_buy\<close> writes inline for the buyer's existing balance (lines
  472-489 before the distribution, lines 497-510 after it). Neither moves
  \<^verbatim>\<open>lastDividendPerShare[buyer]\<close>.
\<close>

definition accrueExisting :: "env \<Rightarrow> state \<Rightarrow> address \<Rightarrow> uint256 \<Rightarrow> state result" where
  "accrueExisting e s buyer buyerBalanceBefore =
     (if \<not> isContract e buyer \<and> 0 < buyerBalanceBefore
           \<and> lastDividendPerShare s buyer < magnifiedDividendPerShare s
      then accumulateNewDividends s buyer buyerBalanceBefore (magnifiedDividendPerShare s)
             (lastDividendPerShare s buyer)
      else Inr s)"

text \<open>\<^verbatim>\<open>_buy\<close> (lines 450-522).\<close>

definition buy_internal :: "deployment \<Rightarrow> env \<Rightarrow> state \<Rightarrow> address \<Rightarrow> uint256 \<Rightarrow> state result" where
  "buy_internal c e s buyer usdcAmount =
     rbind (csub (usdcReserves s) usdcAmount) (\<lambda>balanceBefore.
     rbind (getTokensForUsdc c s usdcAmount balanceBefore) (\<lambda>tokensToPurchase.
     if tokensToPurchase = 0 then Inl InsufficientUSDC
     else rbind (cadd (tokensSold s) tokensToPurchase) (\<lambda>sold.
       if TOTAL_SUPPLY < sold then Inl InsufficientBalance
       else rbind (mulDiv tokensToPurchase BUY_DEV_FEE_BPS 10000) (\<lambda>devFee.
         rbind (mulDiv tokensToPurchase BUY_RESERVE_FEE_BPS 10000) (\<lambda>reserveFee.
         rbind (mulDiv tokensToPurchase BUY_REFLECTION_FEE_BPS 10000) (\<lambda>reflectionFee.
           (let tokensToUser = usub (usub (usub tokensToPurchase devFee) reserveFee) reflectionFee;
                s1 = s\<lparr>tokensSold := sold\<rparr>;
                buyerBalanceBefore = (if isContract e buyer then 0 else balances s1 buyer)
            in rbind (accrueExisting e s1 buyer buyerBalanceBefore) (\<lambda>s2.
               rbind (distributeDividends c s2 reflectionFee) (\<lambda>s3.
               rbind (accrueExisting e s3 buyer buyerBalanceBefore) (\<lambda>s4.
                 (let s5 = (if isContract e buyer then s4
                            else s4\<lparr>lastDividendPerShare :=
                                      (lastDividendPerShare s4)
                                        (buyer := magnifiedDividendPerShare s4)\<rparr>)
                  in rbind (ERC20_transfer s5 (this c) (devAddress s5) devFee) (\<lambda>s6.
                     ERC20_transfer s6 (this c) buyer tokensToUser))))))))))))"

text \<open>
  \<^verbatim>\<open>buy\<close>: for \<^verbatim>\<open>dmfUSD\<close> (lines 337-347) \<open>amount\<close> is \<^verbatim>\<open>msg.value\<close>, in wei, which the
  contract holds from the start of the call; for \<^verbatim>\<open>dmfEUR\<close> (lines 1100-1110) it is
  the argument \<^verbatim>\<open>eurcAmount\<close>, pulled from the caller.
\<close>

definition buy_body :: "deployment \<Rightarrow> env \<Rightarrow> state \<Rightarrow> address \<Rightarrow> uint256 \<Rightarrow> state result" where
  "buy_body c e s sender amount =
     (if nativeBacking c then
        (let usdcAmount = amount div 1000000000000 in
         if usdcAmount < MINIMUM_PURCHASE_USDC then Inl InsufficientUSDC
         else rbind (cadd (usdcReserves s) usdcAmount) (\<lambda>reserves.
                buy_internal c e (s\<lparr>usdcReserves := reserves,
                                     backingHeld := backingHeld s + amount\<rparr>)
                  sender usdcAmount))
      else
        (if amount < MINIMUM_PURCHASE_USDC then Inl InsufficientUSDC
         else if pullSucceeds e sender amount
           then rbind (cadd (usdcReserves s) amount) (\<lambda>reserves.
                  buy_internal c e (s\<lparr>usdcReserves := reserves,
                                       backingHeld := backingHeld s + amount\<rparr>)
                    sender amount)
         else Inl (Require ''SafeERC20: low-level call failed'')))"

definition buy :: "deployment \<Rightarrow> env \<Rightarrow> state \<Rightarrow> address \<Rightarrow> uint256 \<Rightarrow> state result" where
  "buy c e s sender amount = nonReentrant s (\<lambda>s0. buy_body c e s0 sender amount)"

section \<open>Refunds\<close>

text \<open>
  \<^verbatim>\<open>_handleRefund\<close> (lines 524-603) in the order of the source, block by block. First
  the accrual of the sender (lines 535-553).
\<close>

definition accrueSender :: "env \<Rightarrow> state \<Rightarrow> address \<Rightarrow> state result" where
  "accrueSender e s sender =
     (if isContract e sender then Inr s
      else
        (let senderBalanceBefore = balances s sender in
         if 0 < senderBalanceBefore then
           (let currentDividendPerShare = magnifiedDividendPerShare s;
                lastSenderDividendPerShare = lastDividendPerShare s sender
            in rbind (if lastSenderDividendPerShare < currentDividendPerShare
                      then accumulateNewDividends s sender senderBalanceBefore
                             currentDividendPerShare lastSenderDividendPerShare
                      else Inr s)
                 (\<lambda>s1. Inr (s1\<lparr>lastDividendPerShare :=
                                 (lastDividendPerShare s1)(sender := currentDividendPerShare)\<rparr>)))
         else Inr s))"

text \<open>
  The fee split of a refund (lines 555-564; the same lines stand in
  \<^verbatim>\<open>calculateUsdcForTokens\<close>, 728-739). \<open>burned\<close> is the local \<^verbatim>\<open>_totalBurned\<close>.
\<close>

record refund_split =
  devFeeTokens :: uint256
  reflectionFeeTokens :: uint256
  burnFeeTokens :: uint256
  reserveFeeTokens :: uint256
  tokensForRefund :: uint256

definition refundFees :: "uint256 \<Rightarrow> uint256 \<Rightarrow> refund_split result" where
  "refundFees burned tokenAmount =
     rbind (mulDiv tokenAmount REFUND_DEV_FEE_BPS 10000) (\<lambda>dev.
     rbind (mulDiv tokenAmount REFUND_REFLECTION_FEE_BPS 10000) (\<lambda>reflection.
     rbind (if burned < BURNING_LIMIT then mulDiv tokenAmount 75 100000 else Inr 0) (\<lambda>burn.
     rbind (if burned < BURNING_LIMIT then mulDiv tokenAmount 75 100000
            else mulDiv tokenAmount 150 100000) (\<lambda>reserve.
     Inr \<lparr>devFeeTokens = dev, reflectionFeeTokens = reflection, burnFeeTokens = burn,
          reserveFeeTokens = reserve,
          tokensForRefund = usub (usub (usub (usub tokenAmount dev) reflection) burn) reserve\<rparr>))))"

text \<open>
  The payout of a refund and its two rejections (lines 566-578). The contract's own
  balance already holds the refunded tokens when this runs.
\<close>

definition refundQuote :: "deployment \<Rightarrow> state \<Rightarrow> uint256 \<Rightarrow> uint256 \<Rightarrow> uint256 result" where
  "refundQuote c s tokenAmount forRefund =
     rbind (csub TOTAL_SUPPLY (totalBurned s)) (\<lambda>supply.
     rbind (csub supply (balances s (this c))) (\<lambda>outside.
     rbind (cadd outside tokenAmount) (\<lambda>currentCirculatingSupply.
     if currentCirculatingSupply = 0 then Inl NoTokensInCirculation
     else rbind (cmul (usdcReserves s) EFFECTIVE_BACKING_NUMERATOR) (\<lambda>scaled.
          rbind (cdiv scaled EFFECTIVE_BACKING_DENOMINATOR) (\<lambda>effectiveBacking.
          rbind (mulDiv forRefund effectiveBacking currentCirculatingSupply) (\<lambda>usdcToUser.
          if usdcReserves s < usdcToUser then Inl InsufficientUSDC else Inr usdcToUser))))))"

text \<open>The bounded burn (lines 583-592).\<close>

definition boundedBurn :: "deployment \<Rightarrow> state \<Rightarrow> uint256 \<Rightarrow> uint256 \<Rightarrow> state result" where
  "boundedBurn c s burned burnFee =
     (if burnFee \<noteq> 0 \<and> burned < BURNING_LIMIT then
        (let remainingToBurn = BURNING_LIMIT - burned;
             capped = (if remainingToBurn < burnFee then remainingToBurn else burnFee)
         in if capped \<noteq> 0
            then rbind (ERC20_burn s (this c) capped) (\<lambda>s1.
                 rbind (cadd (totalBurned s1) capped) (\<lambda>total.
                 Inr (s1\<lparr>totalBurned := total\<rparr>)))
            else Inr s)
      else Inr s)"

text \<open>
  The payment (lines 599-602 for \<^verbatim>\<open>dmfUSD\<close>: a native call of \<open>usdcToUser * 1e12\<close> wei;
  lines 1362-1363 for \<^verbatim>\<open>dmfEUR\<close>: \<^verbatim>\<open>safeTransfer\<close> of the pulled token). The callee is
  taken not to call back into the contract.
\<close>

definition sendBacking ::
  "deployment \<Rightarrow> env \<Rightarrow> state \<Rightarrow> address \<Rightarrow> uint256 \<Rightarrow> state result" where
  "sendBacking c e s sender usdcToUser =
     rbind (csub (usdcReserves s) usdcToUser) (\<lambda>reserves.
       if nativeBacking c then
         rbind (cmul usdcToUser 1000000000000) (\<lambda>nativeUsdcAmount.
           if backingHeld s < nativeUsdcAmount then Inl USDCTransferFailed
           else if callSucceeds e sender nativeUsdcAmount
             then Inr (s\<lparr>usdcReserves := reserves,
                         backingHeld := backingHeld s - nativeUsdcAmount\<rparr>)
           else Inl USDCTransferFailed)
       else if backingHeld s < usdcToUser
         then Inl (Require ''SafeERC20: low-level call failed'')
       else if pushSucceeds e sender usdcToUser
         then Inr (s\<lparr>usdcReserves := reserves, backingHeld := backingHeld s - usdcToUser\<rparr>)
       else Inl (Require ''SafeERC20: low-level call failed''))"

definition refund_body ::
  "deployment \<Rightarrow> env \<Rightarrow> state \<Rightarrow> address \<Rightarrow> uint256 \<Rightarrow> state result" where
  "refund_body c e s sender tokenAmount =
     (if tokenAmount = 0 then Inl dmfUSDAmount
      else if tokenAmount < MINIMUM_PURCHASE_USDC then Inl InsufficientBalance
      else rbind (accrueSender e s sender) (\<lambda>s1.
           rbind (refundFees (totalBurned s1) tokenAmount) (\<lambda>f.
           rbind (refundQuote c s1 tokenAmount (tokensForRefund f)) (\<lambda>usdcToUser.
           rbind (transferIfNonzero s1 (this c) (devAddress s1) (devFeeTokens f)) (\<lambda>s2.
           rbind (boundedBurn c s2 (totalBurned s1) (burnFeeTokens f)) (\<lambda>s3.
           rbind (distributeDividends c s3 (reflectionFeeTokens f)) (\<lambda>s4.
           sendBacking c e s4 sender usdcToUser)))))))"

definition handleRefund ::
  "deployment \<Rightarrow> env \<Rightarrow> state \<Rightarrow> address \<Rightarrow> uint256 \<Rightarrow> state result" where
  "handleRefund c e s sender tokenAmount =
     nonReentrant s (\<lambda>s0. refund_body c e s0 sender tokenAmount)"

section \<open>Transfers\<close>

text \<open>\<^verbatim>\<open>_handleTaxedTransfer\<close> (lines 409-448).\<close>

definition handleTaxedTransfer ::
  "deployment \<Rightarrow> env \<Rightarrow> state \<Rightarrow> address \<Rightarrow> address \<Rightarrow> uint256 \<Rightarrow> state result" where
  "handleTaxedTransfer c e s from to amount =
     (if balances s from < amount then Inl InsufficientBalance
      else rbind (contractAndPair c e s from) (\<lambda>r1.
           rbind (if fst r1 then Inr r1 else contractAndPair c e (fst (snd r1)) to) (\<lambda>r2.
           if fst r2 then
             rbind (ERC20_transfer (fst (snd r2)) from to amount) (\<lambda>s1.
             rbind (contractAndPair c e s1 to) (\<lambda>isSell. Inr (fst (snd isSell))))
           else
             rbind (mulDiv amount TRANSFER_DEV_FEE_BPS 10000) (\<lambda>devFee.
             rbind (mulDiv amount TRANSFER_REFLECTION_FEE_BPS 10000) (\<lambda>reflectionFee.
             rbind (mulDiv amount TRANSFER_RESERVE_FEE_BPS 10000) (\<lambda>reserveFee.
               (let netAmount = usub (usub (usub amount devFee) reflectionFee) reserveFee in
                rbind (ERC20_transfer (fst (snd r2)) from (this c) amount) (\<lambda>s1.
                rbind (distributeDividends c s1 reflectionFee) (\<lambda>s2.
                rbind (transferIfNonzero s2 (this c) to netAmount) (\<lambda>s3.
                transferIfNonzero s3 (this c) (devAddress s3) devFee))))))))))"

text \<open>\<^verbatim>\<open>_update\<close> (lines 362-379).\<close>

definition update_internal ::
  "deployment \<Rightarrow> env \<Rightarrow> state \<Rightarrow> address \<Rightarrow> address \<Rightarrow> uint256 \<Rightarrow> state result" where
  "update_internal c e s from to amount =
     (if from = 0 then Inl dmfUSDAddress
      else if to = 0 then Inl dmfUSDAddress
      else if amount = 0 then Inl dmfUSDAmount
      else if to = this c then
        rbind (ERC20_transfer s from to amount) (\<lambda>s1. handleRefund c e s1 from amount)
      else if isExcludedFromFee s from \<or> isExcludedFromFee s to then
        ERC20_transfer s from to amount
      else handleTaxedTransfer c e s from to amount)"

text \<open>The override \<^verbatim>\<open>_transfer\<close> (lines 349-360).\<close>

definition transfer_internal ::
  "deployment \<Rightarrow> env \<Rightarrow> state \<Rightarrow> address \<Rightarrow> address \<Rightarrow> uint256 \<Rightarrow> state result" where
  "transfer_internal c e s from to amount =
     rbind (if from \<noteq> 0 \<and> \<not> isContract e from then updateUserDividendTracking e s from
            else Inr s) (\<lambda>s1.
     rbind (if to \<noteq> 0 \<and> \<not> isContract e to then updateUserDividendTracking e s1 to
            else Inr s1) (\<lambda>s2.
     update_internal c e s2 from to amount))"

text \<open>
  Modelled from the spec: the public \<^verbatim>\<open>transfer\<close>, \<^verbatim>\<open>transferFrom\<close> and \<^verbatim>\<open>approve\<close> of
  the imported \<^verbatim>\<open>ERC20\<close> are not under \<^verbatim>\<open>src/\<close>. Section 6 of the spec lists
  \<^verbatim>\<open>transfer(to, amount)\<close> and \<^verbatim>\<open>transferFrom(...)\<close>, the caller identified by the
  invoking address; both end in the override \<^verbatim>\<open>_transfer\<close>, the second after spending
  the caller's allowance.
\<close>

definition transfer ::
  "deployment \<Rightarrow> env \<Rightarrow> state \<Rightarrow> address \<Rightarrow> address \<Rightarrow> uint256 \<Rightarrow> state result" where
  "transfer c e s sender to amount = transfer_internal c e s sender to amount"

definition approve_internal :: "state \<Rightarrow> address \<Rightarrow> address \<Rightarrow> uint256 \<Rightarrow> state result" where
  "approve_internal s holder spender amount =
     (if holder = 0 then Inl (Require ''ERC20: approve from the zero address'')
      else if spender = 0 then Inl (Require ''ERC20: approve to the zero address'')
      else Inr (s\<lparr>allowances := (allowances s)(holder := (allowances s holder)(spender := amount))\<rparr>))"

definition transferFrom ::
  "deployment \<Rightarrow> env \<Rightarrow> state \<Rightarrow> address \<Rightarrow> address \<Rightarrow> address \<Rightarrow> uint256 \<Rightarrow> state result" where
  "transferFrom c e s spender from to amount =
     rbind (if allowances s from spender = UINT_LIMIT - 1 then Inr s
            else if allowances s from spender < amount
              then Inl (Require ''ERC20: insufficient allowance'')
            else approve_internal s from spender (allowances s from spender - amount)) (\<lambda>s1.
     transfer_internal c e s1 from to amount)"

text \<open>\<^verbatim>\<open>increaseAllowance\<close> and \<^verbatim>\<open>decreaseAllowance\<close> (lines 881-895).\<close>

definition increaseAllowance :: "state \<Rightarrow> address \<Rightarrow> address \<Rightarrow> uint256 \<Rightarrow> state result" where
  "increaseAllowance s sender spender addedValue =
     rbind (cadd (allowances s sender spender) addedValue) (\<lambda>total.
     approve_internal s sender spender total)"

definition decreaseAllowance :: "state \<Rightarrow> address \<Rightarrow> address \<Rightarrow> uint256 \<Rightarrow> state result" where
  "decreaseAllowance s sender spender subtractedValue =
     (if allowances s sender spender < subtractedValue then Inl InsufficientBalance
      else approve_internal s sender spender (allowances s sender spender - subtractedValue))"

section \<open>Administration and construction\<close>

text \<open>
  \<^verbatim>\<open>setDevAddress\<close> and \<^verbatim>\<open>excludeFromFee\<close> (lines 818-831), behind \<^verbatim>\<open>onlyOwner\<close> of the
  imported \<^verbatim>\<open>Ownable\<close>.
\<close>

definition onlyOwner :: "state \<Rightarrow> address \<Rightarrow> state result \<Rightarrow> state result" where
  "onlyOwner s sender body =
     (if owner s = sender then body else Inl (Require ''Ownable: caller is not the owner''))"

definition setDevAddress :: "state \<Rightarrow> address \<Rightarrow> address \<Rightarrow> state result" where
  "setDevAddress s sender newDev =
     onlyOwner s sender
       (if newDev = 0 then Inl dmfUSDAddress
        else
          (let s1 = s\<lparr>isExcludedFromFee := (isExcludedFromFee s)(devAddress s := False)\<rparr>;
               s2 = s1\<lparr>devAddress := newDev\<rparr>
           in Inr (s2\<lparr>isExcludedFromFee := (isExcludedFromFee s2)(devAddress s2 := True)\<rparr>)))"

definition excludeFromFee :: "state \<Rightarrow> address \<Rightarrow> address \<Rightarrow> bool \<Rightarrow> state result" where
  "excludeFromFee s sender account isExcluded =
     onlyOwner s sender
       (if account = 0 then Inl dmfUSDAddress
        else Inr (s\<lparr>isExcludedFromFee := (isExcludedFromFee s)(account := isExcluded)\<rparr>))"

text \<open>
  The constructor (lines 269-315): the whole supply is minted to the contract
  itself; the contract, the owner and the dev address are excluded from fees.
\<close>

definition constructor :: "deployment \<Rightarrow> address \<Rightarrow> address \<Rightarrow> state result" where
  "constructor c initialOwner dev =
     (if initialOwner = 0 then Inl dmfUSDAddress
      else if dev = 0 then Inl dmfUSDAddress
      else if this c = 0 then Inl (Require ''ERC20: mint to the zero address'')
      else Inr \<lparr>usdcReserves = 0, totalBurned = 0, tokensSold = 0, devAddress = dev,
                magnifiedDividendPerShare = 0, totalDividendsDistributed = 0,
                lastDividendPerShare = (\<lambda>a. 0), accumulatedDividends = (\<lambda>a. 0),
                isExcludedFromFee = (\<lambda>a. a = this c \<or> a = initialOwner \<or> a = dev),
                pairCache = (\<lambda>a. False), notPairCache = (\<lambda>a. False),
                balances = (\<lambda>a. if a = this c then TOTAL_SUPPLY else 0),
                erc20TotalSupply = TOTAL_SUPPLY, allowances = (\<lambda>a b. 0), entered = False,
                owner = initialOwner, pendingOwner = 0, backingHeld = 0\<rparr>)"

section \<open>Calls and reachable storage\<close>

text \<open>
  A call of one of the contract's public functions, with its caller first. Ownership
  hand-over, \<^verbatim>\<open>approve\<close> and \<^verbatim>\<open>permit\<close> are inherited; \<^verbatim>\<open>permit\<close> acts as an
  \<^verbatim>\<open>approve\<close> by the signer.
\<close>

datatype call =
    Buy address uint256
  | Transfer address address uint256
  | TransferFrom address address address uint256
  | Approve address address uint256
  | IncreaseAllowance address address uint256
  | DecreaseAllowance address address uint256
  | ClaimDividends address
  | SetDevAddress address address
  | ExcludeFromFee address address bool
  | TransferOwnership address address
  | AcceptOwnership address
  | RenounceOwnership address

fun exec :: "deployment \<Rightarrow> env \<Rightarrow> call \<Rightarrow> state \<Rightarrow> state result" where
  "exec c e (Buy sender amount) s = buy c e s sender amount"
| "exec c e (Transfer sender to amount) s = transfer c e s sender to amount"
| "exec c e (TransferFrom spender from to amount) s = transferFrom c e s spender from to amount"
| "exec c e (Approve sender spender amount) s = approve_internal s sender spender amount"
| "exec c e (IncreaseAllowance sender spender amount) s = increaseAllowance s sender spender amount"
| "exec c e (DecreaseAllowance sender spender amount) s = decreaseAllowance s sender spender amount"
| "exec c e (ClaimDividends sender) s = claimDividends c e s sender"
| "exec c e (SetDevAddress sender newDev) s = setDevAddress s sender newDev"
| "exec c e (ExcludeFromFee sender account b) s = excludeFromFee s sender account b"
| "exec c e (TransferOwnership sender newOwner) s =
     onlyOwner s sender (Inr (s\<lparr>pendingOwner := newOwner\<rparr>))"
| "exec c e (AcceptOwnership sender) s =
     (if pendingOwner s = sender then Inr (s\<lparr>pendingOwner := 0, owner := sender\<rparr>)
      else Inl (Require ''Ownable2Step: caller is not the new owner''))"
| "exec c e (RenounceOwnership sender) s =
     onlyOwner s sender (Inr (s\<lparr>pendingOwner := 0, owner := 0\<rparr>))"

text \<open>
  The storage a deployment can reach: the constructor's, and what any call leaves
  when it returns, in any world outside.
\<close>

inductive reachable :: "deployment \<Rightarrow> state \<Rightarrow> bool" for c :: deployment where
  reachable_init: "constructor c initialOwner dev = Inr s \<Longrightarrow> reachable c s"
| reachable_step: "reachable c s \<Longrightarrow> exec c e op s = Inr s' \<Longrightarrow> reachable c s'"

text \<open>The storage after any number of further calls, each in any world outside.\<close>

inductive later :: "deployment \<Rightarrow> state \<Rightarrow> state \<Rightarrow> bool" for c :: deployment where
  later_refl: "later c s s"
| later_step: "later c s t \<Longrightarrow> exec c e op t = Inr u \<Longrightarrow> later c s u"

text \<open>
  What the chain keeps of a call: the storage it returns, or the storage before it
  when it reverts.
\<close>

definition commit :: "state \<Rightarrow> state result \<Rightarrow> state" where
  "commit s r = (case r of Inl err \<Rightarrow> s | Inr s' \<Rightarrow> s')"

section \<open>The specification's formulas\<close>

text \<open>
  The formulas of sections 4.2 and 4.5 of the specification, written from its words
  on plain natural numbers, to compare the code with. \<open>deposited\<close> is the deposit in
  the six-decimal unit of the reserve, \<open>unit\<close> the number of custody units in one
  reserve unit.
\<close>

definition unit :: "deployment \<Rightarrow> nat" where
  "unit c = (if nativeBacking c then 1000000000000 else 1)"

definition deposited :: "deployment \<Rightarrow> uint256 \<Rightarrow> uint256" where
  "deposited c amount = amount div unit c"

definition spec_circulatingOutside :: "deployment \<Rightarrow> state \<Rightarrow> nat" where
  "spec_circulatingOutside c s = TOTAL_SUPPLY - totalBurned s - balances s (this c)"

definition spec_buyPrice :: "deployment \<Rightarrow> state \<Rightarrow> nat \<Rightarrow> nat" where
  "spec_buyPrice c s reserveBeforeDeposit =
     (if spec_circulatingOutside c s = 0 \<or> reserveBeforeDeposit = 0 then 1000000
      else (reserveBeforeDeposit * 1000000 div spec_circulatingOutside c s) * 10010 div 10000)"

definition spec_tokensIssued :: "deployment \<Rightarrow> state \<Rightarrow> nat \<Rightarrow> nat \<Rightarrow> nat" where
  "spec_tokensIssued c s depositAmount reserveBeforeDeposit =
     min (depositAmount * 1000000 div spec_buyPrice c s reserveBeforeDeposit)
         (balances s (this c))"

definition spec_currentCirculatingSupply :: "deployment \<Rightarrow> state \<Rightarrow> nat \<Rightarrow> nat" where
  "spec_currentCirculatingSupply c s gross =
     (TOTAL_SUPPLY - totalBurned s - balances s (this c)) + gross"

definition spec_effectiveBacking :: "state \<Rightarrow> nat" where
  "spec_effectiveBacking s = usdcReserves s * 999 div 1000"

definition spec_payout :: "deployment \<Rightarrow> state \<Rightarrow> nat \<Rightarrow> nat \<Rightarrow> nat" where
  "spec_payout c s gross forRefund =
     forRefund * spec_effectiveBacking s div spec_currentCirculatingSupply c s gross"

text \<open>
  A refund is a transfer to the contract's own address (section 4.5), by the holder
  or by a spender of the holder's allowance.
\<close>

fun is_refund :: "deployment \<Rightarrow> call \<Rightarrow> bool" where
  "is_refund c (Transfer sender to amount) = (to = this c)"
| "is_refund c (TransferFrom spender from to amount) = (to = this c)"
| "is_refund c other = False"

fun is_buy :: "call \<Rightarrow> bool" where
  "is_buy (Buy sender amount) = True"
| "is_buy other = False"

text \<open>
  The refund row of the fee table of section 4.3, and the net amount of section 4.5:
  the split of a gross amount when \<open>burned\<close> tokens have been burned so far.
\<close>

definition spec_refundSplit :: "nat \<Rightarrow> nat \<Rightarrow> refund_split" where
  "spec_refundSplit burned gross =
     \<lparr>devFeeTokens = gross * 5 div 10000,
      reflectionFeeTokens = gross * 5 div 10000,
      burnFeeTokens = (if burned < BURNING_LIMIT then gross * 75 div 100000 else 0),
      reserveFeeTokens = (if burned < BURNING_LIMIT then gross * 75 div 100000
                          else gross * 150 div 100000),
      tokensForRefund =
        gross - gross * 5 div 10000 - gross * 5 div 10000
          - (if burned < BURNING_LIMIT then gross * 75 div 100000 else 0)
          - (if burned < BURNING_LIMIT then gross * 75 div 100000
             else gross * 150 div 100000)\<rparr>"

text \<open>
  The payout of a refund of a gross amount called on the storage \<open>s\<close>: the payout of
  section 4.5 once the gross amount has arrived in the contract's own balance, as it
  has when \<^verbatim>\<open>_handleRefund\<close> runs.
\<close>

definition spec_refundPayout :: "deployment \<Rightarrow> state \<Rightarrow> nat \<Rightarrow> nat" where
  "spec_refundPayout c s gross =
     spec_payout c (s\<lparr>balances := (balances s)(this c := balances s (this c) + gross)\<rparr>) gross
       (tokensForRefund (spec_refundSplit (totalBurned s) gross))"

section \<open>Concrete deployments, worlds and storages\<close>

text \<open>
  A \<^verbatim>\<open>dmfUSD\<close> deployment at address 100, owned by address 1, with dev address 2. In
  the world \<open>wallets\<close> no address has code and every payment is accepted; in
  \<open>routerWorld\<close> address 9 has code and answers \<^verbatim>\<open>factory()\<close> only.
\<close>

definition c0 :: deployment where
  "c0 = \<lparr>this = 100, nativeBacking = True\<rparr>"

definition wallets :: env where
  "wallets = \<lparr>codeLength = (\<lambda>a. 0),
              staticcall = (\<lambda>a p. \<lparr>ok = False, len = 0, word = 0\<rparr>),
              callSucceeds = (\<lambda>a v. True),
              pullSucceeds = (\<lambda>a v. True),
              pushSucceeds = (\<lambda>a v. True)\<rparr>"

definition routerWorld :: env where
  "routerWorld = \<lparr>codeLength = (\<lambda>a. if a = 9 then 1 else 0),
                  staticcall = (\<lambda>a p. \<lparr>ok = (a = 9 \<and> p = Factory), len = 32, word = 0\<rparr>),
                  callSucceeds = (\<lambda>a v. True),
                  pullSucceeds = (\<lambda>a v. True),
                  pushSucceeds = (\<lambda>a v. True)\<rparr>"

text \<open>The storage the constructor leaves.\<close>

definition st0 :: state where
  "st0 = \<lparr>usdcReserves = 0, totalBurned = 0, tokensSold = 0, devAddress = 2,
          magnifiedDividendPerShare = 0, totalDividendsDistributed = 0,
          lastDividendPerShare = (\<lambda>a. 0), accumulatedDividends = (\<lambda>a. 0),
          isExcludedFromFee = (\<lambda>a. a = 100 \<or> a = 1 \<or> a = 2),
          pairCache = (\<lambda>a. False), notPairCache = (\<lambda>a. False),
          balances = (\<lambda>a. if a = 100 then 100000000000000000 else 0),
          erc20TotalSupply = 100000000000000000, allowances = (\<lambda>a b. 0), entered = False,
          owner = 1, pendingOwner = 0, backingHeld = 0\<rparr>"

text \<open>
  The storage after address 5 has bought with \<open>10 ^ 18\<close> wei (1,000,000 six-decimal
  units), the first buy ever.
\<close>

definition st1 :: state where
  "st1 = st0\<lparr>usdcReserves := 1000000, tokensSold := 1000000,
            balances := (\<lambda>a. if a = 100 then 99999999999002000
                               else if a = 2 then 500
                               else if a = 5 then 997500 else 0),
            backingHeld := 1000000000000000000\<rparr>"

text \<open>
  The storage after address 5 has then transferred its 997,500 tokens to address 6,
  an ordinary taxed transfer: dev fee 498, reflection fee 997, reserve fee 997, net
  995,008. The accumulator has grown by \<open>997 * 2 ^ 128 div 500\<close>.
\<close>

definition st2 :: state where
  "st2 = st1\<lparr>magnifiedDividendPerShare := 997 * 2 ^ 128 div 500,
            totalDividendsDistributed := 997,
            balances := (\<lambda>a. if a = 100 then 99999999999003994
                               else if a = 2 then 998
                               else if a = 6 then 995008 else 0)\<rparr>"

text \<open>
  The storage after address 6 has then claimed its dividends: 1,984,045 tokens have
  moved from the contract to address 6.
\<close>

definition st3 :: state where
  "st3 = st2\<lparr>lastDividendPerShare := (\<lambda>a. if a = 6 then 997 * 2 ^ 128 div 500 else 0),
            balances := (\<lambda>a. if a = 100 then 99999999997019949
                               else if a = 2 then 998
                               else if a = 6 then 2979053 else 0)\<rparr>"

text \<open>
  A storage ten units under the burning limit, in the middle of a refund: the
  contract already holds the refunded tokens.
\<close>

definition nearLimit :: state where
  "nearLimit = st0\<lparr>usdcReserves := 10000000000000000,
                   totalBurned := 19999999999999990,
                   balances := (\<lambda>a. if a = 100 then 70000000000000000 else 0),
                   backingHeld := 10000000000000000000000000000\<rparr>"

text \<open>The storage \<open>st0\<close> after address 9 has been found not to be a trading pair.\<close>

definition st0_probed :: state where
  "st0_probed = st0\<lparr>notPairCache := (\<lambda>a. a = 9)\<rparr>"

text \<open>
  The storage \<open>nearLimit\<close> before the refunded tokens arrived: address 5 still holds
  100,000,000 of them.
\<close>

definition holding :: state where
  "holding = nearLimit\<lparr>balances := (\<lambda>a. if a = 100 then 69999999900000000
                                        else if a = 5 then 100000000 else 0)\<rparr>"

text \<open>
  In \<open>pairWorld\<close> address 8 is a trading pair of the token at address 100 and a token
  at address 7: it answers \<^verbatim>\<open>token0()\<close> and \<^verbatim>\<open>token1()\<close> and nothing else.
\<close>

definition pairWorld :: env where
  "pairWorld = \<lparr>codeLength = (\<lambda>a. if a = 8 then 1 else 0),
                staticcall = (\<lambda>a p. if a = 8 \<and> p = Token0 then \<lparr>ok = True, len = 32, word = 100\<rparr>
                                     else if a = 8 \<and> p = Token1 then \<lparr>ok = True, len = 32, word = 7\<rparr>
                                     else \<lparr>ok = False, len = 0, word = 0\<rparr>),
                callSucceeds = (\<lambda>a v. True),
                pullSucceeds = (\<lambda>a v. True),
                pushSucceeds = (\<lambda>a v. True)\<rparr>"

text \<open>
  The storage after address 5 has sold its 997,500 tokens to the pair at address 8 in
  \<open>pairWorld\<close>, a swap without fees, and the storage after it has transferred them to
  the router at address 9 in \<open>routerWorld\<close>, a taxed transfer.
\<close>

definition st2_pair :: state where
  "st2_pair = st1\<lparr>pairCache := (\<lambda>a. a = 8),
                 balances := (\<lambda>a. if a = 100 then 99999999999002000
                                    else if a = 2 then 500
                                    else if a = 8 then 997500 else 0)\<rparr>"

definition st2_router :: state where
  "st2_router = st2\<lparr>notPairCache := (\<lambda>a. a = 9),
                    balances := (\<lambda>a. if a = 100 then 99999999999003994
                                       else if a = 2 then 998
                                       else if a = 9 then 995008 else 0)\<rparr>"

section \<open>A preorder on storages\<close>

text \<open>
  What no call undoes: the accumulator does not decrease, a cached classification
  stays, the reentrancy lock is not left taken, and the burn counter stays within
  the limit once it is within it.
\<close>

definition advances :: "state \<Rightarrow> state \<Rightarrow> bool" where
  "advances s s' \<longleftrightarrow>
     magnifiedDividendPerShare s \<le> magnifiedDividendPerShare s'
     \<and> (\<forall>a. pairCache s a \<longrightarrow> pairCache s' a)
     \<and> (\<forall>a. notPairCache s a \<longrightarrow> notPairCache s' a)
     \<and> (entered s' \<longrightarrow> entered s)
     \<and> (totalBurned s \<le> BURNING_LIMIT \<longrightarrow> totalBurned s' \<le> BURNING_LIMIT)"

text \<open>Two storages with the same reserve and the same backing in custody.\<close>

definition same_backing :: "state \<Rightarrow> state \<Rightarrow> bool" where
  "same_backing s s' \<longleftrightarrow> usdcReserves s' = usdcReserves s \<and> backingHeld s' = backingHeld s"

text \<open>What a refund does to the reserve and to the custody.\<close>

definition pays_out :: "deployment \<Rightarrow> state \<Rightarrow> state \<Rightarrow> bool" where
  "pays_out c s s' \<longleftrightarrow>
     (\<exists>payout. payout \<le> usdcReserves s \<and> usdcReserves s' = usdcReserves s - payout
        \<and> payout * unit c \<le> backingHeld s
        \<and> backingHeld s' = backingHeld s - payout * unit c)"

text \<open>
  What the probes of lines 389-390 answer when \<^verbatim>\<open>isLiquidityPair\<close> finds a trading pair:
  the condition of lines 392-395 under which \<^verbatim>\<open>_cacheLiquidityPair\<close> is called.
\<close>

definition probesAsPair :: "deployment \<Rightarrow> env \<Rightarrow> address \<Rightarrow> bool" where
  "probesAsPair c e addr \<longleftrightarrow>
     (let r0 = staticcall e addr Token0; r1 = staticcall e addr Token1 in
      ok r0 \<and> ok r1 \<and> len r0 = 32 \<and> len r1 = 32
      \<and> (word r0 = this c \<or> word r1 = this c) \<and> word r0 \<noteq> word r1)"

text \<open>
  An address is classified when it is in one of the two caches; it is cached with the
  answer \<open>b\<close> when the caches make \<^verbatim>\<open>isLiquidityPair\<close> return \<open>b\<close> at line 385 or 386.
\<close>

definition classified :: "state \<Rightarrow> address \<Rightarrow> bool" where
  "classified s a \<longleftrightarrow> pairCache s a \<or> notPairCache s a"

definition cached :: "state \<Rightarrow> address \<Rightarrow> bool \<Rightarrow> bool" where
  "cached s a b \<longleftrightarrow> (if b then pairCache s a else notPairCache s a \<and> \<not> pairCache s a)"

text \<open>
  What a call in the world \<open>e\<close> does to the caches: no entry is removed, an entry of
  \<^verbatim>\<open>_isLiquidityPair\<close> is added only for an address that probes as a pair and was not
  cached as none, and an entry of \<^verbatim>\<open>_isNotLiquidityPair\<close> only for an address that does
  not probe as a pair and was not cached as one.
\<close>

definition caches_follow :: "deployment \<Rightarrow> env \<Rightarrow> state \<Rightarrow> state \<Rightarrow> bool" where
  "caches_follow c e s s' \<longleftrightarrow>
     (\<forall>a. (pairCache s a \<longrightarrow> pairCache s' a)
        \<and> (notPairCache s a \<longrightarrow> notPairCache s' a)
        \<and> (pairCache s' a \<longrightarrow> pairCache s a \<or> probesAsPair c e a \<and> \<not> notPairCache s a)
        \<and> (notPairCache s' a \<longrightarrow>
             notPairCache s a \<or> \<not> probesAsPair c e a \<and> \<not> pairCache s a))"

section \<open>Results and checked arithmetic\<close>

lemma rbind_Inr [simp]: "rbind (Inr x) f = f x"
  by (simp add: rbind_def)

lemma rbind_Inl [simp]: "rbind (Inl err) f = Inl err"
  by (simp add: rbind_def)

lemma rbind_eq_Inr: "rbind m f = Inr y \<longleftrightarrow> (\<exists>x. m = Inr x \<and> f x = Inr y)"
  by (cases m) simp_all

lemma cadd_eq_Inr: "cadd a b = Inr r \<longleftrightarrow> a + b < UINT_LIMIT \<and> r = a + b"
  by (auto simp: cadd_def)

lemma csub_eq_Inr: "csub a b = Inr r \<longleftrightarrow> b \<le> a \<and> r = a - b"
  by (auto simp: csub_def)

lemma cmul_eq_Inr: "cmul a b = Inr r \<longleftrightarrow> a * b < UINT_LIMIT \<and> r = a * b"
  by (auto simp: cmul_def)

lemma cdiv_eq_Inr: "cdiv a b = Inr r \<longleftrightarrow> b \<noteq> 0 \<and> r = a div b"
  by (auto simp: cdiv_def)

lemma mulDiv_eq_Inr: "mulDiv x y d = Inr r \<Longrightarrow> d \<noteq> 0 \<and> r = x * y div d"
  by (auto simp: mulDiv_def split: if_splits)

lemmas res_simps = rbind_eq_Inr cadd_eq_Inr csub_eq_Inr cmul_eq_Inr cdiv_eq_Inr


lemma advances_refl [simp]: "advances s s"
  by (simp add: advances_def)

lemma advances_trans: "advances s t \<Longrightarrow> advances t u \<Longrightarrow> advances s u"
  unfolding advances_def by (meson le_trans)

lemma ERC20_transfer_advances: "ERC20_transfer s from to amount = Inr s' \<Longrightarrow> advances s s'"
  by (auto simp: ERC20_transfer_def advances_def Let_def split: if_splits)

lemma ERC20_burn_advances: "ERC20_burn s a amount = Inr s' \<Longrightarrow> advances s s'"
  by (auto simp: ERC20_burn_def advances_def split: if_splits)

lemma distributeDividends_advances: "distributeDividends c s amount = Inr s' \<Longrightarrow> advances s s'"
  by (auto simp: distributeDividends_def advances_def res_simps split: if_splits)

lemma accumulateNewDividends_advances:
  "accumulateNewDividends s u b cur lst = Inr s' \<Longrightarrow> advances s s'"
  by (auto simp: accumulateNewDividends_def advances_def res_simps Let_def split: if_splits)

lemma updateUserDividendTracking_advances:
  "updateUserDividendTracking e s u = Inr s' \<Longrightarrow> advances s s'"
  by (auto simp: updateUserDividendTracking_def advances_def res_simps Let_def
      split: if_splits dest!: accumulateNewDividends_advances)

lemma accrueExisting_advances: "accrueExisting e s u b = Inr s' \<Longrightarrow> advances s s'"
  by (auto simp: accrueExisting_def split: if_splits dest!: accumulateNewDividends_advances)

lemma accrueSender_advances: "accrueSender e s u = Inr s' \<Longrightarrow> advances s s'"
  by (auto simp: accrueSender_def advances_def res_simps Let_def
      split: if_splits dest!: accumulateNewDividends_advances)

lemma isLiquidityPair_advances: "isLiquidityPair c e s a = Inr (b, s', ps) \<Longrightarrow> advances s s'"
  by (auto simp: isLiquidityPair_def cacheLiquidityPair_def advances_def Let_def split: if_splits)

lemma contractAndPair_advances: "contractAndPair c e s a = Inr (b, s', ps) \<Longrightarrow> advances s s'"
  by (auto simp: contractAndPair_def res_simps split: if_splits dest!: isLiquidityPair_advances)

lemma boundedBurn_advances:
  "boundedBurn c s (totalBurned s) fee = Inr s' \<Longrightarrow> advances s s'"
  by (auto simp: boundedBurn_def ERC20_burn_def advances_def res_simps Let_def split: if_splits)

lemma sendBacking_advances: "sendBacking c e s u amount = Inr s' \<Longrightarrow> advances s s'"
  by (auto simp: sendBacking_def advances_def res_simps split: if_splits)


lemma transferIfNonzero_advances:
  "transferIfNonzero s from to amount = Inr s' \<Longrightarrow> advances s s'"
  by (auto simp: transferIfNonzero_def split: if_splits dest: ERC20_transfer_advances)

lemma transferIfNonzero_totalBurned:
  "transferIfNonzero s from to amount = Inr s' \<Longrightarrow> totalBurned s' = totalBurned s"
  by (auto simp: transferIfNonzero_def ERC20_transfer_def Let_def split: if_splits)

lemma nonReentrant_advances:
  assumes "nonReentrant s body = Inr s'"
    and "\<And>s1. body (s\<lparr>entered := True\<rparr>) = Inr s1 \<Longrightarrow> advances (s\<lparr>entered := True\<rparr>) s1"
  shows "advances s s'"
proof -
  from assms(1) obtain s1 where b: "body (s\<lparr>entered := True\<rparr>) = Inr s1"
    and s': "s' = s1\<lparr>entered := False\<rparr>"
    by (auto simp: nonReentrant_def res_simps split: if_splits)
  from assms(2)[OF b] show ?thesis
    by (simp add: advances_def s')
qed

lemma handleTaxedTransfer_advances:
  "handleTaxedTransfer c e s from to amount = Inr s' \<Longrightarrow> advances s s'"
  unfolding handleTaxedTransfer_def
  by (auto simp: res_simps Let_def split: if_splits
      dest!: contractAndPair_advances ERC20_transfer_advances distributeDividends_advances
        transferIfNonzero_advances)
     (blast intro: advances_trans)+

lemma refund_body_advances:
  assumes "refund_body c e s sender amount = Inr s'"
  shows "advances s s'"
proof -
  from assms obtain a and f :: refund_split and q b1 b2 b3 where
    1: "accrueSender e s sender = Inr a"
    and 2: "transferIfNonzero a (this c) (devAddress a) (devFeeTokens f) = Inr b1"
    and 3: "boundedBurn c b1 (totalBurned a) (burnFeeTokens f) = Inr b2"
    and 4: "distributeDividends c b2 (reflectionFeeTokens f) = Inr b3"
    and 5: "sendBacking c e b3 sender q = Inr s'"
    unfolding refund_body_def by (auto simp: res_simps split: if_splits)
  have "advances s a" using 1 by (rule accrueSender_advances)
  moreover have "advances a b1" using 2 by (rule transferIfNonzero_advances)
  moreover have "advances b1 b2"
    using 3 boundedBurn_advances[of c b1] by (simp add: transferIfNonzero_totalBurned[OF 2])
  moreover have "advances b2 b3" using 4 by (rule distributeDividends_advances)
  moreover have "advances b3 s'" using 5 by (rule sendBacking_advances)
  ultimately show ?thesis
    by (blast intro: advances_trans)
qed

lemma handleRefund_advances:
  "handleRefund c e s sender amount = Inr s' \<Longrightarrow> advances s s'"
  unfolding handleRefund_def
  by (erule nonReentrant_advances) (rule refund_body_advances)

lemma update_internal_advances:
  "update_internal c e s from to amount = Inr s' \<Longrightarrow> advances s s'"
  unfolding update_internal_def
  by (auto simp: res_simps split: if_splits
      dest!: ERC20_transfer_advances handleRefund_advances handleTaxedTransfer_advances
      intro: advances_trans)

lemma transfer_internal_advances:
  "transfer_internal c e s from to amount = Inr s' \<Longrightarrow> advances s s'"
  unfolding transfer_internal_def
  by (auto simp: res_simps split: if_splits
      dest!: updateUserDividendTracking_advances update_internal_advances)
     (blast intro: advances_trans)+

lemma approve_internal_advances:
  "approve_internal s holder spender amount = Inr s' \<Longrightarrow> advances s s'"
  by (auto simp: approve_internal_def advances_def split: if_splits)

lemma transferFrom_advances:
  "transferFrom c e s spender from to amount = Inr s' \<Longrightarrow> advances s s'"
  unfolding transferFrom_def
  by (auto simp: res_simps split: if_splits
      dest!: approve_internal_advances transfer_internal_advances intro: advances_trans)

lemma advances_tokensSold [simp]:
  "advances (s\<lparr>tokensSold := n\<rparr>) t = advances s t"
  by (simp add: advances_def)

lemma advances_lastDividendPerShare [simp]:
  "advances (s\<lparr>lastDividendPerShare := l\<rparr>) t = advances s t"
  "advances s (t\<lparr>lastDividendPerShare := l\<rparr>) = advances s t"
  by (simp_all add: advances_def)

lemma advances_accumulatedDividends [simp]:
  "advances (s\<lparr>accumulatedDividends := l\<rparr>) t = advances s t"
  by (simp_all add: advances_def)

lemma advances_backing [simp]:
  "advances (s\<lparr>usdcReserves := r, backingHeld := h\<rparr>) t = advances s t"
  by (simp_all add: advances_def)

lemma buy_internal_advances:
  "buy_internal c e s buyer usdcAmount = Inr s' \<Longrightarrow> advances s s'"
  unfolding buy_internal_def
  by (auto simp: res_simps Let_def split: if_splits
      dest!: accrueExisting_advances distributeDividends_advances ERC20_transfer_advances)
     (blast intro: advances_trans)+

lemma buy_body_advances:
  "buy_body c e s sender amount = Inr s' \<Longrightarrow> advances s s'"
  unfolding buy_body_def
  by (auto simp: res_simps Let_def split: if_splits dest!: buy_internal_advances)

lemma buy_advances: "buy c e s sender amount = Inr s' \<Longrightarrow> advances s s'"
  unfolding buy_def
  by (erule nonReentrant_advances) (rule buy_body_advances)

lemma claim_body_advances:
  "claim_body c e s user = Inr s' \<Longrightarrow> advances s s'"
  unfolding claim_body_def
  by (auto simp: res_simps Let_def split: if_splits
      dest!: accumulateNewDividends_advances ERC20_transfer_advances
      intro: advances_trans)

lemma claimDividends_advances: "claimDividends c e s user = Inr s' \<Longrightarrow> advances s s'"
  unfolding claimDividends_def
  by (erule nonReentrant_advances) (rule claim_body_advances)

lemma exec_advances:
  assumes "exec c e call s = Inr s'"
  shows "advances s s'"
proof (cases call)
  case (Buy sender amount)
  with assms show ?thesis by (simp add: buy_advances)
next
  case (Transfer sender dst amount)
  with assms show ?thesis by (simp add: transfer_def transfer_internal_advances)
next
  case (TransferFrom spender src dst amount)
  with assms show ?thesis by (simp add: transferFrom_advances)
next
  case (Approve sender spender amount)
  with assms show ?thesis by (simp add: approve_internal_advances)
next
  case (IncreaseAllowance sender spender amount)
  with assms show ?thesis
    by (auto simp: increaseAllowance_def res_simps dest: approve_internal_advances)
next
  case (DecreaseAllowance sender spender amount)
  with assms show ?thesis
    by (auto simp: decreaseAllowance_def split: if_splits dest: approve_internal_advances)
next
  case (ClaimDividends sender)
  with assms show ?thesis by (simp add: claimDividends_advances)
next
  case (SetDevAddress sender newDev)
  with assms show ?thesis
    by (auto simp: setDevAddress_def onlyOwner_def advances_def Let_def split: if_splits)
next
  case (ExcludeFromFee sender account b)
  with assms show ?thesis
    by (auto simp: excludeFromFee_def onlyOwner_def advances_def split: if_splits)
next
  case (TransferOwnership sender newOwner)
  with assms show ?thesis by (auto simp: onlyOwner_def advances_def split: if_splits)
next
  case (AcceptOwnership sender)
  with assms show ?thesis by (auto simp: advances_def split: if_splits)
next
  case (RenounceOwnership sender)
  with assms show ?thesis by (auto simp: onlyOwner_def advances_def split: if_splits)
qed

lemma constructor_entered: "constructor c initialOwner dev = Inr s \<Longrightarrow> \<not> entered s \<and> totalBurned s = 0"
  by (auto simp: constructor_def split: if_splits)

lemma reachable_invariant: "reachable c s \<Longrightarrow> \<not> entered s \<and> totalBurned s \<le> BURNING_LIMIT"
proof (induction rule: reachable.induct)
  case (reachable_init initialOwner dev s)
  then show ?case by (auto dest: constructor_entered)
next
  case (reachable_step s e call s')
  from exec_advances[OF reachable_step.hyps(2)] reachable_step.IH show ?case
    by (auto simp: advances_def)
qed


section \<open>Evaluating the code on given storage\<close>

lemma TOTAL_SUPPLY_value: "TOTAL_SUPPLY = 100000000000000000"
  by (simp add: TOTAL_SUPPLY_def)

lemma BURNING_LIMIT_value: "BURNING_LIMIT = 20000000000000000"
  by (simp add: BURNING_LIMIT_def TOTAL_SUPPLY_def)

lemma isContract_wallets [simp]: "isContract wallets a = False"
  by (simp add: isContract_def isContract_run_def wallets_def)

lemma st0_fields:
  "usdcReserves st0 = 0" "totalBurned st0 = 0" "tokensSold st0 = 0" "devAddress st0 = 2"
  "magnifiedDividendPerShare st0 = 0" "totalDividendsDistributed st0 = 0"
  "lastDividendPerShare st0 a = 0" "accumulatedDividends st0 a = 0"
  "isExcludedFromFee st0 a = (a = 100 \<or> a = 1 \<or> a = 2)"
  "pairCache st0 a = False" "notPairCache st0 a = False"
  "balances st0 a = (if a = 100 then 100000000000000000 else 0)"
  "entered st0 = False" "backingHeld st0 = 0"
  by (simp_all add: st0_def)

lemma c0_fields: "this c0 = 100" "nativeBacking c0 = True"
  by (simp_all add: c0_def)

lemma run_constructor: "constructor c0 1 2 = Inr st0"
  unfolding constructor_def c0_def st0_def TOTAL_SUPPLY_value by simp

lemma mulDiv_eval:
  "x * y < UINT_LIMIT \<Longrightarrow> d \<noteq> 0 \<Longrightarrow> mulDiv x y d = Inr (x * y div d)"
  by (simp add: mulDiv_def)

lemma usub_eval:
  assumes "b \<le> a" "a < UINT_LIMIT"
  shows "usub a b = a - b"
proof -
  have e: "a + UINT_LIMIT - b = (a - b) + UINT_LIMIT"
    using assms by arith
  have l: "a - b < UINT_LIMIT"
    using assms by arith
  show ?thesis
    unfolding usub_def e by (simp add: l)
qed

lemma uadd_eval: "a + b < UINT_LIMIT \<Longrightarrow> uadd a b = a + b"
  by (simp add: uadd_def)

lemma ERC20_transfer_eval:
  "from \<noteq> 0 \<Longrightarrow> to \<noteq> 0 \<Longrightarrow> amount \<le> balances s from \<Longrightarrow> from \<noteq> to \<Longrightarrow>
   balances s to + amount < UINT_LIMIT \<Longrightarrow>
   ERC20_transfer s from to amount =
     Inr (s\<lparr>balances := (balances s)(from := balances s from - amount,
                                        to := balances s to + amount)\<rparr>)"
  by (simp add: ERC20_transfer_def Let_def uadd_eval)


lemma getTokens_first:
  assumes "totalBurned s = 0" "balances s (this c) = TOTAL_SUPPLY"
  shows "getTokensForUsdc c s 1000000 0 = Inr 1000000"
  unfolding getTokensForUsdc_def
  by (simp add: assms totalSupply_def csub_def cmul_def cdiv_def BASE_PRICE_def UINT_LIMIT_def
      TOTAL_SUPPLY_value)

lemma distribute_nothing:
  "balances s (this c) = TOTAL_SUPPLY \<Longrightarrow> totalBurned s = 0 \<Longrightarrow> distributeDividends c s amount = Inr s"
  by (simp add: distributeDividends_def getCirculatingSupply_def totalSupply_def csub_def)

lemma accrue_nothing: "accrueExisting e s u 0 = Inr s"
  by (simp add: accrueExisting_def)

lemma buy_internal_first:
  assumes r: "usdcReserves s = 1000000" and b: "totalBurned s = 0"
    and own: "balances s (this c) = TOTAL_SUPPLY"
    and sold: "tokensSold s + 1000000 \<le> TOTAL_SUPPLY"
    and zero: "balances s buyer = 0" "balances s (devAddress s) = 0"
    and nz: "buyer \<noteq> 0" "devAddress s \<noteq> 0" "this c \<noteq> 0"
    and ne: "buyer \<noteq> this c" "devAddress s \<noteq> this c" "buyer \<noteq> devAddress s"
  shows "buy_internal c e s buyer 1000000 =
     Inr (s\<lparr>tokensSold := tokensSold s + 1000000,
            lastDividendPerShare :=
              (if isContract e buyer then lastDividendPerShare s
               else (lastDividendPerShare s)(buyer := magnifiedDividendPerShare s)),
            balances := (balances s)(this c := TOTAL_SUPPLY - 998000, devAddress s := 500,
                                     buyer := 997500)\<rparr>)"
proof -
  define s1 where "s1 = s\<lparr>tokensSold := tokensSold s + 1000000\<rparr>"
  define s5 where "s5 = (if isContract e buyer then s1
      else s1\<lparr>lastDividendPerShare :=
                (lastDividendPerShare s1)(buyer := magnifiedDividendPerShare s1)\<rparr>)"
  define s6 where "s6 = s5\<lparr>balances := (balances s5)(this c := TOTAL_SUPPLY - 500,
      devAddress s := 500)\<rparr>"
  have sold': "cadd (tokensSold s) 1000000 = Inr (tokensSold s + 1000000)"
    using sold by (simp add: cadd_def UINT_LIMIT_def TOTAL_SUPPLY_value)
  have nlt: "\<not> TOTAL_SUPPLY < tokensSold s + 1000000"
    using sold by simp
  have fees: "mulDiv 1000000 BUY_DEV_FEE_BPS 10000 = Inr 500"
    "mulDiv 1000000 BUY_RESERVE_FEE_BPS 10000 = Inr 1000"
    "mulDiv 1000000 BUY_REFLECTION_FEE_BPS 10000 = Inr 1000"
    by (simp_all add: mulDiv_eval BUY_DEV_FEE_BPS_def BUY_RESERVE_FEE_BPS_def
        BUY_REFLECTION_FEE_BPS_def UINT_LIMIT_def)
  have net: "usub (usub (usub 1000000 500) 1000) 1000 = 997500"
    by (simp add: usub_eval UINT_LIMIT_def)
  have d: "distributeDividends c s1 1000 = Inr s1"
    by (rule distribute_nothing) (simp_all add: s1_def own b)
  have bal0: "(if isContract e buyer then 0 else balances s1 buyer) = 0"
    by (simp add: s1_def zero)
  have s5f: "balances s5 = balances s" "devAddress s5 = devAddress s"
    by (simp_all add: s5_def s1_def)
  have t1: "ERC20_transfer s5 (this c) (devAddress s5) 500 = Inr s6"
    unfolding s6_def using nz ne
    by (subst ERC20_transfer_eval) (simp_all add: s5f own zero TOTAL_SUPPLY_value UINT_LIMIT_def)
  have t2: "ERC20_transfer s6 (this c) buyer 997500 =
      Inr (s6\<lparr>balances := (balances s6)(this c := TOTAL_SUPPLY - 998000, buyer := 997500)\<rparr>)"
    using nz ne
    by (subst ERC20_transfer_eval) (simp_all add: s6_def s5f own zero TOTAL_SUPPLY_value UINT_LIMIT_def)
  have fin: "s6\<lparr>balances := (balances s6)(this c := TOTAL_SUPPLY - 998000, buyer := 997500)\<rparr>
      = s\<lparr>tokensSold := tokensSold s + 1000000,
            lastDividendPerShare :=
              (if isContract e buyer then lastDividendPerShare s
               else (lastDividendPerShare s)(buyer := magnifiedDividendPerShare s)),
            balances := (balances s)(this c := TOTAL_SUPPLY - 998000, devAddress s := 500,
                                     buyer := 997500)\<rparr>"
    using ne by (auto simp: s6_def s5_def s1_def fun_eq_iff)
  show ?thesis
    unfolding buy_internal_def
    by (simp add: r csub_def getTokens_first[OF b own] sold' nlt fees net Let_def
        bal0 accrue_nothing d s1_def[symmetric] s5_def[symmetric] t1 t2 fin)
qed


lemma nonReentrant_eval:
  "\<not> entered s \<Longrightarrow> body (s\<lparr>entered := True\<rparr>) = Inr s1 \<Longrightarrow>
   nonReentrant s body = Inr (s1\<lparr>entered := False\<rparr>)"
  by (simp add: nonReentrant_def)

lemma run_buy: "exec c0 wallets (Buy 5 1000000000000000000) st0 = Inr st1"
proof -
  let ?s = "st0\<lparr>entered := True, usdcReserves := 1000000,
                  backingHeld := 1000000000000000000\<rparr>"
  have "buy_internal c0 wallets ?s 5 1000000 =
      Inr (?s\<lparr>tokensSold := tokensSold ?s + 1000000,
            lastDividendPerShare :=
              (if isContract wallets 5 then lastDividendPerShare ?s
               else (lastDividendPerShare ?s)(5 := magnifiedDividendPerShare ?s)),
            balances := (balances ?s)(this c0 := TOTAL_SUPPLY - 998000, devAddress ?s := 500,
                                     5 := 997500)\<rparr>)"
    by (rule buy_internal_first) (simp_all add: st0_fields c0_fields TOTAL_SUPPLY_value)
  then have b: "buy_body c0 wallets (st0\<lparr>entered := True\<rparr>) 5 1000000000000000000 =
      Inr (st1\<lparr>entered := True\<rparr>)"
    by (simp add: buy_body_def c0_fields st0_fields MINIMUM_PURCHASE_USDC_def cadd_def
        UINT_LIMIT_def st1_def TOTAL_SUPPLY_value fun_eq_iff)
  show ?thesis
    using nonReentrant_eval[of st0 "\<lambda>s0. buy_body c0 wallets s0 5 1000000000000000000", OF _ b]
    by (simp add: buy_def st0_fields st1_def)
qed

lemma st1_fields:
  "usdcReserves st1 = 1000000" "totalBurned st1 = 0" "tokensSold st1 = 1000000"
  "devAddress st1 = 2" "magnifiedDividendPerShare st1 = 0" "totalDividendsDistributed st1 = 0"
  "lastDividendPerShare st1 a = 0" "accumulatedDividends st1 a = 0"
  "isExcludedFromFee st1 a = (a = 100 \<or> a = 1 \<or> a = 2)"
  "pairCache st1 a = False" "notPairCache st1 a = False"
  "balances st1 a = (if a = 100 then 99999999999002000 else if a = 2 then 500
                     else if a = 5 then 997500 else 0)"
  "entered st1 = False" "backingHeld st1 = 1000000000000000000"
  by (simp_all add: st1_def st0_fields)

lemma contractAndPair_wallets: "contractAndPair c wallets s a = Inr (False, s, [])"
  by (simp add: contractAndPair_def isContract_def isContract_run_def wallets_def)

lemma transferIfNonzero_eval:
  "amount \<noteq> 0 \<Longrightarrow> ERC20_transfer s from to amount = Inr s' \<Longrightarrow>
   transferIfNonzero s from to amount = Inr s'"
  by (simp add: transferIfNonzero_def)

lemma run_taxed: "handleTaxedTransfer c0 wallets st1 5 6 997500 = Inr st2"
proof -
  define a1 where "a1 = st1\<lparr>balances := (balances st1)(5 := 0, 100 := 99999999999999500)\<rparr>"
  define a2 where "a2 = a1\<lparr>magnifiedDividendPerShare := 997 * 2 ^ 128 div 500,
                            totalDividendsDistributed := 997\<rparr>"
  define a3 where "a3 = a2\<lparr>balances := (balances a2)(100 := 99999999999004492, 6 := 995008)\<rparr>"
  have fees: "mulDiv 997500 TRANSFER_DEV_FEE_BPS 10000 = Inr 498"
    "mulDiv 997500 TRANSFER_REFLECTION_FEE_BPS 10000 = Inr 997"
    "mulDiv 997500 TRANSFER_RESERVE_FEE_BPS 10000 = Inr 997"
    by (simp_all add: mulDiv_eval TRANSFER_DEV_FEE_BPS_def TRANSFER_REFLECTION_FEE_BPS_def
        TRANSFER_RESERVE_FEE_BPS_def UINT_LIMIT_def)
  have net: "usub (usub (usub 997500 498) 997) 997 = 995008"
    by (simp add: usub_eval UINT_LIMIT_def)
  have t1: "ERC20_transfer st1 5 100 997500 = Inr a1"
    unfolding a1_def
    by (subst ERC20_transfer_eval) (simp_all add: st1_fields UINT_LIMIT_def)
  have a1f: "balances a1 100 = 99999999999999500" "totalBurned a1 = 0"
    "magnifiedDividendPerShare a1 = 0" "totalDividendsDistributed a1 = 0"
    by (simp_all add: a1_def st1_fields)
  have d: "distributeDividends c0 a1 997 = Inr a2"
    unfolding distributeDividends_def getCirculatingSupply_def totalSupply_def a2_def
    by (simp add: a1f c0_fields TOTAL_SUPPLY_value csub_def cmul_def cdiv_def cadd_def
        MAGNITUDE_def UINT_LIMIT_def)
  have a2f: "balances a2 100 = 99999999999999500" "balances a2 6 = 0" "devAddress a2 = 2"
    by (simp_all add: a2_def a1_def st1_fields)
  have t2: "transferIfNonzero a2 100 6 995008 = Inr a3"
    unfolding a3_def
    by (rule transferIfNonzero_eval, simp, subst ERC20_transfer_eval)
       (simp_all add: a2f UINT_LIMIT_def)
  have a3f: "balances a3 100 = 99999999999004492" "balances a3 2 = 500" "devAddress a3 = 2"
    by (simp_all add: a3_def a2_def a1_def st1_fields)
  have t3: "transferIfNonzero a3 100 2 498 =
      Inr (a3\<lparr>balances := (balances a3)(100 := 99999999999003994, 2 := 998)\<rparr>)"
    by (rule transferIfNonzero_eval, simp, subst ERC20_transfer_eval)
       (simp_all add: a3f UINT_LIMIT_def)
  have fin: "a3\<lparr>balances := (balances a3)(100 := 99999999999003994, 2 := 998)\<rparr> = st2"
    by (simp add: a3_def a2_def a1_def st2_def fun_eq_iff st1_fields)
  show ?thesis
    unfolding handleTaxedTransfer_def
    by (simp add: st1_fields contractAndPair_wallets fees net Let_def c0_fields t1 d t2 t3 fin
        a3f)
qed

lemma run_transfer: "exec c0 wallets (Transfer 5 6 997500) st1 = Inr st2"
proof -
  have same: "st1\<lparr>lastDividendPerShare := (lastDividendPerShare st1)(5 := 0, 6 := 0)\<rparr> = st1"
  proof -
    have "(lastDividendPerShare st1)(5 := 0, 6 := 0) = lastDividendPerShare st1"
      by (simp add: fun_eq_iff st1_fields)
    then show ?thesis by simp
  qed
  show ?thesis
    by (simp add: transfer_def transfer_internal_def updateUserDividendTracking_def
        update_internal_def c0_fields st1_fields Let_def same run_taxed)
qed

lemma pending_st2: "pendingDividends wallets st2 6 = Inr 1984045"
  by (simp add: pendingDividends_def st2_def st1_fields csub_def cmul_def cadd_def
      MAGNITUDE_def UINT_LIMIT_def)


section \<open>The accumulator never decreases\<close>

text \<open>
  Claim C7. \<^verbatim>\<open>magnifiedDividendPerShare\<close> never decreases: for every call of a public
  function of the contract (buy, transfer and with it refund, claim, and every other
  one) that returns, the value of \<^verbatim>\<open>magnifiedDividendPerShare\<close> after the call is
  greater than or equal to its value before.
\<close>

theorem magnifiedDividendPerShare_never_decreases:
  assumes "exec c e call s = Inr s'"
  shows "magnifiedDividendPerShare s \<le> magnifiedDividendPerShare s'"
  using exec_advances[OF assms] by (simp add: advances_def)

text \<open>
  The taxed transfer of 997,500 tokens from address 5 to address 6 raises the
  accumulator from 0 to \<open>997 * 2 ^ 128 div 500\<close>.
\<close>

theorem magnifiedDividendPerShare_never_decreases_witness:
  "exec c0 wallets (Transfer 5 6 997500) st1 = Inr st2
   \<and> magnifiedDividendPerShare st1 = 0
   \<and> magnifiedDividendPerShare st2 = 678523039640351296145968967218945813643
   \<and> magnifiedDividendPerShare st1 \<le> magnifiedDividendPerShare st2"
  using magnifiedDividendPerShare_never_decreases[OF run_transfer] run_transfer
  by (simp add: st1_fields st2_def)

section \<open>Automated contracts and dividends\<close>

lemma release_lock: "\<not> entered s \<Longrightarrow> s\<lparr>entered := True\<rparr>\<lparr>entered := False\<rparr> = s"
  by (cases s) simp

lemma isContract_router: "isContract routerWorld 9"
  by (simp add: isContract_def isContract_run_def routerWorld_def)

text \<open>
  Claim C10. For every address that \<^verbatim>\<open>isContract\<close> classifies as an automated
  contract, \<^verbatim>\<open>claimDividends\<close> returns without transferring anything and without
  changing the storage, and the view \<^verbatim>\<open>pendingDividends\<close> returns 0 whatever amount
  \<^verbatim>\<open>accumulatedDividends\<close> stores for the address. The reentrancy lock is free at the
  start of every call from outside (\<open>reachable_invariant\<close>).
\<close>

theorem contracts_get_no_dividends:
  assumes "\<not> entered s" and "isContract e user"
  shows "claimDividends c e s user = Inr s \<and> pendingDividends e s user = Inr 0"
  using assms
  by (simp add: claimDividends_def nonReentrant_def claim_body_def pendingDividends_def
      release_lock)

text \<open>Address 9, a router with 77 units of stored dividends.\<close>

theorem contracts_get_no_dividends_witness:
  "\<not> entered (st0\<lparr>accumulatedDividends := (\<lambda>a. 77)\<rparr>)
   \<and> isContract routerWorld 9
   \<and> accumulatedDividends (st0\<lparr>accumulatedDividends := (\<lambda>a. 77)\<rparr>) 9 = 77
   \<and> claimDividends c0 routerWorld (st0\<lparr>accumulatedDividends := (\<lambda>a. 77)\<rparr>) 9
       = Inr (st0\<lparr>accumulatedDividends := (\<lambda>a. 77)\<rparr>)
   \<and> pendingDividends routerWorld (st0\<lparr>accumulatedDividends := (\<lambda>a. 77)\<rparr>) 9 = Inr 0"
  using contracts_get_no_dividends[of "st0\<lparr>accumulatedDividends := (\<lambda>a. 77)\<rparr>" routerWorld 9 c0]
    isContract_router
  by (simp add: st0_fields)

section \<open>The pricing curve\<close>

lemma getTokensForUsdc_spec:
  assumes "getTokensForUsdc c s usdcAmount balanceBefore = Inr t"
  shows "t = spec_tokensIssued c s usdcAmount balanceBefore"
  using assms
  by (auto simp: getTokensForUsdc_def totalSupply_def res_simps Let_def spec_tokensIssued_def
      spec_buyPrice_def spec_circulatingOutside_def BASE_PRICE_def PRECISION_DIVISOR_def
      split: if_splits)

lemma spec_tokensIssued_cong:
  "totalBurned s' = totalBurned s \<Longrightarrow> balances s' = balances s \<Longrightarrow>
   spec_tokensIssued c s' d r = spec_tokensIssued c s d r"
  by (simp add: spec_tokensIssued_def spec_buyPrice_def spec_circulatingOutside_def)

lemma ERC20_transfer_tokensSold:
  "ERC20_transfer s from to amount = Inr s' \<Longrightarrow> tokensSold s' = tokensSold s"
  by (auto simp: ERC20_transfer_def Let_def split: if_splits)

lemma distributeDividends_tokensSold:
  "distributeDividends c s amount = Inr s' \<Longrightarrow> tokensSold s' = tokensSold s"
  by (auto simp: distributeDividends_def res_simps split: if_splits)

lemma accumulateNewDividends_tokensSold:
  "accumulateNewDividends s u b cur lst = Inr s' \<Longrightarrow> tokensSold s' = tokensSold s"
  by (auto simp: accumulateNewDividends_def res_simps Let_def split: if_splits)

lemma accrueExisting_tokensSold:
  "accrueExisting e s u b = Inr s' \<Longrightarrow> tokensSold s' = tokensSold s"
  by (auto simp: accrueExisting_def split: if_splits dest: accumulateNewDividends_tokensSold)

lemma buy_internal_tokensSold:
  assumes "buy_internal c e s buyer usdcAmount = Inr s'"
  shows "usdcAmount \<le> usdcReserves s \<and>
    tokensSold s' = tokensSold s + spec_tokensIssued c s usdcAmount (usdcReserves s - usdcAmount)"
proof -
  from assms obtain n where le: "usdcAmount \<le> usdcReserves s"
    and g: "getTokensForUsdc c s usdcAmount (usdcReserves s - usdcAmount) = Inr n"
    and sold: "tokensSold s' = tokensSold s + n"
    unfolding buy_internal_def
    by (auto simp: res_simps Let_def split: if_splits
        dest!: accrueExisting_tokensSold distributeDividends_tokensSold ERC20_transfer_tokensSold)
  from getTokensForUsdc_spec[OF g] le sold show ?thesis by simp
qed


lemma buy_tokensSold:
  assumes "buy c e s sender amount = Inr s'"
  shows "tokensSold s' =
    tokensSold s + spec_tokensIssued c s (deposited c amount) (usdcReserves s)"
proof -
  from assms obtain s1 where b: "buy_body c e (s\<lparr>entered := True\<rparr>) sender amount = Inr s1"
    and s': "s' = s1\<lparr>entered := False\<rparr>"
    by (auto simp: buy_def nonReentrant_def res_simps split: if_splits)
  define d where "d = deposited c amount"
  define sb where "sb = s\<lparr>entered := True, usdcReserves := usdcReserves s + d,
                           backingHeld := backingHeld s + amount\<rparr>"
  from b have i: "buy_internal c e sb sender d = Inr s1"
    by (auto simp: buy_body_def res_simps Let_def sb_def d_def deposited_def unit_def
        split: if_splits)
  have "spec_tokensIssued c sb d (usdcReserves sb - d) = spec_tokensIssued c s d (usdcReserves s)"
    by (simp add: sb_def spec_tokensIssued_def spec_buyPrice_def spec_circulatingOutside_def)
  with buy_internal_tokensSold[OF i] show ?thesis
    by (simp add: s' sb_def d_def)
qed

text \<open>
  Claim C1. For every buy: if the circulating supply outside the contract is zero or
  the reserve before the deposit is zero, the price is the base price, 1 unit of
  backing per 1 unit of token (1000000 in six decimals); otherwise the price is
  \<open>(reserveBeforeDeposit * 1e6 div circulatingOutsideContract) * 10010 div 10000\<close>;
  the tokens issued are \<open>depositAmount * 1e6 div price\<close>, capped at the contract's own
  token balance. This is \<open>spec_tokensIssued\<close>; the code's \<^verbatim>\<open>_getTokensForUsdc\<close> computes
  it whenever it returns, and a buy that returns has sold exactly that many tokens,
  priced on the reserve before the deposit.
\<close>

theorem buy_price_and_tokens_issued:
  "(getTokensForUsdc c s usdcAmount balanceBefore = Inr t
      \<longrightarrow> t = spec_tokensIssued c s usdcAmount balanceBefore)
   \<and> (buy c e s sender amount = Inr s'
      \<longrightarrow> tokensSold s' =
          tokensSold s + spec_tokensIssued c s (deposited c amount) (usdcReserves s))"
  using getTokensForUsdc_spec buy_tokensSold by blast

lemma getTokens_st1: "getTokensForUsdc c0 st1 2000000 1000000 = Inr 1994006"
  unfolding getTokensForUsdc_def
  by (simp add: st1_fields c0_fields totalSupply_def TOTAL_SUPPLY_value csub_def cmul_def
      cdiv_def UINT_LIMIT_def PRECISION_DIVISOR_def)

text \<open>
  A deposit of 2,000,000 units into \<open>st1\<close> (reserve 1,000,000, circulating 998,000) is
  priced at 1003006 and buys 1,994,006 tokens; the first buy is priced at the base
  price.
\<close>

theorem buy_price_and_tokens_issued_witness:
  "getTokensForUsdc c0 st1 2000000 1000000 = Inr 1994006
   \<and> spec_buyPrice c0 st1 1000000 = 1003006
   \<and> 1994006 = spec_tokensIssued c0 st1 2000000 1000000
   \<and> buy c0 wallets st0 5 1000000000000000000 = Inr st1
   \<and> spec_buyPrice c0 st0 0 = 1000000
   \<and> tokensSold st1 = tokensSold st0 + spec_tokensIssued c0 st0 1000000 0"
proof -
  have b: "buy c0 wallets st0 5 1000000000000000000 = Inr st1"
    using run_buy by simp
  have p: "spec_buyPrice c0 st1 1000000 = 1003006" "spec_buyPrice c0 st0 0 = 1000000"
    by (simp_all add: spec_buyPrice_def spec_circulatingOutside_def st1_fields st0_fields
        c0_fields TOTAL_SUPPLY_value)
  have d: "deposited c0 1000000000000000000 = 1000000"
    by (simp add: deposited_def unit_def c0_fields)
  from buy_price_and_tokens_issued[where c = c0 and s = st1 and usdcAmount = 2000000
        and balanceBefore = 1000000 and t = 1994006]
    buy_price_and_tokens_issued[where c = c0 and s = st0 and e = wallets and sender = 5
        and amount = 1000000000000000000 and s' = st1]
    getTokens_st1 b p d
  show ?thesis by (simp add: st0_fields(1))
qed

section \<open>The reserve and the custody are framed\<close>

lemma same_backing_refl [simp]: "same_backing s s"
  by (simp add: same_backing_def)

lemma same_backing_trans: "same_backing s t \<Longrightarrow> same_backing t u \<Longrightarrow> same_backing s u"
  by (simp add: same_backing_def)

lemma ERC20_transfer_backing: "ERC20_transfer s from to amount = Inr s' \<Longrightarrow> same_backing s s'"
  by (auto simp: ERC20_transfer_def same_backing_def Let_def split: if_splits)

lemma ERC20_burn_backing: "ERC20_burn s a amount = Inr s' \<Longrightarrow> same_backing s s'"
  by (auto simp: ERC20_burn_def same_backing_def split: if_splits)

lemma transferIfNonzero_backing:
  "transferIfNonzero s from to amount = Inr s' \<Longrightarrow> same_backing s s'"
  by (auto simp: transferIfNonzero_def split: if_splits dest: ERC20_transfer_backing)

lemma distributeDividends_backing: "distributeDividends c s amount = Inr s' \<Longrightarrow> same_backing s s'"
  by (auto simp: distributeDividends_def same_backing_def res_simps split: if_splits)

lemma accumulateNewDividends_backing:
  "accumulateNewDividends s u b cur lst = Inr s' \<Longrightarrow> same_backing s s'"
  by (auto simp: accumulateNewDividends_def same_backing_def res_simps Let_def split: if_splits)

lemma updateUserDividendTracking_backing:
  "updateUserDividendTracking e s u = Inr s' \<Longrightarrow> same_backing s s'"
  by (auto simp: updateUserDividendTracking_def same_backing_def res_simps Let_def
      split: if_splits dest!: accumulateNewDividends_backing)

lemma accrueExisting_backing: "accrueExisting e s u b = Inr s' \<Longrightarrow> same_backing s s'"
  by (auto simp: accrueExisting_def split: if_splits dest!: accumulateNewDividends_backing)

lemma accrueSender_backing: "accrueSender e s u = Inr s' \<Longrightarrow> same_backing s s'"
  by (auto simp: accrueSender_def same_backing_def res_simps Let_def
      split: if_splits dest!: accumulateNewDividends_backing)

lemma isLiquidityPair_backing: "isLiquidityPair c e s a = Inr (b, s', ps) \<Longrightarrow> same_backing s s'"
  by (auto simp: isLiquidityPair_def cacheLiquidityPair_def same_backing_def Let_def
      split: if_splits)

lemma contractAndPair_backing: "contractAndPair c e s a = Inr (b, s', ps) \<Longrightarrow> same_backing s s'"
  by (auto simp: contractAndPair_def res_simps split: if_splits dest!: isLiquidityPair_backing)

lemma boundedBurn_backing: "boundedBurn c s burned fee = Inr s' \<Longrightarrow> same_backing s s'"
  by (auto simp: boundedBurn_def ERC20_burn_def same_backing_def res_simps Let_def
      split: if_splits)

lemma accumulateNewDividends_ledger:
  "accumulateNewDividends s u b cur lst = Inr s' \<Longrightarrow>
     totalBurned s' = totalBurned s \<and> balances s' = balances s"
  by (auto simp: accumulateNewDividends_def res_simps Let_def split: if_splits)

lemma accrueSender_ledger:
  "accrueSender e s u = Inr s' \<Longrightarrow> totalBurned s' = totalBurned s \<and> balances s' = balances s"
  by (auto simp: accrueSender_def res_simps Let_def split: if_splits
      dest!: accumulateNewDividends_ledger)

lemma fee_sum_le:
  "gross * 5 div 10000 + gross * 5 div 10000 + gross * 75 div 100000 + gross * 75 div 100000
     \<le> (gross::nat)"
  "gross * 5 div 10000 + gross * 5 div 10000 + gross * 150 div 100000 \<le> (gross::nat)"
  by arith+

lemma refundFees_spec:
  assumes "refundFees burned gross = Inr f" and "gross < UINT_LIMIT"
  shows "f = spec_refundSplit burned gross"
proof -
  have u: "usub (usub (usub (usub gross a) b) c) d = gross - a - b - c - d"
    if "a + b + c + d \<le> gross" for a b c d
  proof -
    from that assms(2) have "usub gross a = gross - a"
      by (intro usub_eval) simp_all
    moreover from that assms(2) have "usub (gross - a) b = gross - a - b"
      by (intro usub_eval) simp_all
    moreover from that assms(2) have "usub (gross - a - b) c = gross - a - b - c"
      by (intro usub_eval) simp_all
    moreover from that assms(2) have "usub (gross - a - b - c) d = gross - a - b - c - d"
      by (intro usub_eval) simp_all
    ultimately show ?thesis by simp
  qed
  show ?thesis
  proof (cases "burned < BURNING_LIMIT")
    case True
    with assms(1) have "f = \<lparr>devFeeTokens = gross * 5 div 10000,
        reflectionFeeTokens = gross * 5 div 10000, burnFeeTokens = gross * 75 div 100000,
        reserveFeeTokens = gross * 75 div 100000,
        tokensForRefund = usub (usub (usub (usub gross (gross * 5 div 10000))
          (gross * 5 div 10000)) (gross * 75 div 100000)) (gross * 75 div 100000)\<rparr>"
      by (auto simp: refundFees_def res_simps REFUND_DEV_FEE_BPS_def
          REFUND_REFLECTION_FEE_BPS_def dest!: mulDiv_eq_Inr)
    with True u[OF fee_sum_le(1)] show ?thesis
      by (simp add: spec_refundSplit_def)
  next
    case False
    with assms(1) have "f = \<lparr>devFeeTokens = gross * 5 div 10000,
        reflectionFeeTokens = gross * 5 div 10000, burnFeeTokens = 0,
        reserveFeeTokens = gross * 150 div 100000,
        tokensForRefund = usub (usub (usub (usub gross (gross * 5 div 10000))
          (gross * 5 div 10000)) 0) (gross * 150 div 100000)\<rparr>"
      by (auto simp: refundFees_def res_simps REFUND_DEV_FEE_BPS_def
          REFUND_REFLECTION_FEE_BPS_def dest!: mulDiv_eq_Inr)
    with False u[of "gross * 5 div 10000" "gross * 5 div 10000" 0 "gross * 150 div 100000"]
      fee_sum_le(2)[of gross]
    show ?thesis
      by (simp add: spec_refundSplit_def)
  qed
qed

lemma refundQuote_spec:
  assumes "refundQuote c s gross forRefund = Inr q"
  shows "q = spec_payout c s gross forRefund \<and> q \<le> usdcReserves s
    \<and> 0 < spec_currentCirculatingSupply c s gross"
  using assms
  by (auto simp: refundQuote_def res_simps spec_payout_def spec_effectiveBacking_def
      spec_currentCirculatingSupply_def EFFECTIVE_BACKING_NUMERATOR_def
      EFFECTIVE_BACKING_DENOMINATOR_def split: if_splits dest!: mulDiv_eq_Inr)

lemma sendBacking_spec:
  assumes "sendBacking c e s sender q = Inr s'"
  shows "q \<le> usdcReserves s \<and> usdcReserves s' = usdcReserves s - q
    \<and> q * unit c \<le> backingHeld s \<and> backingHeld s' = backingHeld s - q * unit c"
  using assms
  by (auto simp: sendBacking_def res_simps unit_def split: if_splits)


lemma refund_body_spec:
  assumes "refund_body c e s sender gross = Inr s'" and "gross < UINT_LIMIT"
  shows "refundFees (totalBurned s) gross = Inr (spec_refundSplit (totalBurned s) gross)
    \<and> 0 < spec_currentCirculatingSupply c s gross
    \<and> spec_payout c s gross (tokensForRefund (spec_refundSplit (totalBurned s) gross))
        \<le> usdcReserves s
    \<and> usdcReserves s' = usdcReserves s
        - spec_payout c s gross (tokensForRefund (spec_refundSplit (totalBurned s) gross))
    \<and> spec_payout c s gross (tokensForRefund (spec_refundSplit (totalBurned s) gross)) * unit c
        \<le> backingHeld s
    \<and> backingHeld s' = backingHeld s
        - spec_payout c s gross (tokensForRefund (spec_refundSplit (totalBurned s) gross))
          * unit c"
proof -
  from assms(1) obtain a and f :: refund_split and q b1 b2 b3 where
    1: "accrueSender e s sender = Inr a"
    and 2: "refundFees (totalBurned a) gross = Inr f"
    and 3: "refundQuote c a gross (tokensForRefund f) = Inr q"
    and 4: "transferIfNonzero a (this c) (devAddress a) (devFeeTokens f) = Inr b1"
    and 5: "boundedBurn c b1 (totalBurned a) (burnFeeTokens f) = Inr b2"
    and 6: "distributeDividends c b2 (reflectionFeeTokens f) = Inr b3"
    and 7: "sendBacking c e b3 sender q = Inr s'"
    unfolding refund_body_def by (auto simp: res_simps split: if_splits)
  have l: "totalBurned a = totalBurned s" "balances a = balances s"
    using accrueSender_ledger[OF 1] by simp_all
  have "same_backing s a" using 1 by (rule accrueSender_backing)
  moreover have "same_backing a b1" using 4 by (rule transferIfNonzero_backing)
  moreover have "same_backing b1 b2" using 5 by (rule boundedBurn_backing)
  moreover have "same_backing b2 b3" using 6 by (rule distributeDividends_backing)
  ultimately have k: "usdcReserves a = usdcReserves s" "usdcReserves b3 = usdcReserves s"
    "backingHeld b3 = backingHeld s"
    by (simp_all add: same_backing_def)
  have f: "f = spec_refundSplit (totalBurned s) gross"
    using refundFees_spec[OF 2 assms(2)] by (simp add: l)
  have p: "spec_payout c a gross (tokensForRefund f) = spec_payout c s gross (tokensForRefund f)"
    "spec_currentCirculatingSupply c a gross = spec_currentCirculatingSupply c s gross"
    by (simp_all add: spec_payout_def spec_effectiveBacking_def
        spec_currentCirculatingSupply_def l k)
  from refundQuote_spec[OF 3] sendBacking_spec[OF 7] 2 show ?thesis
    by (simp add: p k l f[symmetric])
qed

text \<open>
  Claim C2. For every refund of a gross token amount (a call of \<^verbatim>\<open>_handleRefund\<close> that
  returns; \<open>s\<close> is the storage when it is entered, the contract's balance already
  holding the gross amount): the fee split is the one of the refund row, with
  \<open>tokensForRefund\<close> the gross amount minus the dev, reflection, burn and reserve
  shares; \<open>currentCirculatingSupply = (totalSupply - contractHeldBalance) + gross\<close> is
  not zero; \<open>effectiveBacking = reserveBalance * 999 div 1000\<close>; the payout
  \<open>tokensForRefund * effectiveBacking div currentCirculatingSupply\<close> does not exceed the
  reserve, is what the reserve decreases by and is what leaves the contract's custody.
  A refund with a zero circulating supply or a payout above the reserve does not
  return: it is rejected.
\<close>

theorem refund_payout:
  assumes "handleRefund c e s sender gross = Inr s'" and "gross < UINT_LIMIT"
  shows "refundFees (totalBurned s) gross = Inr (spec_refundSplit (totalBurned s) gross)
    \<and> 0 < spec_currentCirculatingSupply c s gross
    \<and> spec_payout c s gross (tokensForRefund (spec_refundSplit (totalBurned s) gross))
        \<le> usdcReserves s
    \<and> usdcReserves s' = usdcReserves s
        - spec_payout c s gross (tokensForRefund (spec_refundSplit (totalBurned s) gross))
    \<and> spec_payout c s gross (tokensForRefund (spec_refundSplit (totalBurned s) gross)) * unit c
        \<le> backingHeld s
    \<and> backingHeld s' = backingHeld s
        - spec_payout c s gross (tokensForRefund (spec_refundSplit (totalBurned s) gross))
          * unit c"
proof -
  from assms(1) obtain s1 where
    b: "refund_body c e (s\<lparr>entered := True\<rparr>) sender gross = Inr s1"
    and s': "s' = s1\<lparr>entered := False\<rparr>"
    by (auto simp: handleRefund_def nonReentrant_def res_simps split: if_splits)
  have "spec_payout c (s\<lparr>entered := True\<rparr>) gross x = spec_payout c s gross x"
    "spec_currentCirculatingSupply c (s\<lparr>entered := True\<rparr>) gross
      = spec_currentCirculatingSupply c s gross" for x
    by (simp_all add: spec_payout_def spec_effectiveBacking_def
        spec_currentCirculatingSupply_def)
  with refund_body_spec[OF b assms(2)] show ?thesis
    by (simp add: s')
qed


section \<open>The economics of a refund\<close>

lemma nearLimit_fields:
  "usdcReserves nearLimit = 10000000000000000" "totalBurned nearLimit = 19999999999999990"
  "devAddress nearLimit = 2" "magnifiedDividendPerShare nearLimit = 0"
  "totalDividendsDistributed nearLimit = 0"
  "lastDividendPerShare nearLimit a = 0" "accumulatedDividends nearLimit a = 0"
  "balances nearLimit a = (if a = 100 then 70000000000000000 else 0)"
  "entered nearLimit = False" "backingHeld nearLimit = 10000000000000000000000000000"
  "erc20TotalSupply nearLimit = 100000000000000000"
  by (simp_all add: nearLimit_def st0_fields st0_def)

lemma run_refund: "\<exists>s'. handleRefund c0 wallets nearLimit 5 100000000 = Inr s'"
proof -
  define s0 where "s0 = nearLimit\<lparr>entered := True\<rparr>"
  define b1 where "b1 = s0\<lparr>balances := (balances s0)(100 := 69999999999950000, 2 := 50000)\<rparr>"
  define b2 where "b2 = b1\<lparr>balances := (balances b1)(100 := 69999999999949990),
                            erc20TotalSupply := 99999999999999990,
                            totalBurned := 20000000000000000\<rparr>"
  define b3 where "b3 = b2\<lparr>magnifiedDividendPerShare := 1701411834596183556732057523,
                            totalDividendsDistributed := 50000\<rparr>"
  have s0f: "usdcReserves s0 = 10000000000000000" "totalBurned s0 = 19999999999999990"
    "devAddress s0 = 2" "balances s0 a = (if a = 100 then 70000000000000000 else 0)" for a
    by (simp_all add: s0_def nearLimit_fields)
  have 1: "accrueSender wallets s0 5 = Inr s0"
    by (simp add: accrueSender_def s0f)
  have 2: "refundFees 19999999999999990 100000000 =
      Inr \<lparr>devFeeTokens = 50000, reflectionFeeTokens = 50000, burnFeeTokens = 75000,
           reserveFeeTokens = 75000, tokensForRefund = 99750000\<rparr>"
    by (simp add: refundFees_def mulDiv_eval usub_eval UINT_LIMIT_def BURNING_LIMIT_value
        REFUND_DEV_FEE_BPS_def REFUND_REFLECTION_FEE_BPS_def)
  have 3: "refundQuote c0 s0 100000000 99750000 = Inr 99650249"
    by (simp add: refundQuote_def s0f c0_fields csub_def cadd_def cmul_def cdiv_def
        mulDiv_eval UINT_LIMIT_def TOTAL_SUPPLY_value EFFECTIVE_BACKING_NUMERATOR_def
        EFFECTIVE_BACKING_DENOMINATOR_def)
  have 4: "transferIfNonzero s0 100 2 50000 = Inr b1"
    unfolding b1_def
    by (rule transferIfNonzero_eval, simp, subst ERC20_transfer_eval)
       (simp_all add: s0f UINT_LIMIT_def)
  have b1f: "balances b1 100 = 69999999999950000" "totalBurned b1 = 19999999999999990"
    "erc20TotalSupply b1 = 100000000000000000"
    by (simp_all add: b1_def s0_def nearLimit_fields)
  have 5: "boundedBurn c0 b1 19999999999999990 75000 = Inr b2"
    by (simp add: boundedBurn_def ERC20_burn_def Let_def b1f c0_fields BURNING_LIMIT_value
        cadd_def usub_eval UINT_LIMIT_def b2_def)
  have b2f: "balances b2 100 = 69999999999949990" "totalBurned b2 = 20000000000000000"
    "magnifiedDividendPerShare b2 = 0" "totalDividendsDistributed b2 = 0"
    by (simp_all add: b2_def b1_def s0_def nearLimit_fields)
  have 6: "distributeDividends c0 b2 50000 = Inr b3"
    unfolding distributeDividends_def getCirculatingSupply_def totalSupply_def b3_def
    by (simp add: b2f c0_fields TOTAL_SUPPLY_value csub_def cmul_def cdiv_def cadd_def
        MAGNITUDE_def UINT_LIMIT_def)
  have b3f: "usdcReserves b3 = 10000000000000000"
    "backingHeld b3 = 10000000000000000000000000000"
    by (simp_all add: b3_def b2_def b1_def s0_def nearLimit_fields)
  have 7: "sendBacking c0 wallets b3 5 99650249 =
      Inr (b3\<lparr>usdcReserves := 9999999900349751,
               backingHeld := 9999999900349751000000000000\<rparr>)"
    by (simp add: sendBacking_def b3f c0_fields csub_def cmul_def UINT_LIMIT_def wallets_def)
  have "refund_body c0 wallets s0 5 100000000 =
      Inr (b3\<lparr>usdcReserves := 9999999900349751,
               backingHeld := 9999999900349751000000000000\<rparr>)"
    unfolding refund_body_def
    by (simp add: MINIMUM_PURCHASE_USDC_def 1 s0f 2 3 c0_fields 4 5 6 7)
  then show ?thesis
    by (simp add: handleRefund_def nonReentrant_def nearLimit_fields s0_def)
qed

text \<open>
  A refund of 100,000,000 units on \<open>nearLimit\<close>: fees 50,000, 50,000, 75,000 and
  75,000, so 99,750,000 tokens for refund, and a payout of 99,650,249.
\<close>

theorem refund_payout_witness:
  "\<exists>s'. handleRefund c0 wallets nearLimit 5 100000000 = Inr s'
     \<and> spec_refundSplit (totalBurned nearLimit) 100000000 =
         \<lparr>devFeeTokens = 50000, reflectionFeeTokens = 50000, burnFeeTokens = 75000,
          reserveFeeTokens = 75000, tokensForRefund = 99750000\<rparr>
     \<and> spec_currentCirculatingSupply c0 nearLimit 100000000 = 10000000100000010
     \<and> spec_effectiveBacking nearLimit = 9990000000000000
     \<and> spec_payout c0 nearLimit 100000000 99750000 = 99650249
     \<and> usdcReserves s' = 9999999900349751
     \<and> backingHeld s' = backingHeld nearLimit - 99650249 * 1000000000000"
proof -
  from run_refund obtain s' where r: "handleRefund c0 wallets nearLimit 5 100000000 = Inr s'"
    by blast
  have f: "spec_refundSplit (totalBurned nearLimit) 100000000 =
         \<lparr>devFeeTokens = 50000, reflectionFeeTokens = 50000, burnFeeTokens = 75000,
          reserveFeeTokens = 75000, tokensForRefund = 99750000\<rparr>"
    by (simp add: spec_refundSplit_def nearLimit_fields BURNING_LIMIT_value)
  have v: "spec_currentCirculatingSupply c0 nearLimit 100000000 = 10000000100000010"
    "spec_effectiveBacking nearLimit = 9990000000000000"
    "spec_payout c0 nearLimit 100000000 99750000 = 99650249"
    "unit c0 = 1000000000000"
    by (simp_all add: spec_currentCirculatingSupply_def spec_effectiveBacking_def
        spec_payout_def nearLimit_fields c0_fields TOTAL_SUPPLY_value unit_def)
  have "(100000000::nat) < UINT_LIMIT"
    by (simp add: UINT_LIMIT_def)
  from refund_payout[OF r this] r f v show ?thesis
    by (auto simp: nearLimit_fields)
qed

section \<open>The burn bound\<close>

lemma distributeDividends_totalBurned:
  "distributeDividends c s amount = Inr s' \<Longrightarrow> totalBurned s' = totalBurned s"
  by (auto simp: distributeDividends_def res_simps split: if_splits)

lemma sendBacking_totalBurned:
  "sendBacking c e s u amount = Inr s' \<Longrightarrow> totalBurned s' = totalBurned s"
  by (auto simp: sendBacking_def res_simps split: if_splits)

lemma boundedBurn_totalBurned:
  assumes "boundedBurn c s burned fee = Inr s'" and "totalBurned s = burned"
    and "burned \<le> BURNING_LIMIT"
  shows "totalBurned s' = min (burned + fee) BURNING_LIMIT"
  using assms
  by (auto simp: boundedBurn_def ERC20_burn_def res_simps Let_def split: if_splits)

lemma refundFees_burn:
  assumes "refundFees burned gross = Inr f"
  shows "burnFeeTokens f = (if burned < BURNING_LIMIT then gross * 75 div 100000 else 0)
    \<and> reserveFeeTokens f = (if burned < BURNING_LIMIT then gross * 75 div 100000
                            else gross * 150 div 100000)"
  using assms
  by (auto simp: refundFees_def res_simps split: if_splits dest!: mulDiv_eq_Inr)

lemma refund_body_totalBurned:
  assumes "refund_body c e s sender gross = Inr s'" and "totalBurned s \<le> BURNING_LIMIT"
  shows "totalBurned s' = min (totalBurned s + gross * 75 div 100000) BURNING_LIMIT"
proof -
  from assms(1) obtain a and f :: refund_split and q b1 b2 b3 where
    1: "accrueSender e s sender = Inr a"
    and 2: "refundFees (totalBurned a) gross = Inr f"
    and 4: "transferIfNonzero a (this c) (devAddress a) (devFeeTokens f) = Inr b1"
    and 5: "boundedBurn c b1 (totalBurned a) (burnFeeTokens f) = Inr b2"
    and 6: "distributeDividends c b2 (reflectionFeeTokens f) = Inr b3"
    and 7: "sendBacking c e b3 sender q = Inr s'"
    unfolding refund_body_def by (auto simp: res_simps split: if_splits)
  have a: "totalBurned a = totalBurned s"
    using accrueSender_ledger[OF 1] by simp
  have b1: "totalBurned b1 = totalBurned s"
    using transferIfNonzero_totalBurned[OF 4] a by simp
  have "totalBurned b2 = min (totalBurned s + burnFeeTokens f) BURNING_LIMIT"
    using boundedBurn_totalBurned[OF 5] a b1 assms(2) by simp
  moreover have "totalBurned s' = totalBurned b2"
    using distributeDividends_totalBurned[OF 6] sendBacking_totalBurned[OF 7] by simp
  moreover have "burnFeeTokens f =
      (if totalBurned s < BURNING_LIMIT then gross * 75 div 100000 else 0)"
    using refundFees_burn[OF 2] a by simp
  ultimately show ?thesis
    using assms(2) by (auto simp: min_def)
qed

lemma handleRefund_totalBurned:
  assumes "handleRefund c e s sender gross = Inr s'" and "totalBurned s \<le> BURNING_LIMIT"
  shows "totalBurned s' = min (totalBurned s + gross * 75 div 100000) BURNING_LIMIT"
proof -
  from assms(1) obtain s1 where
    b: "refund_body c e (s\<lparr>entered := True\<rparr>) sender gross = Inr s1"
    and s': "s' = s1\<lparr>entered := False\<rparr>"
    by (auto simp: handleRefund_def nonReentrant_def res_simps split: if_splits)
  from refund_body_totalBurned[OF b] assms(2) show ?thesis
    by (simp add: s')
qed

lemma boundedBurn_caps:
  assumes "this c \<noteq> 0" and "totalBurned s = burned" and "burned < BURNING_LIMIT"
    and "BURNING_LIMIT - burned < fee" and "BURNING_LIMIT - burned \<le> balances s (this c)"
  shows "\<exists>s'. boundedBurn c s burned fee = Inr s' \<and> totalBurned s' = BURNING_LIMIT"
  using assms
  by (auto simp: boundedBurn_def ERC20_burn_def Let_def cadd_def UINT_LIMIT_def
      BURNING_LIMIT_value)

text \<open>
  Claim C4. In every reachable storage \<^verbatim>\<open>totalBurned\<close> is at most \<^verbatim>\<open>BURNING_LIMIT\<close>, 20%
  of the minted supply. A refund that returns leaves the burn counter at the minimum
  of the limit and the counter plus the burn fee, \<open>gross * 75 div 100000\<close>; a burn fee
  above the remaining headroom is not rejected by the burn but burns exactly the
  headroom. While the counter is below the limit the burn fee and the reserve fee
  are both \<open>gross * 75 div 100000\<close>; once the limit is reached the burn fee is 0 and
  the reserve fee is \<open>gross * 150 div 100000\<close>.
\<close>

theorem burn_bound:
  "(reachable c s \<longrightarrow> totalBurned s \<le> BURNING_LIMIT)
   \<and> (handleRefund c e s sender gross = Inr s' \<and> totalBurned s \<le> BURNING_LIMIT
        \<longrightarrow> totalBurned s' = min (totalBurned s + gross * 75 div 100000) BURNING_LIMIT)
   \<and> (this c \<noteq> 0 \<and> totalBurned s = burned \<and> burned < BURNING_LIMIT
        \<and> BURNING_LIMIT - burned < fee \<and> BURNING_LIMIT - burned \<le> balances s (this c)
        \<longrightarrow> (\<exists>t. boundedBurn c s burned fee = Inr t \<and> totalBurned t = BURNING_LIMIT))
   \<and> (refundFees burned gross = Inr f \<and> burned < BURNING_LIMIT
        \<longrightarrow> burnFeeTokens f = gross * 75 div 100000
            \<and> reserveFeeTokens f = gross * 75 div 100000)
   \<and> (refundFees burned gross = Inr f \<and> BURNING_LIMIT \<le> burned
        \<longrightarrow> burnFeeTokens f = 0 \<and> reserveFeeTokens f = gross * 150 div 100000)"
proof (intro conjI impI)
  assume "reachable c s"
  then show "totalBurned s \<le> BURNING_LIMIT"
    using reachable_invariant by blast
next
  assume "handleRefund c e s sender gross = Inr s' \<and> totalBurned s \<le> BURNING_LIMIT"
  then show "totalBurned s' = min (totalBurned s + gross * 75 div 100000) BURNING_LIMIT"
    using handleRefund_totalBurned by blast
next
  assume "this c \<noteq> 0 \<and> totalBurned s = burned \<and> burned < BURNING_LIMIT
        \<and> BURNING_LIMIT - burned < fee \<and> BURNING_LIMIT - burned \<le> balances s (this c)"
  then show "\<exists>t. boundedBurn c s burned fee = Inr t \<and> totalBurned t = BURNING_LIMIT"
    using boundedBurn_caps by blast
next
  assume "refundFees burned gross = Inr f \<and> burned < BURNING_LIMIT"
  then show "burnFeeTokens f = gross * 75 div 100000"
    "reserveFeeTokens f = gross * 75 div 100000"
    using refundFees_burn[of burned gross f] by simp_all
next
  assume "refundFees burned gross = Inr f \<and> BURNING_LIMIT \<le> burned"
  then show "burnFeeTokens f = 0" "reserveFeeTokens f = gross * 150 div 100000"
    using refundFees_burn[of burned gross f] by simp_all
qed


lemma refundFees_below:
  "refundFees 19999999999999990 100000000 =
      Inr \<lparr>devFeeTokens = 50000, reflectionFeeTokens = 50000, burnFeeTokens = 75000,
           reserveFeeTokens = 75000, tokensForRefund = 99750000\<rparr>"
  by (simp add: refundFees_def mulDiv_eval usub_eval UINT_LIMIT_def BURNING_LIMIT_value
      REFUND_DEV_FEE_BPS_def REFUND_REFLECTION_FEE_BPS_def)

lemma refundFees_at:
  "refundFees 20000000000000000 100000000 =
      Inr \<lparr>devFeeTokens = 50000, reflectionFeeTokens = 50000, burnFeeTokens = 0,
           reserveFeeTokens = 150000, tokensForRefund = 99750000\<rparr>"
  by (simp add: refundFees_def mulDiv_eval usub_eval UINT_LIMIT_def BURNING_LIMIT_value
      REFUND_DEV_FEE_BPS_def REFUND_REFLECTION_FEE_BPS_def)

text \<open>
  The refund of 100,000,000 units on \<open>nearLimit\<close>, ten units under the limit: the
  burn fee of 75,000 is capped to 10 and the refund returns with the counter at the
  limit.
\<close>

theorem burn_bound_witness:
  "reachable c0 st0 \<and> totalBurned st0 \<le> BURNING_LIMIT
   \<and> totalBurned nearLimit + 10 = BURNING_LIMIT
   \<and> (\<exists>s'. handleRefund c0 wallets nearLimit 5 100000000 = Inr s'
          \<and> totalBurned s' = BURNING_LIMIT)
   \<and> (\<exists>t. boundedBurn c0 nearLimit 19999999999999990 75000 = Inr t
          \<and> totalBurned t = BURNING_LIMIT)
   \<and> refundFees 19999999999999990 100000000 =
        Inr \<lparr>devFeeTokens = 50000, reflectionFeeTokens = 50000, burnFeeTokens = 75000,
             reserveFeeTokens = 75000, tokensForRefund = 99750000\<rparr>
   \<and> refundFees 20000000000000000 100000000 =
        Inr \<lparr>devFeeTokens = 50000, reflectionFeeTokens = 50000, burnFeeTokens = 0,
             reserveFeeTokens = 150000, tokensForRefund = 99750000\<rparr>
   \<and> (100000000::nat) * 75 div 100000 = 75000 \<and> (100000000::nat) * 150 div 100000 = 150000"
proof -
  have r0: "reachable c0 st0"
    using run_constructor by (rule reachable_init)
  from run_refund obtain s' where r: "handleRefund c0 wallets nearLimit 5 100000000 = Inr s'"
    by blast
  have n: "totalBurned nearLimit \<le> BURNING_LIMIT" "totalBurned nearLimit + 10 = BURNING_LIMIT"
    by (simp_all add: nearLimit_fields BURNING_LIMIT_value)
  have 1: "totalBurned st0 \<le> BURNING_LIMIT"
    using burn_bound[where c = c0 and s = st0] r0 by blast
  have 2: "totalBurned s' = BURNING_LIMIT"
    using burn_bound[where c = c0 and s = nearLimit and e = wallets and sender = 5
        and gross = 100000000 and s' = s'] r n(1)
    by (simp add: nearLimit_fields BURNING_LIMIT_value)
  have 3: "\<exists>t. boundedBurn c0 nearLimit 19999999999999990 75000 = Inr t
      \<and> totalBurned t = BURNING_LIMIT"
    using burn_bound[where c = c0 and s = nearLimit and burned = 19999999999999990
        and fee = 75000]
    by (simp add: nearLimit_fields c0_fields BURNING_LIMIT_value)
  have 4: "burnFeeTokens \<lparr>devFeeTokens = 50000, reflectionFeeTokens = 50000,
        burnFeeTokens = 75000, reserveFeeTokens = 75000, tokensForRefund = 99750000\<rparr>
      = 100000000 * 75 div 100000"
    using burn_bound[where burned = 19999999999999990 and gross = 100000000
        and f = "\<lparr>devFeeTokens = 50000, reflectionFeeTokens = 50000,
          burnFeeTokens = 75000, reserveFeeTokens = 75000, tokensForRefund = 99750000\<rparr>"]
      refundFees_below
    by (simp add: BURNING_LIMIT_value)
  have 5: "reserveFeeTokens \<lparr>devFeeTokens = 50000, reflectionFeeTokens = 50000,
        burnFeeTokens = 0, reserveFeeTokens = 150000, tokensForRefund = 99750000\<rparr>
      = 100000000 * 150 div 100000"
    using burn_bound[where burned = 20000000000000000 and gross = 100000000
        and f = "\<lparr>devFeeTokens = 50000, reflectionFeeTokens = 50000,
          burnFeeTokens = 0, reserveFeeTokens = 150000, tokensForRefund = 99750000\<rparr>"]
      refundFees_at
    by (simp add: BURNING_LIMIT_value)
  from r0 1 n(2) r 2 3 4 5 refundFees_below refundFees_at show ?thesis
    by auto
qed

section \<open>The first buy\<close>

lemma buy_body_first:
  assumes d: "deposited c amount = 1000000"
    and pull: "nativeBacking c \<or> pullSucceeds e buyer amount"
    and r: "usdcReserves s = 0"
    and i: "buy_internal c e (s\<lparr>usdcReserves := 1000000,
              backingHeld := backingHeld s + amount\<rparr>) buyer 1000000 = Inr s1"
  shows "buy_body c e s buyer amount = Inr s1"
proof (cases "nativeBacking c")
  case True
  with d have "amount div 1000000000000 = 1000000"
    by (simp add: deposited_def unit_def)
  with True i r show ?thesis
    by (simp add: buy_body_def MINIMUM_PURCHASE_USDC_def cadd_def UINT_LIMIT_def)
next
  case False
  with d have "amount = 1000000"
    by (simp add: deposited_def unit_def)
  with False i r pull show ?thesis
    by (simp add: buy_body_def MINIMUM_PURCHASE_USDC_def cadd_def UINT_LIMIT_def)
qed

text \<open>
  Claim C3, as amended. The first buy ever with a deposit of 1,000,000 six-decimal
  units (no circulation and no reserve before it) returns: it purchases exactly
  1,000,000 tokens at the base price, with dev fee 500, reserve fee 1,000 and
  reflection fee 1,000; it credits the buyer with 997,500 tokens and the dev address
  with 500, leaves the reserve at 1,000,000, reduces the contract's own balance by
  998,000 (the tokens of the reserve fee and of the reflection fee stay in the
  contract) and leaves \<^verbatim>\<open>magnifiedDividendPerShare\<close> unchanged: the distribution runs
  before any token has left the contract, finds a circulating supply of zero and
  returns at line 609.
\<close>

theorem first_buy:
  assumes "\<not> entered s"
    and "deposited c amount = 1000000"
    and "nativeBacking c \<or> pullSucceeds e buyer amount"
    and "usdcReserves s = 0" and "totalBurned s = 0"
    and "balances s (this c) = TOTAL_SUPPLY"
    and "tokensSold s = 0"
    and "balances s buyer = 0" and "balances s (devAddress s) = 0"
    and "buyer \<noteq> 0" and "devAddress s \<noteq> 0" and "this c \<noteq> 0"
    and "buyer \<noteq> this c" and "devAddress s \<noteq> this c" and "buyer \<noteq> devAddress s"
  shows "mulDiv 1000000 BUY_DEV_FEE_BPS 10000 = Inr 500
    \<and> mulDiv 1000000 BUY_RESERVE_FEE_BPS 10000 = Inr 1000
    \<and> mulDiv 1000000 BUY_REFLECTION_FEE_BPS 10000 = Inr 1000
    \<and> (\<exists>s'. buy c e s buyer amount = Inr s'
          \<and> tokensSold s' = 1000000
          \<and> balances s' buyer = 997500
          \<and> balances s' (devAddress s) = 500
          \<and> usdcReserves s' = 1000000
          \<and> balances s' (this c) = balances s (this c) - 998000
          \<and> magnifiedDividendPerShare s' = magnifiedDividendPerShare s
          \<and> totalDividendsDistributed s' = totalDividendsDistributed s)"
proof -
  define sb where "sb = s\<lparr>entered := True\<rparr>\<lparr>usdcReserves := 1000000,
      backingHeld := backingHeld (s\<lparr>entered := True\<rparr>) + amount\<rparr>"
  define s1 where "s1 = sb\<lparr>tokensSold := tokensSold sb + 1000000,
      lastDividendPerShare :=
        (if isContract e buyer then lastDividendPerShare sb
         else (lastDividendPerShare sb)(buyer := magnifiedDividendPerShare sb)),
      balances := (balances sb)(this c := TOTAL_SUPPLY - 998000, devAddress sb := 500,
                               buyer := 997500)\<rparr>"
  have i: "buy_internal c e sb buyer 1000000 = Inr s1"
    unfolding s1_def
    by (rule buy_internal_first) (use assms in \<open>simp_all add: sb_def TOTAL_SUPPLY_value\<close>)
  have b: "buy_body c e (s\<lparr>entered := True\<rparr>) buyer amount = Inr s1"
    by (rule buy_body_first) (use assms i in \<open>simp_all add: sb_def\<close>)
  have "buy c e s buyer amount = Inr (s1\<lparr>entered := False\<rparr>)"
    unfolding buy_def using assms(1) b by (rule nonReentrant_eval)
  moreover have "mulDiv 1000000 BUY_DEV_FEE_BPS 10000 = Inr 500"
    "mulDiv 1000000 BUY_RESERVE_FEE_BPS 10000 = Inr 1000"
    "mulDiv 1000000 BUY_REFLECTION_FEE_BPS 10000 = Inr 1000"
    by (simp_all add: mulDiv_eval BUY_DEV_FEE_BPS_def BUY_RESERVE_FEE_BPS_def
        BUY_REFLECTION_FEE_BPS_def UINT_LIMIT_def)
  ultimately show ?thesis
    using assms by (simp add: s1_def sb_def)
qed


text \<open>The first buy on the constructor's storage, by address 5 with \<open>10 ^ 18\<close> wei.\<close>

theorem first_buy_witness:
  "\<exists>s'. buy c0 wallets st0 5 1000000000000000000 = Inr s'
     \<and> tokensSold s' = 1000000 \<and> balances s' 5 = 997500 \<and> balances s' 2 = 500
     \<and> usdcReserves s' = 1000000 \<and> balances s' 100 = 99999999999002000
     \<and> magnifiedDividendPerShare s' = 0 \<and> totalDividendsDistributed s' = 0"
proof -
  have "deposited c0 1000000000000000000 = 1000000"
    by (simp add: deposited_def unit_def c0_fields)
  with first_buy[of st0 c0 1000000000000000000 wallets 5] show ?thesis
    by (simp add: st0_fields c0_fields TOTAL_SUPPLY_value)
qed

text \<open>
  Claim C3 as stated fails there: the contract's balance falls by 998,000, not by
  1,000,000, and the accumulator does not grow by
  \<open>1000 * MAGNITUDE div circulatingOutsideContractAfterBuy\<close>, which is not zero.
\<close>

theorem first_buy_counterexample:
  "\<exists>s'. buy c0 wallets st0 5 1000000000000000000 = Inr s'
     \<and> spec_circulatingOutside c0 s' = 998000
     \<and> balances s' (this c0) \<noteq> balances st0 (this c0) - 1000000
     \<and> magnifiedDividendPerShare s' \<noteq>
         magnifiedDividendPerShare st0 + 1000 * MAGNITUDE div spec_circulatingOutside c0 s'"
proof -
  have "buy c0 wallets st0 5 1000000000000000000 = Inr st1"
    using run_buy by simp
  moreover have "spec_circulatingOutside c0 st1 = 998000"
    by (simp add: spec_circulatingOutside_def st1_fields c0_fields TOTAL_SUPPLY_value)
  moreover have "balances st1 (this c0) \<noteq> balances st0 (this c0) - 1000000"
    by (simp add: st1_fields st0_fields c0_fields)
  moreover have "magnifiedDividendPerShare st1 \<noteq>
      magnifiedDividendPerShare st0 + 1000 * MAGNITUDE div 998000"
    by (simp add: st1_fields st0_fields MAGNITUDE_def)
  ultimately show ?thesis
    by auto
qed

section \<open>Rejected calls\<close>

lemma not_Inr_is_Inl: "(\<And>x. r \<noteq> Inr x) \<Longrightarrow> \<exists>err. r = Inl err"
  by (cases r) auto

lemma commit_Inl: "r = Inl err \<Longrightarrow> commit s r = s"
  by (simp add: commit_def)

lemma buy_below_minimum:
  assumes "deposited c amount < MINIMUM_PURCHASE_USDC"
  shows "\<exists>err. buy c e s sender amount = Inl err"
  using assms
  by (auto simp: buy_def nonReentrant_def buy_body_def deposited_def unit_def Let_def
      split: if_splits)

lemma handleRefund_minimum:
  "handleRefund c e s sender amount = Inr s' \<Longrightarrow> MINIMUM_PURCHASE_USDC \<le> amount"
  by (auto simp: handleRefund_def nonReentrant_def refund_body_def res_simps split: if_splits)

lemma update_internal_minimum:
  "update_internal c e s from (this c) amount = Inr s' \<Longrightarrow> MINIMUM_PURCHASE_USDC \<le> amount"
  by (auto simp: update_internal_def res_simps split: if_splits dest: handleRefund_minimum)

lemma transfer_internal_minimum:
  "transfer_internal c e s from (this c) amount = Inr s' \<Longrightarrow> MINIMUM_PURCHASE_USDC \<le> amount"
  by (auto simp: transfer_internal_def res_simps split: if_splits
      dest: update_internal_minimum)

lemma refund_below_minimum:
  assumes "amount < MINIMUM_PURCHASE_USDC"
  shows "\<exists>err. transfer c e s sender (this c) amount = Inl err"
    and "\<exists>err. transferFrom c e s spender from (this c) amount = Inl err"
proof -
  have "transfer c e s sender (this c) amount \<noteq> Inr x" for x
    using assms transfer_internal_minimum[of c e s sender amount x]
    by (auto simp: transfer_def)
  then show "\<exists>err. transfer c e s sender (this c) amount = Inl err"
    by (rule not_Inr_is_Inl)
  have "transferFrom c e s spender from (this c) amount \<noteq> Inr x" for x
    using assms
    by (auto simp: transferFrom_def res_simps split: if_splits
        dest!: transfer_internal_minimum)
  then show "\<exists>err. transferFrom c e s spender from (this c) amount = Inl err"
    by (rule not_Inr_is_Inl)
qed

lemma mulDiv_total:
  assumes "d \<noteq> 0" and "x * y div d < UINT_LIMIT"
  shows "mulDiv x y d = Inr (x * y div d)"
proof (cases "x * y < UINT_LIMIT")
  case True
  with assms(1) show ?thesis
    by (simp add: mulDiv_def)
next
  case False
  from assms have "x * y < UINT_LIMIT * d"
    by (simp add: div_less_iff_less_mult)
  then have "x * y div UINT_LIMIT < d"
    by (simp add: div_less_iff_less_mult UINT_LIMIT_def mult.commute)
  with False assms(1) show ?thesis
    by (simp add: mulDiv_def)
qed

lemma refundQuote_guard:
  assumes "totalBurned s + balances s (this c) \<le> TOTAL_SUPPLY"
    and "0 < spec_currentCirculatingSupply c s gross"
    and "spec_currentCirculatingSupply c s gross < UINT_LIMIT"
    and "usdcReserves s * 999 < UINT_LIMIT"
    and "spec_payout c s gross forRefund < UINT_LIMIT"
    and "usdcReserves s < spec_payout c s gross forRefund"
  shows "refundQuote c s gross forRefund = Inl InsufficientUSDC"
proof -
  define circulating where "circulating = spec_currentCirculatingSupply c s gross"
  have 1: "csub TOTAL_SUPPLY (totalBurned s) = Inr (TOTAL_SUPPLY - totalBurned s)"
    using assms(1) by (simp add: csub_def)
  have 2: "csub (TOTAL_SUPPLY - totalBurned s) (balances s (this c))
      = Inr (TOTAL_SUPPLY - totalBurned s - balances s (this c))"
    using assms(1) by (simp add: csub_def)
  have 3: "cadd (TOTAL_SUPPLY - totalBurned s - balances s (this c)) gross = Inr circulating"
    using assms(3) by (simp add: cadd_def circulating_def spec_currentCirculatingSupply_def)
  have 4: "cmul (usdcReserves s) EFFECTIVE_BACKING_NUMERATOR = Inr (usdcReserves s * 999)"
    using assms(4) by (simp add: cmul_def EFFECTIVE_BACKING_NUMERATOR_def)
  have 5: "cdiv (usdcReserves s * 999) EFFECTIVE_BACKING_DENOMINATOR
      = Inr (spec_effectiveBacking s)"
    by (simp add: cdiv_def EFFECTIVE_BACKING_DENOMINATOR_def spec_effectiveBacking_def)
  have 6: "mulDiv forRefund (spec_effectiveBacking s) circulating
      = Inr (spec_payout c s gross forRefund)"
    unfolding spec_payout_def circulating_def
    using assms(2,5) by (intro mulDiv_total) (simp_all add: spec_payout_def)
  have 7: "circulating \<noteq> 0"
    using assms(2) by (simp add: circulating_def)
  show ?thesis
    unfolding refundQuote_def
    by (simp only: 1 2 3 4 5 6 7 assms(6) rbind_Inr if_False if_True)
qed


text \<open>
  On the refund path the tokens for refund are at most the gross amount, which is at
  most the circulating supply of line 567; the payout is then at most the effective
  backing, and the rejection of line 578 is never taken.
\<close>

lemma refundQuote_never_short:
  assumes "forRefund \<le> gross"
  shows "refundQuote c s gross forRefund \<noteq> Inl InsufficientUSDC"
proof
  assume r: "refundQuote c s gross forRefund = Inl InsufficientUSDC"
  define circulating where "circulating = TOTAL_SUPPLY - totalBurned s - balances s (this c) + gross"
  define effective where "effective = usdcReserves s * 999 div 1000"
  from r have q: "usdcReserves s < forRefund * effective div circulating"
    unfolding refundQuote_def circulating_def effective_def
    by (auto simp: rbind_def csub_def cadd_def cmul_def cdiv_def mulDiv_def
        EFFECTIVE_BACKING_NUMERATOR_def EFFECTIVE_BACKING_DENOMINATOR_def
        split: if_splits sum.splits)
  have "forRefund \<le> circulating"
    using assms by (simp add: circulating_def)
  then have "forRefund * effective div circulating \<le> circulating * effective div circulating"
    by (intro div_le_mono mult_le_mono1)
  also have "\<dots> \<le> effective"
    by (cases "circulating = 0") simp_all
  also have "\<dots> \<le> usdcReserves s"
    by (simp add: effective_def)
  finally show False
    using q by simp
qed

text \<open>
  Claim C6. Every rejected call leaves the storage as it was. A buy whose deposit is
  strictly below the minimum of 0.1 unit (100000) is rejected, and so is a refund (a
  transfer to the contract's own address) of an amount strictly below it. The block
  that computes the payout of a refund rejects with \<^verbatim>\<open>InsufficientUSDC\<close> when the
  payout exceeds the reserve, so that the refund around it is rejected; no refund
  returns with a payout above the reserve.
\<close>

theorem rejections_change_nothing:
  "(exec c e call s = Inl err \<longrightarrow> commit s (exec c e call s) = s)
   \<and> (deposited c amount < MINIMUM_PURCHASE_USDC
        \<longrightarrow> (\<exists>err. buy c e s sender amount = Inl err)
            \<and> commit s (buy c e s sender amount) = s)
   \<and> (amount < MINIMUM_PURCHASE_USDC
        \<longrightarrow> (\<exists>err. transfer c e s sender (this c) amount = Inl err)
            \<and> commit s (transfer c e s sender (this c) amount) = s
            \<and> (\<exists>err. transferFrom c e s spender holder (this c) amount = Inl err)
            \<and> commit s (transferFrom c e s spender holder (this c) amount) = s)
   \<and> (totalBurned s + balances s (this c) \<le> TOTAL_SUPPLY
        \<and> 0 < spec_currentCirculatingSupply c s gross
        \<and> spec_currentCirculatingSupply c s gross < UINT_LIMIT
        \<and> usdcReserves s * 999 < UINT_LIMIT
        \<and> spec_payout c s gross forRefund < UINT_LIMIT
        \<and> usdcReserves s < spec_payout c s gross forRefund
        \<longrightarrow> refundQuote c s gross forRefund = Inl InsufficientUSDC
            \<and> commit s (rbind (refundQuote c s gross forRefund) (\<lambda>q. Inr s')) = s)
   \<and> (handleRefund c e s sender gross = Inr s' \<and> gross < UINT_LIMIT
        \<longrightarrow> spec_payout c s gross (tokensForRefund (spec_refundSplit (totalBurned s) gross))
            \<le> usdcReserves s)"
proof (intro conjI impI)
  assume "exec c e call s = Inl err"
  then show "commit s (exec c e call s) = s"
    by (rule commit_Inl)
next
  assume "deposited c amount < MINIMUM_PURCHASE_USDC"
  then obtain err where "buy c e s sender amount = Inl err"
    using buy_below_minimum by blast
  then show "\<exists>err. buy c e s sender amount = Inl err" "commit s (buy c e s sender amount) = s"
    by (simp_all add: commit_def)
next
  assume a: "amount < MINIMUM_PURCHASE_USDC"
  then obtain err where "transfer c e s sender (this c) amount = Inl err"
    using refund_below_minimum(1) by blast
  then show "\<exists>err. transfer c e s sender (this c) amount = Inl err"
    "commit s (transfer c e s sender (this c) amount) = s"
    by (simp_all add: commit_def)
  from a obtain err where "transferFrom c e s spender holder (this c) amount = Inl err"
    using refund_below_minimum(2) by blast
  then show "\<exists>err. transferFrom c e s spender holder (this c) amount = Inl err"
    "commit s (transferFrom c e s spender holder (this c) amount) = s"
    by (simp_all add: commit_def)
next
  assume "totalBurned s + balances s (this c) \<le> TOTAL_SUPPLY
        \<and> 0 < spec_currentCirculatingSupply c s gross
        \<and> spec_currentCirculatingSupply c s gross < UINT_LIMIT
        \<and> usdcReserves s * 999 < UINT_LIMIT
        \<and> spec_payout c s gross forRefund < UINT_LIMIT
        \<and> usdcReserves s < spec_payout c s gross forRefund"
  then have "refundQuote c s gross forRefund = Inl InsufficientUSDC"
    using refundQuote_guard by blast
  then show "refundQuote c s gross forRefund = Inl InsufficientUSDC"
    "commit s (rbind (refundQuote c s gross forRefund) (\<lambda>q. Inr s')) = s"
    by (simp_all add: commit_def)
next
  assume "handleRefund c e s sender gross = Inr s' \<and> gross < UINT_LIMIT"
  then show "spec_payout c s gross (tokensForRefund (spec_refundSplit (totalBurned s) gross))
      \<le> usdcReserves s"
    using refund_body_spec[of c e "s\<lparr>entered := True\<rparr>" sender gross]
    by (auto simp: handleRefund_def nonReentrant_def res_simps spec_payout_def
        spec_effectiveBacking_def spec_currentCirculatingSupply_def split: if_splits)
qed


lemma run_dust_buy: "exec c0 wallets (Buy 5 1) st0 = Inl InsufficientUSDC"
  by (simp add: buy_def nonReentrant_def buy_body_def st0_fields c0_fields
      MINIMUM_PURCHASE_USDC_def)

text \<open>
  A buy with 1 wei and one with \<open>10 ^ 17 - 1\<close> wei (99999 units), a refund of 99999
  tokens, the payout block asked for 1,000,000,000 tokens on a reserve of 1,000,000,
  and the refund that returns on \<open>nearLimit\<close>.
\<close>

theorem rejections_change_nothing_witness:
  "exec c0 wallets (Buy 5 1) st0 = Inl InsufficientUSDC
   \<and> commit st0 (exec c0 wallets (Buy 5 1) st0) = st0
   \<and> deposited c0 99999999999999999 = 99999
   \<and> (\<exists>err. buy c0 wallets st0 5 99999999999999999 = Inl err)
   \<and> commit st0 (buy c0 wallets st0 5 99999999999999999) = st0
   \<and> (\<exists>err. transfer c0 wallets st1 5 (this c0) 99999 = Inl err)
   \<and> commit st1 (transfer c0 wallets st1 5 (this c0) 99999) = st1
   \<and> spec_payout c0 st1 1000000 1000000000 = 500000000
   \<and> usdcReserves st1 = 1000000
   \<and> refundQuote c0 st1 1000000 1000000000 = Inl InsufficientUSDC
   \<and> (\<exists>s'. handleRefund c0 wallets nearLimit 5 100000000 = Inr s')
   \<and> spec_payout c0 nearLimit 100000000
        (tokensForRefund (spec_refundSplit (totalBurned nearLimit) 100000000))
       \<le> usdcReserves nearLimit"
proof -
  have 1: "commit st0 (exec c0 wallets (Buy 5 1) st0) = st0"
    using rejections_change_nothing[where c = c0 and e = wallets and call = "Buy 5 1" and s = st0
        and err = InsufficientUSDC] run_dust_buy
    by blast
  have d: "deposited c0 99999999999999999 = 99999"
    by (simp add: deposited_def unit_def c0_fields)
  have 2: "(\<exists>err. buy c0 wallets st0 5 99999999999999999 = Inl err)
      \<and> commit st0 (buy c0 wallets st0 5 99999999999999999) = st0"
    using rejections_change_nothing[where c = c0 and e = wallets and s = st0 and sender = 5
        and amount = 99999999999999999] d
    by (simp add: MINIMUM_PURCHASE_USDC_def)
  have 3: "(\<exists>err. transfer c0 wallets st1 5 (this c0) 99999 = Inl err)
      \<and> commit st1 (transfer c0 wallets st1 5 (this c0) 99999) = st1"
    using rejections_change_nothing[where c = c0 and e = wallets and s = st1 and sender = 5 and amount = 99999]
    by (simp add: MINIMUM_PURCHASE_USDC_def)
  have v: "spec_currentCirculatingSupply c0 st1 1000000 = 1998000"
    "spec_payout c0 st1 1000000 1000000000 = 500000000"
    by (simp_all add: spec_payout_def spec_effectiveBacking_def
        spec_currentCirculatingSupply_def st1_fields c0_fields TOTAL_SUPPLY_value)
  have 4: "refundQuote c0 st1 1000000 1000000000 = Inl InsufficientUSDC"
    using rejections_change_nothing[where c = c0 and s = st1 and gross = 1000000 and forRefund = 1000000000] v
    by (simp add: st1_fields c0_fields TOTAL_SUPPLY_value UINT_LIMIT_def)
  from run_refund obtain s' where r: "handleRefund c0 wallets nearLimit 5 100000000 = Inr s'"
    by blast
  have 5: "spec_payout c0 nearLimit 100000000
        (tokensForRefund (spec_refundSplit (totalBurned nearLimit) 100000000))
       \<le> usdcReserves nearLimit"
    using rejections_change_nothing[where c = c0 and e = wallets and s = nearLimit and sender = 5
        and gross = 100000000 and s' = s'] r
    by (simp add: UINT_LIMIT_def)
  from run_dust_buy 1 d 2 3 v(2) 4 r 5 show ?thesis
    by (auto simp: st1_fields)
qed

section \<open>The writers of the reserve\<close>

lemma same_backing_update [simp]:
  "same_backing (s\<lparr>tokensSold := n\<rparr>) t = same_backing s t"
  "same_backing (s\<lparr>lastDividendPerShare := l\<rparr>) t = same_backing s t"
  "same_backing (s\<lparr>accumulatedDividends := a\<rparr>) t = same_backing s t"
  "same_backing (s\<lparr>entered := b\<rparr>) t = same_backing s t"
  "same_backing s (t\<lparr>entered := b\<rparr>) = same_backing s t"
  "same_backing s (t\<lparr>tokensSold := n\<rparr>) = same_backing s t"
  "same_backing s (t\<lparr>lastDividendPerShare := l\<rparr>) = same_backing s t"
  "same_backing s (t\<lparr>accumulatedDividends := a\<rparr>) = same_backing s t"
  by (simp_all add: same_backing_def)

lemma buy_internal_backing:
  "buy_internal c e s buyer usdcAmount = Inr s' \<Longrightarrow> same_backing s s'"
  unfolding buy_internal_def
  by (auto simp: res_simps Let_def split: if_splits
      dest!: accrueExisting_backing distributeDividends_backing ERC20_transfer_backing)
     (blast intro: same_backing_trans)+

lemma buy_reserve:
  assumes "buy c e s sender amount = Inr s'"
  shows "usdcReserves s' = usdcReserves s + deposited c amount
    \<and> backingHeld s' = backingHeld s + amount"
proof -
  from assms obtain s1 where b: "buy_body c e (s\<lparr>entered := True\<rparr>) sender amount = Inr s1"
    and s': "s' = s1\<lparr>entered := False\<rparr>"
    by (auto simp: buy_def nonReentrant_def res_simps split: if_splits)
  from b show ?thesis
    by (auto simp: buy_body_def res_simps Let_def deposited_def unit_def s' same_backing_def
        split: if_splits dest!: buy_internal_backing)
qed

lemma handleTaxedTransfer_backing:
  "handleTaxedTransfer c e s from to amount = Inr s' \<Longrightarrow> same_backing s s'"
  unfolding handleTaxedTransfer_def
  by (auto simp: res_simps Let_def split: if_splits
      dest!: contractAndPair_backing ERC20_transfer_backing distributeDividends_backing
        transferIfNonzero_backing)
     (blast intro: same_backing_trans)+

lemma claim_body_backing: "claim_body c e s user = Inr s' \<Longrightarrow> same_backing s s'"
  unfolding claim_body_def
  by (auto simp: res_simps Let_def split: if_splits
      dest!: accumulateNewDividends_backing ERC20_transfer_backing
      intro: same_backing_trans)

lemma claimDividends_backing: "claimDividends c e s user = Inr s' \<Longrightarrow> same_backing s s'"
  by (auto simp: claimDividends_def nonReentrant_def res_simps split: if_splits
      dest!: claim_body_backing)

lemma approve_internal_backing:
  "approve_internal s holder spender amount = Inr s' \<Longrightarrow> same_backing s s'"
  by (auto simp: approve_internal_def same_backing_def split: if_splits)

lemma pays_out_after: "same_backing s t \<Longrightarrow> pays_out c t u \<Longrightarrow> pays_out c s u"
  by (simp add: same_backing_def pays_out_def)

lemma refund_body_pays_out:
  assumes "refund_body c e s sender gross = Inr s'"
  shows "pays_out c s s'"
proof -
  from assms obtain a and f :: refund_split and q b1 b2 b3 where
    1: "accrueSender e s sender = Inr a"
    and 4: "transferIfNonzero a (this c) (devAddress a) (devFeeTokens f) = Inr b1"
    and 5: "boundedBurn c b1 (totalBurned a) (burnFeeTokens f) = Inr b2"
    and 6: "distributeDividends c b2 (reflectionFeeTokens f) = Inr b3"
    and 7: "sendBacking c e b3 sender q = Inr s'"
    unfolding refund_body_def by (auto simp: res_simps split: if_splits)
  have "same_backing s a" using 1 by (rule accrueSender_backing)
  moreover have "same_backing a b1" using 4 by (rule transferIfNonzero_backing)
  moreover have "same_backing b1 b2" using 5 by (rule boundedBurn_backing)
  moreover have "same_backing b2 b3" using 6 by (rule distributeDividends_backing)
  ultimately have "same_backing s b3"
    by (blast intro: same_backing_trans)
  moreover have "pays_out c b3 s'"
    using sendBacking_spec[OF 7] by (auto simp: pays_out_def)
  ultimately show ?thesis
    by (rule pays_out_after)
qed

lemma handleRefund_pays_out:
  assumes "handleRefund c e s sender gross = Inr s'"
  shows "pays_out c s s'"
proof -
  from assms obtain s1 where
    b: "refund_body c e (s\<lparr>entered := True\<rparr>) sender gross = Inr s1"
    and s': "s' = s1\<lparr>entered := False\<rparr>"
    by (auto simp: handleRefund_def nonReentrant_def res_simps split: if_splits)
  from refund_body_pays_out[OF b] show ?thesis
    by (simp add: pays_out_def s')
qed

lemma update_internal_reserve:
  assumes "update_internal c e s from to amount = Inr s'"
  shows "if to = this c then pays_out c s s' else same_backing s s'"
  using assms
  by (auto simp: update_internal_def res_simps split: if_splits
      dest!: ERC20_transfer_backing handleRefund_pays_out handleTaxedTransfer_backing
      intro: pays_out_after)

lemma tracking_backing:
  "(if b then updateUserDividendTracking e s u else Inr s) = Inr s1 \<Longrightarrow> same_backing s s1"
  by (auto split: if_splits dest: updateUserDividendTracking_backing)

lemma transfer_internal_reserve:
  assumes "transfer_internal c e s from to amount = Inr s'"
  shows "if to = this c then pays_out c s s' else same_backing s s'"
proof -
  from assms obtain s1 s2 where
    1: "(if from \<noteq> 0 \<and> \<not> isContract e from then updateUserDividendTracking e s from
         else Inr s) = Inr s1"
    and 2: "(if to \<noteq> 0 \<and> \<not> isContract e to then updateUserDividendTracking e s1 to
         else Inr s1) = Inr s2"
    and u: "update_internal c e s2 from to amount = Inr s'"
    unfolding transfer_internal_def by (auto simp: res_simps)
  have t: "same_backing s s2"
    using tracking_backing[OF 1] tracking_backing[OF 2] by (rule same_backing_trans)
  from update_internal_reserve[OF u] t show ?thesis
    by (auto intro: pays_out_after same_backing_trans split: if_splits)
qed

lemma spending_backing:
  "(if allowances s from spender = UINT_LIMIT - 1 then Inr s
    else if allowances s from spender < amount
      then Inl (Require ''ERC20: insufficient allowance'')
    else approve_internal s from spender (allowances s from spender - amount)) = Inr s1
   \<Longrightarrow> same_backing s s1"
  by (auto split: if_splits dest: approve_internal_backing)

lemma transferFrom_reserve:
  assumes "transferFrom c e s spender from to amount = Inr s'"
  shows "if to = this c then pays_out c s s' else same_backing s s'"
proof -
  from assms obtain s1 where
    1: "(if allowances s from spender = UINT_LIMIT - 1 then Inr s
         else if allowances s from spender < amount
           then Inl (Require ''ERC20: insufficient allowance'')
         else approve_internal s from spender (allowances s from spender - amount)) = Inr s1"
    and u: "transfer_internal c e s1 from to amount = Inr s'"
    unfolding transferFrom_def by (auto simp: res_simps)
  from transfer_internal_reserve[OF u] spending_backing[OF 1] show ?thesis
    by (auto intro: pays_out_after same_backing_trans split: if_splits)
qed

lemma exec_reserve:
  assumes "exec c e call s = Inr s'"
  shows "if is_buy call then usdcReserves s' = usdcReserves s + deposited c (case call of Buy sender amount \<Rightarrow> amount | _ \<Rightarrow> 0)
         else if is_refund c call then pays_out c s s'
         else same_backing s s'"
proof (cases call)
  case (Buy sender amount)
  with assms show ?thesis by (simp add: buy_reserve)
next
  case (Transfer sender dst amount)
  with assms show ?thesis
    using transfer_internal_reserve[of c e s sender dst amount s'] by (simp add: transfer_def)
next
  case (TransferFrom spender src dst amount)
  with assms show ?thesis
    using transferFrom_reserve[of c e s spender src dst amount s'] by simp
next
  case (Approve sender spender amount)
  with assms show ?thesis by (simp add: approve_internal_backing)
next
  case (IncreaseAllowance sender spender amount)
  with assms show ?thesis
    by (auto simp: increaseAllowance_def res_simps dest: approve_internal_backing)
next
  case (DecreaseAllowance sender spender amount)
  with assms show ?thesis
    by (auto simp: decreaseAllowance_def split: if_splits dest: approve_internal_backing)
next
  case (ClaimDividends sender)
  with assms show ?thesis by (simp add: claimDividends_backing)
next
  case (SetDevAddress sender newDev)
  with assms show ?thesis
    by (auto simp: setDevAddress_def onlyOwner_def same_backing_def Let_def split: if_splits)
next
  case (ExcludeFromFee sender account b)
  with assms show ?thesis
    by (auto simp: excludeFromFee_def onlyOwner_def same_backing_def split: if_splits)
next
  case (TransferOwnership sender newOwner)
  with assms show ?thesis by (auto simp: onlyOwner_def same_backing_def split: if_splits)
next
  case (AcceptOwnership sender)
  with assms show ?thesis by (auto simp: same_backing_def split: if_splits)
next
  case (RenounceOwnership sender)
  with assms show ?thesis by (auto simp: onlyOwner_def same_backing_def split: if_splits)
qed


lemma ERC20_transfer_out:
  assumes "ERC20_transfer s from to amount = Inr s'" and "to \<noteq> from"
  shows "amount \<le> balances s from \<and> balances s' from = balances s from - amount
    \<and> devAddress s' = devAddress s"
  using assms by (auto simp: ERC20_transfer_def Let_def split: if_splits)

lemma ERC20_transfer_in:
  assumes "ERC20_transfer s from to amount = Inr s'" and "to \<noteq> from"
    and "balances s to + amount < UINT_LIMIT"
  shows "balances s' to = balances s to + amount \<and> devAddress s' = devAddress s"
  using assms by (auto simp: ERC20_transfer_def Let_def uadd_eval split: if_splits)

lemma transferIfNonzero_out:
  assumes "transferIfNonzero s from to amount = Inr s'" and "to \<noteq> from"
  shows "amount \<le> balances s from \<and> balances s' from = balances s from - amount
    \<and> devAddress s' = devAddress s"
  using assms
  by (auto simp: transferIfNonzero_def split: if_splits dest: ERC20_transfer_out)

lemma distributeDividends_ledger:
  "distributeDividends c s amount = Inr s' \<Longrightarrow>
     balances s' = balances s \<and> devAddress s' = devAddress s"
  by (auto simp: distributeDividends_def res_simps split: if_splits)

lemma updateUserDividendTracking_ledger:
  "updateUserDividendTracking e s u = Inr s' \<Longrightarrow>
     balances s' = balances s \<and> devAddress s' = devAddress s
     \<and> isExcludedFromFee s' = isExcludedFromFee s"
  by (auto simp: updateUserDividendTracking_def accumulateNewDividends_def res_simps Let_def
      split: if_splits)

lemma contractAndPair_wallet:
  "\<not> isContract e a \<Longrightarrow> contractAndPair c e s a = Inr (False, s, snd (isContract_run e a))"
  by (simp add: contractAndPair_def)

lemma transfer_fee_sum: "amount div 2000 + amount div 1000 + amount div 1000 \<le> (amount::nat)"
  by arith

lemma transfer_fee_norm: "amount * 10 div 10000 = (amount::nat) div 1000"
  by arith

lemma handleTaxedTransfer_retains:
  assumes h: "handleTaxedTransfer c e s src dst amount = Inr s'"
    and w: "\<not> isContract e src" "\<not> isContract e dst"
    and ne: "src \<noteq> this c" "dst \<noteq> this c" "devAddress s \<noteq> this c"
    and fit: "amount < UINT_LIMIT" "balances s (this c) + amount < UINT_LIMIT"
  shows "balances s' (this c) =
    balances s (this c) + amount * 10 div 10000 + amount * 10 div 10000"
proof -
  define devFee where "devFee = amount div 2000"
  define fee where "fee = amount div 1000"
  define net where "net = amount - devFee - fee - fee"
  have sum: "devFee + fee + fee \<le> amount"
    using transfer_fee_sum[of amount] by (simp add: devFee_def fee_def)
  have u: "usub (usub (usub amount devFee) fee) fee = net"
  proof -
    from sum fit(1) have "usub amount devFee = amount - devFee"
      by (intro usub_eval) simp_all
    moreover from sum fit(1) have "usub (amount - devFee) fee = amount - devFee - fee"
      by (intro usub_eval) simp_all
    moreover from sum fit(1) have "usub (amount - devFee - fee) fee = net"
      unfolding net_def by (intro usub_eval) simp_all
    ultimately show ?thesis by simp
  qed
  from h obtain s1 s2 s3 where
    1: "ERC20_transfer s src (this c) amount = Inr s1"
    and 2: "distributeDividends c s1 (amount div 1000) = Inr s2"
    and 3: "transferIfNonzero s2 (this c) dst
       (usub (usub (usub amount (amount div 2000)) (amount div 1000)) (amount div 1000)) = Inr s3"
    and 4: "transferIfNonzero s3 (this c) (devAddress s3) (amount div 2000) = Inr s'"
    unfolding handleTaxedTransfer_def
    by (auto simp: contractAndPair_wallet w res_simps Let_def TRANSFER_DEV_FEE_BPS_def
        TRANSFER_REFLECTION_FEE_BPS_def TRANSFER_RESERVE_FEE_BPS_def
        split: if_splits dest!: mulDiv_eq_Inr)
  have 3: "transferIfNonzero s2 (this c) dst net = Inr s3"
    using 3 u by (simp add: devFee_def fee_def)
  have 4: "transferIfNonzero s3 (this c) (devAddress s3) devFee = Inr s'"
    using 4 by (simp add: devFee_def)
  have a: "balances s1 (this c) = balances s (this c) + amount" "devAddress s1 = devAddress s"
    using ERC20_transfer_in[OF 1] ne(1) fit(2) by simp_all
  have b: "balances s2 (this c) = balances s (this c) + amount" "devAddress s2 = devAddress s"
    using distributeDividends_ledger[OF 2] a by simp_all
  have c3: "balances s3 (this c) = balances s (this c) + amount - net"
    "devAddress s3 = devAddress s"
    using transferIfNonzero_out[OF 3] ne(2) b by simp_all
  have d: "devFee \<le> balances s3 (this c)"
    "balances s' (this c) = balances s (this c) + amount - net - devFee"
    using transferIfNonzero_out[OF 4] ne(3) c3 by simp_all
  from d(2) sum show ?thesis
    by (simp add: net_def fee_def devFee_def transfer_fee_norm)
qed

lemma transfer_retains:
  assumes h: "transfer c e s src dst amount = Inr s'"
    and w: "\<not> isContract e src" "\<not> isContract e dst"
    and x: "\<not> isExcludedFromFee s src" "\<not> isExcludedFromFee s dst"
    and ne: "src \<noteq> this c" "dst \<noteq> this c" "devAddress s \<noteq> this c"
    and fit: "amount < UINT_LIMIT" "balances s (this c) + amount < UINT_LIMIT"
  shows "balances s' (this c) =
    balances s (this c) + amount * 10 div 10000 + amount * 10 div 10000"
proof -
  from h obtain s1 s2 where
    1: "(if src \<noteq> 0 \<and> \<not> isContract e src then updateUserDividendTracking e s src
         else Inr s) = Inr s1"
    and 2: "(if dst \<noteq> 0 \<and> \<not> isContract e dst then updateUserDividendTracking e s1 dst
         else Inr s1) = Inr s2"
    and 3: "update_internal c e s2 src dst amount = Inr s'"
    unfolding transfer_def transfer_internal_def by (auto simp: res_simps)
  have a: "balances s1 = balances s \<and> devAddress s1 = devAddress s
      \<and> isExcludedFromFee s1 = isExcludedFromFee s"
    using 1 by (auto split: if_splits dest: updateUserDividendTracking_ledger)
  have b: "balances s2 = balances s1 \<and> devAddress s2 = devAddress s1
      \<and> isExcludedFromFee s2 = isExcludedFromFee s1"
    using 2 by (auto split: if_splits dest: updateUserDividendTracking_ledger)
  from 3 have "handleTaxedTransfer c e s2 src dst amount = Inr s'"
    using x ne a b by (auto simp: update_internal_def split: if_splits)
  from handleTaxedTransfer_retains[OF this w ne(1,2)] ne(3) fit a b show ?thesis
    by simp
qed

lemma holding_fields:
  "magnifiedDividendPerShare holding = 0" "lastDividendPerShare holding a = 0"
  "balances holding a = (if a = 100 then 69999999900000000
                         else if a = 5 then 100000000 else 0)"
  by (simp_all add: holding_def nearLimit_fields)

lemma run_refund_call: "\<exists>s'. exec c0 wallets (Transfer 5 100 100000000) holding = Inr s'"
proof -
  have same: "holding\<lparr>lastDividendPerShare := (lastDividendPerShare holding)(5 := 0, 100 := 0)\<rparr>
      = holding"
  proof -
    have "(lastDividendPerShare holding)(5 := 0, 100 := 0) = lastDividendPerShare holding"
      by (simp add: fun_eq_iff holding_fields)
    then show ?thesis by simp
  qed
  have "holding\<lparr>balances := (balances holding)(5 := 100000000 - 100000000,
      100 := 69999999900000000 + 100000000)\<rparr> = nearLimit"
    by (simp add: holding_def nearLimit_def fun_eq_iff)
  then have t: "ERC20_transfer holding 5 100 100000000 = Inr nearLimit"
    by (subst ERC20_transfer_eval) (simp_all add: holding_fields UINT_LIMIT_def)
  from run_refund obtain s' where "handleRefund c0 wallets nearLimit 5 100000000 = Inr s'"
    by blast
  then have "exec c0 wallets (Transfer 5 100 100000000) holding = Inr s'"
    by (simp add: transfer_def transfer_internal_def updateUserDividendTracking_def
        update_internal_def c0_fields holding_fields Let_def same t)
  then show ?thesis by blast
qed

lemma st2_fields:
  "magnifiedDividendPerShare st2 = 997 * 2 ^ 128 div 500" "lastDividendPerShare st2 a = 0"
  "accumulatedDividends st2 a = 0" "entered st2 = False"
  "balances st2 a = (if a = 100 then 99999999999003994 else if a = 2 then 998
                     else if a = 6 then 995008 else 0)"
  by (simp_all add: st2_def st1_fields)

lemma run_claim: "exec c0 wallets (ClaimDividends 6) st2 = Inr st3"
proof -
  define s0 where "s0 = st2\<lparr>entered := True\<rparr>"
  have f: "magnifiedDividendPerShare s0 = 678523039640351296145968967218945813643"
    "lastDividendPerShare s0 a = 0" "accumulatedDividends s0 a = 0"
    "balances s0 a = (if a = 100 then 99999999999003994 else if a = 2 then 998
                     else if a = 6 then 995008 else 0)" for a
    by (simp_all add: s0_def st2_fields)
  define s1 where "s1 = s0\<lparr>accumulatedDividends := (accumulatedDividends s0)(6 := 1984045)\<rparr>"
  have 1: "accumulateNewDividends s0 6 995008 678523039640351296145968967218945813643 0 = Inr s1"
    by (simp add: accumulateNewDividends_def csub_def cmul_def cadd_def MAGNITUDE_def
        UINT_LIMIT_def f s1_def)
  define s2 where "s2 = s0\<lparr>lastDividendPerShare := (lastDividendPerShare s0)
        (6 := 678523039640351296145968967218945813643),
      accumulatedDividends := (accumulatedDividends s0)(6 := 0)\<rparr>"
  have g: "balances s2 100 = 99999999999003994" "balances s2 6 = 995008"
    by (simp_all add: s2_def f)
  define s3 where "s3 = s2\<lparr>balances := (balances s2)(100 := balances s2 100 - 1984045,
      6 := balances s2 6 + 1984045)\<rparr>"
  have 2: "ERC20_transfer s2 100 6 1984045 = Inr s3"
    unfolding s3_def by (subst ERC20_transfer_eval) (simp_all add: g UINT_LIMIT_def)
  have "claim_body c0 wallets s0 6 = Inr s3"
    unfolding claim_body_def
    by (simp add: f Let_def 1 s1_def[symmetric] c0_fields)
       (simp add: s1_def f 2[unfolded s2_def])
  then have r: "claimDividends c0 wallets st2 6 = Inr (s3\<lparr>entered := False\<rparr>)"
    unfolding claimDividends_def
    by (intro nonReentrant_eval) (simp_all add: st2_fields s0_def)
  have "s3\<lparr>entered := False\<rparr> = st3"
    by (simp add: s3_def s2_def s0_def st3_def fun_eq_iff st2_fields)
  with r show ?thesis by simp
qed

lemma handleRefund_spec:
  assumes "handleRefund c e s sender gross = Inr s'" and "gross < UINT_LIMIT"
  shows "spec_payout c s gross (tokensForRefund (spec_refundSplit (totalBurned s) gross))
        \<le> usdcReserves s
    \<and> usdcReserves s' = usdcReserves s
        - spec_payout c s gross (tokensForRefund (spec_refundSplit (totalBurned s) gross))
    \<and> spec_payout c s gross (tokensForRefund (spec_refundSplit (totalBurned s) gross)) * unit c
        \<le> backingHeld s
    \<and> backingHeld s' = backingHeld s
        - spec_payout c s gross (tokensForRefund (spec_refundSplit (totalBurned s) gross))
          * unit c"
proof -
  from assms(1) obtain s1 where
    b: "refund_body c e (s\<lparr>entered := True\<rparr>) sender gross = Inr s1"
    and s': "s' = s1\<lparr>entered := False\<rparr>"
    by (auto simp: handleRefund_def nonReentrant_def res_simps split: if_splits)
  have "spec_payout c (s\<lparr>entered := True\<rparr>) gross x = spec_payout c s gross x" for x
    by (simp add: spec_payout_def spec_effectiveBacking_def spec_currentCirculatingSupply_def)
  with refund_body_spec[OF b assms(2)] show ?thesis
    by (simp add: s')
qed

lemma spec_payout_cong:
  "totalBurned u = totalBurned s \<Longrightarrow> balances u (this c) = balances s (this c) \<Longrightarrow>
   usdcReserves u = usdcReserves s \<Longrightarrow> spec_payout c u gross x = spec_payout c s gross x"
  by (simp add: spec_payout_def spec_effectiveBacking_def spec_currentCirculatingSupply_def)

lemma tracking_ledger:
  "(if b then updateUserDividendTracking e s u else Inr s) = Inr s1 \<Longrightarrow>
   totalBurned s1 = totalBurned s \<and> balances s1 = balances s
   \<and> usdcReserves s1 = usdcReserves s \<and> backingHeld s1 = backingHeld s"
  by (auto simp: updateUserDividendTracking_def accumulateNewDividends_def res_simps Let_def
      split: if_splits)

lemma spending_ledger:
  "(if allowances s from spender = UINT_LIMIT - 1 then Inr s
    else if allowances s from spender < amount
      then Inl (Require ''ERC20: insufficient allowance'')
    else approve_internal s from spender (allowances s from spender - amount)) = Inr s1
   \<Longrightarrow> totalBurned s1 = totalBurned s \<and> balances s1 = balances s
   \<and> usdcReserves s1 = usdcReserves s \<and> backingHeld s1 = backingHeld s"
  by (auto simp: approve_internal_def split: if_splits)

lemma ERC20_transfer_ledger:
  "ERC20_transfer s from to amount = Inr s' \<Longrightarrow>
   totalBurned s' = totalBurned s \<and> usdcReserves s' = usdcReserves s
   \<and> backingHeld s' = backingHeld s"
  by (auto simp: ERC20_transfer_def Let_def split: if_splits)

lemma transfer_internal_refund:
  assumes t: "transfer_internal c e s holder (this c) gross = Inr s'"
    and ne: "holder \<noteq> this c"
    and fit: "gross < UINT_LIMIT" "balances s (this c) + gross < UINT_LIMIT"
  shows "spec_refundPayout c s gross \<le> usdcReserves s
    \<and> usdcReserves s' = usdcReserves s - spec_refundPayout c s gross
    \<and> spec_refundPayout c s gross * unit c \<le> backingHeld s
    \<and> backingHeld s' = backingHeld s - spec_refundPayout c s gross * unit c"
proof -
  from t obtain s1 s2 where
    1: "(if holder \<noteq> 0 \<and> \<not> isContract e holder then updateUserDividendTracking e s holder
         else Inr s) = Inr s1"
    and 2: "(if this c \<noteq> 0 \<and> \<not> isContract e (this c)
         then updateUserDividendTracking e s1 (this c) else Inr s1) = Inr s2"
    and u: "update_internal c e s2 holder (this c) gross = Inr s'"
    unfolding transfer_internal_def by (auto simp: res_simps)
  from u obtain s3 where
    3: "ERC20_transfer s2 holder (this c) gross = Inr s3"
    and 4: "handleRefund c e s3 holder gross = Inr s'"
    by (auto simp: update_internal_def res_simps split: if_splits)
  have l2: "totalBurned s2 = totalBurned s" "balances s2 = balances s"
    "usdcReserves s2 = usdcReserves s" "backingHeld s2 = backingHeld s"
    using tracking_ledger[OF 1] tracking_ledger[OF 2] by simp_all
  have l3: "totalBurned s3 = totalBurned s" "usdcReserves s3 = usdcReserves s"
    "backingHeld s3 = backingHeld s"
    "balances s3 (this c) = balances s (this c) + gross"
    using ERC20_transfer_ledger[OF 3] ERC20_transfer_in[OF 3] ne fit(2) l2 by simp_all
  have p: "spec_payout c s3 gross (tokensForRefund (spec_refundSplit (totalBurned s3) gross))
      = spec_refundPayout c s gross"
    unfolding spec_refundPayout_def l3(1)
    by (rule spec_payout_cong) (simp_all add: l3)
  from handleRefund_spec[OF 4 fit(1)] show ?thesis
    unfolding p by (simp add: l3)
qed

lemma transferFrom_refund:
  assumes t: "transferFrom c e s spender holder (this c) gross = Inr s'"
    and ne: "holder \<noteq> this c"
    and fit: "gross < UINT_LIMIT" "balances s (this c) + gross < UINT_LIMIT"
  shows "spec_refundPayout c s gross \<le> usdcReserves s
    \<and> usdcReserves s' = usdcReserves s - spec_refundPayout c s gross
    \<and> spec_refundPayout c s gross * unit c \<le> backingHeld s
    \<and> backingHeld s' = backingHeld s - spec_refundPayout c s gross * unit c"
proof -
  from t obtain s1 where
    1: "(if allowances s holder spender = UINT_LIMIT - 1 then Inr s
         else if allowances s holder spender < gross
           then Inl (Require ''ERC20: insufficient allowance'')
         else approve_internal s holder spender (allowances s holder spender - gross)) = Inr s1"
    and u: "transfer_internal c e s1 holder (this c) gross = Inr s'"
    unfolding transferFrom_def by (auto simp: res_simps)
  have l: "totalBurned s1 = totalBurned s" "balances s1 = balances s"
    "usdcReserves s1 = usdcReserves s" "backingHeld s1 = backingHeld s"
    using spending_ledger[OF 1] by simp_all
  have p: "spec_refundPayout c s1 gross = spec_refundPayout c s gross"
    unfolding spec_refundPayout_def l
    by (rule spec_payout_cong) (simp_all add: l)
  from transfer_internal_refund[OF u ne fit(1)] fit(2) show ?thesis
    by (simp add: l p)
qed

lemma refundPayout_holding: "spec_refundPayout c0 holding 100000000 = 99650249"
  by (simp add: spec_refundPayout_def spec_payout_def spec_effectiveBacking_def
      spec_currentCirculatingSupply_def spec_refundSplit_def holding_def nearLimit_fields
      c0_fields TOTAL_SUPPLY_value BURNING_LIMIT_value)

text \<open>
  Claim C9. \<^verbatim>\<open>usdcReserves\<close> is written by a buy and by a refund only. A buy that
  returns has added the deposit, in the six-decimal unit of the reserve, to it. A
  \<^verbatim>\<open>_handleRefund\<close> that returns has subtracted exactly the payout of section 4.5,
  \<open>tokensForRefund * effectiveBacking div currentCirculatingSupply\<close>, from the reserve, and
  that payout has left the custody; so has every refund call, a \<^verbatim>\<open>transfer\<close> or
  \<^verbatim>\<open>transferFrom\<close> of a holder's tokens to the contract's own address, with the payout
  computed once the tokens have arrived. Every other call that returns, taxed
  transfers and dividend claims among them, leaves the reserve as it was. An ordinary
  taxed transfer between two wallets, neither of them excluded from fees, leaves the
  reserve fee and the reflection fee as tokens in the contract's own balance.
\<close>

theorem reserve_written_by_buy_and_refund_only:
  "(exec c e1 (Buy sender amount) s1 = Inr t1 \<longrightarrow>
      usdcReserves t1 = usdcReserves s1 + deposited c amount)
   \<and> (handleRefund c e2 s2 holder2 gross2 = Inr t2 \<and> gross2 < UINT_LIMIT \<longrightarrow>
      spec_payout c s2 gross2 (tokensForRefund (spec_refundSplit (totalBurned s2) gross2))
        \<le> usdcReserves s2
      \<and> usdcReserves t2 = usdcReserves s2
        - spec_payout c s2 gross2 (tokensForRefund (spec_refundSplit (totalBurned s2) gross2))
      \<and> backingHeld t2 = backingHeld s2
        - spec_payout c s2 gross2 (tokensForRefund (spec_refundSplit (totalBurned s2) gross2))
          * unit c)
   \<and> ((exec c e5 (Transfer holder (this c) gross) s5 = Inr t5
         \<or> exec c e5 (TransferFrom spender holder (this c) gross) s5 = Inr t5)
        \<and> holder \<noteq> this c \<and> gross < UINT_LIMIT
        \<and> balances s5 (this c) + gross < UINT_LIMIT \<longrightarrow>
      spec_refundPayout c s5 gross \<le> usdcReserves s5
      \<and> usdcReserves t5 = usdcReserves s5 - spec_refundPayout c s5 gross
      \<and> backingHeld t5 = backingHeld s5 - spec_refundPayout c s5 gross * unit c)
   \<and> (exec c e3 call3 s3 = Inr t3 \<and> \<not> is_buy call3 \<and> \<not> is_refund c call3 \<longrightarrow>
      usdcReserves t3 = usdcReserves s3)
   \<and> (exec c e4 (Transfer src dst n) s4 = Inr t4
        \<and> \<not> isContract e4 src \<and> \<not> isContract e4 dst
        \<and> \<not> isExcludedFromFee s4 src \<and> \<not> isExcludedFromFee s4 dst
        \<and> src \<noteq> this c \<and> dst \<noteq> this c \<and> devAddress s4 \<noteq> this c
        \<and> n < UINT_LIMIT \<and> balances s4 (this c) + n < UINT_LIMIT \<longrightarrow>
      balances t4 (this c) =
        balances s4 (this c) + n * TRANSFER_RESERVE_FEE_BPS div 10000
          + n * TRANSFER_REFLECTION_FEE_BPS div 10000
      \<and> usdcReserves t4 = usdcReserves s4)"
proof -
  have 1: "usdcReserves t1 = usdcReserves s1 + deposited c amount"
    if "exec c e1 (Buy sender amount) s1 = Inr t1"
    using that buy_reserve[of c e1 s1 sender amount t1] by simp
  have 2: "spec_payout c s2 gross2 (tokensForRefund (spec_refundSplit (totalBurned s2) gross2))
        \<le> usdcReserves s2
      \<and> usdcReserves t2 = usdcReserves s2
        - spec_payout c s2 gross2 (tokensForRefund (spec_refundSplit (totalBurned s2) gross2))
      \<and> backingHeld t2 = backingHeld s2
        - spec_payout c s2 gross2 (tokensForRefund (spec_refundSplit (totalBurned s2) gross2))
          * unit c"
    if "handleRefund c e2 s2 holder2 gross2 = Inr t2 \<and> gross2 < UINT_LIMIT"
    using that handleRefund_spec[of c e2 s2 holder2 gross2 t2] by simp
  have 3: "spec_refundPayout c s5 gross \<le> usdcReserves s5
      \<and> usdcReserves t5 = usdcReserves s5 - spec_refundPayout c s5 gross
      \<and> backingHeld t5 = backingHeld s5 - spec_refundPayout c s5 gross * unit c"
    if a: "(exec c e5 (Transfer holder (this c) gross) s5 = Inr t5
         \<or> exec c e5 (TransferFrom spender holder (this c) gross) s5 = Inr t5)
        \<and> holder \<noteq> this c \<and> gross < UINT_LIMIT
        \<and> balances s5 (this c) + gross < UINT_LIMIT"
  proof -
    from a have "transfer_internal c e5 s5 holder (this c) gross = Inr t5
        \<or> transferFrom c e5 s5 spender holder (this c) gross = Inr t5"
      by (simp add: transfer_def)
    then show ?thesis
    proof
      assume "transfer_internal c e5 s5 holder (this c) gross = Inr t5"
      from transfer_internal_refund[OF this] a show ?thesis by simp
    next
      assume "transferFrom c e5 s5 spender holder (this c) gross = Inr t5"
      from transferFrom_refund[OF this] a show ?thesis by simp
    qed
  qed
  have 4: "usdcReserves t3 = usdcReserves s3"
    if "exec c e3 call3 s3 = Inr t3 \<and> \<not> is_buy call3 \<and> \<not> is_refund c call3"
    using that exec_reserve[of c e3 call3 s3 t3] by (simp add: same_backing_def)
  have 5: "balances t4 (this c) =
        balances s4 (this c) + n * TRANSFER_RESERVE_FEE_BPS div 10000
          + n * TRANSFER_REFLECTION_FEE_BPS div 10000
      \<and> usdcReserves t4 = usdcReserves s4"
    if a: "exec c e4 (Transfer src dst n) s4 = Inr t4
        \<and> \<not> isContract e4 src \<and> \<not> isContract e4 dst
        \<and> \<not> isExcludedFromFee s4 src \<and> \<not> isExcludedFromFee s4 dst
        \<and> src \<noteq> this c \<and> dst \<noteq> this c \<and> devAddress s4 \<noteq> this c
        \<and> n < UINT_LIMIT \<and> balances s4 (this c) + n < UINT_LIMIT"
  proof -
    from a have "transfer c e4 s4 src dst n = Inr t4" by simp
    from transfer_retains[OF this] a
    have "balances t4 (this c) =
        balances s4 (this c) + n * TRANSFER_RESERVE_FEE_BPS div 10000
          + n * TRANSFER_REFLECTION_FEE_BPS div 10000"
      by (simp add: TRANSFER_RESERVE_FEE_BPS_def TRANSFER_REFLECTION_FEE_BPS_def)
    moreover from a have "usdcReserves t4 = usdcReserves s4"
      using exec_reserve[of c e4 "Transfer src dst n" s4 t4] by (simp add: same_backing_def)
    ultimately show ?thesis by simp
  qed
  from 1 2 3 4 5 show ?thesis by blast
qed

text \<open>
  The first buy adds 1,000,000 to the reserve; the refund of 100,000,000 tokens by
  address 5, entered on \<open>nearLimit\<close> and called on \<open>holding\<close>, pays 99,650,249 and
  leaves a reserve of 9,999,999,900,349,751; address 6 claims its dividends on \<open>st2\<close>;
  the transfer of 997,500 tokens from address 5 to address 6 on \<open>st1\<close> leaves 997 + 997
  tokens more in the contract.
\<close>

theorem reserve_written_by_buy_and_refund_only_witness:
  "exec c0 wallets (Buy 5 1000000000000000000) st0 = Inr st1
   \<and> usdcReserves st1 = usdcReserves st0 + 1000000
   \<and> (\<exists>t. handleRefund c0 wallets nearLimit 5 100000000 = Inr t
         \<and> (100000000::nat) < UINT_LIMIT
         \<and> usdcReserves nearLimit = 10000000000000000
         \<and> spec_payout c0 nearLimit 100000000
             (tokensForRefund (spec_refundSplit (totalBurned nearLimit) 100000000)) = 99650249
         \<and> usdcReserves t = 9999999900349751
         \<and> backingHeld t = 9999999900349751000000000000)
   \<and> (\<exists>t. exec c0 wallets (Transfer 5 100 100000000) holding = Inr t
         \<and> 5 \<noteq> this c0 \<and> balances holding (this c0) + 100000000 < UINT_LIMIT
         \<and> usdcReserves holding = 10000000000000000
         \<and> spec_refundPayout c0 holding 100000000 = 99650249
         \<and> usdcReserves t = 9999999900349751
         \<and> backingHeld t = 9999999900349751000000000000)
   \<and> exec c0 wallets (ClaimDividends 6) st2 = Inr st3
   \<and> \<not> is_buy (ClaimDividends 6) \<and> \<not> is_refund c0 (ClaimDividends 6)
   \<and> usdcReserves st3 = usdcReserves st2
   \<and> exec c0 wallets (Transfer 5 6 997500) st1 = Inr st2
   \<and> \<not> isContract wallets 5 \<and> \<not> isContract wallets 6
   \<and> \<not> isExcludedFromFee st1 5 \<and> \<not> isExcludedFromFee st1 6
   \<and> 5 \<noteq> this c0 \<and> 6 \<noteq> this c0 \<and> devAddress st1 \<noteq> this c0
   \<and> (997500::nat) < UINT_LIMIT \<and> balances st1 (this c0) + 997500 < UINT_LIMIT
   \<and> balances st1 100 = 99999999999002000
   \<and> balances st2 100 = 99999999999002000 + 997 + 997
   \<and> usdcReserves st2 = usdcReserves st1"
proof -
  from run_refund obtain t2
    where r2: "handleRefund c0 wallets nearLimit 5 100000000 = Inr t2"
    by blast
  from run_refund_call obtain t5
    where r5: "exec c0 wallets (Transfer 5 100 100000000) holding = Inr t5"
    by blast
  note k = run_claim
  have d: "deposited c0 1000000000000000000 = 1000000" "unit c0 = 1000000000000"
    by (simp_all add: deposited_def unit_def c0_fields)
  have u: "(997500::nat) < UINT_LIMIT" "balances st1 (this c0) + 997500 < UINT_LIMIT"
    "(100000000::nat) < UINT_LIMIT" "balances holding (this c0) + 100000000 < UINT_LIMIT"
    by (simp_all add: UINT_LIMIT_def st1_fields c0_fields holding_fields)
  have f: "(997500::nat) * TRANSFER_RESERVE_FEE_BPS div 10000 = 997"
    "(997500::nat) * TRANSFER_REFLECTION_FEE_BPS div 10000 = 997"
    by (simp_all add: TRANSFER_RESERVE_FEE_BPS_def TRANSFER_REFLECTION_FEE_BPS_def)
  have p: "spec_payout c0 nearLimit 100000000
      (tokensForRefund (spec_refundSplit (totalBurned nearLimit) 100000000)) = 99650249"
    by (simp add: spec_payout_def spec_effectiveBacking_def spec_currentCirculatingSupply_def
        spec_refundSplit_def nearLimit_fields c0_fields TOTAL_SUPPLY_value BURNING_LIMIT_value)
  have h: "usdcReserves holding = 10000000000000000"
    "backingHeld holding = 10000000000000000000000000000"
    by (simp_all add: holding_def nearLimit_fields)
  from reserve_written_by_buy_and_refund_only[where c = c0 and ?e1.0 = wallets
      and sender = 5 and amount = 1000000000000000000 and ?s1.0 = st0 and ?t1.0 = st1
      and ?e2.0 = wallets and ?s2.0 = nearLimit and ?holder2.0 = 5
      and ?gross2.0 = 100000000 and ?t2.0 = t2
      and ?e5.0 = wallets and holder = 5 and gross = 100000000 and ?s5.0 = holding
      and ?t5.0 = t5 and spender = 5
      and ?e3.0 = wallets and ?call3.0 = "ClaimDividends 6" and ?s3.0 = st2 and ?t3.0 = st3
      and ?e4.0 = wallets and src = 5 and dst = 6 and n = 997500 and ?s4.0 = st1
      and ?t4.0 = st2]
    run_buy run_transfer r2 r5 k d u f p h refundPayout_holding
  show ?thesis
    by (simp add: c0_fields st1_fields nearLimit_fields)
qed

section \<open>What the classifier remembers\<close>

lemma st0_probed_fields:
  "pairCache st0_probed a = False" "notPairCache st0_probed a = (a = 9)"
  by (simp_all add: st0_probed_def st0_fields)

lemma isContract_run_router:
  "isContract_run routerWorld 9 = (True, [Token0, Token1, Factory])"
  by (simp add: isContract_run_def routerWorld_def)

lemma isLiquidityPair_router:
  "isLiquidityPair c0 routerWorld st0 9 = Inr (False, st0_probed, [Token0, Token1])"
proof -
  have "(notPairCache st0)(9 := True) = (\<lambda>a. a = 9)"
    by (auto simp: fun_eq_iff st0_fields)
  then show ?thesis
    by (simp add: isLiquidityPair_def routerWorld_def st0_fields Let_def st0_probed_def)
qed

lemma caches_follow_refl [simp]: "caches_follow c e s s"
  by (simp add: caches_follow_def)

lemma caches_follow_trans:
  "caches_follow c e s t \<Longrightarrow> caches_follow c e t u \<Longrightarrow> caches_follow c e s u"
  unfolding caches_follow_def by meson

lemma caches_follow_same:
  "pairCache s' = pairCache s \<Longrightarrow> notPairCache s' = notPairCache s \<Longrightarrow> caches_follow c e s s'"
  by (simp add: caches_follow_def)

lemma ERC20_transfer_caches:
  "ERC20_transfer s from to amount = Inr s' \<Longrightarrow> caches_follow c e s s'"
  by (auto simp: ERC20_transfer_def Let_def split: if_splits intro!: caches_follow_same)

lemma distributeDividends_caches:
  "distributeDividends c s amount = Inr s' \<Longrightarrow> caches_follow c' e s s'"
  by (auto simp: distributeDividends_def res_simps split: if_splits intro!: caches_follow_same)

lemma accumulateNewDividends_caches:
  "accumulateNewDividends s u b cur lst = Inr s' \<Longrightarrow> caches_follow c e s s'"
  by (auto simp: accumulateNewDividends_def res_simps Let_def split: if_splits
      intro!: caches_follow_same)

lemma updateUserDividendTracking_caches:
  "updateUserDividendTracking e s u = Inr s' \<Longrightarrow> caches_follow c e' s s'"
  by (auto simp: updateUserDividendTracking_def accumulateNewDividends_def res_simps Let_def
      split: if_splits intro!: caches_follow_same)

lemma accrueExisting_caches: "accrueExisting e s u b = Inr s' \<Longrightarrow> caches_follow c e' s s'"
  by (auto simp: accrueExisting_def accumulateNewDividends_def res_simps Let_def
      split: if_splits intro!: caches_follow_same)

lemma accrueSender_caches: "accrueSender e s u = Inr s' \<Longrightarrow> caches_follow c e' s s'"
  by (auto simp: accrueSender_def accumulateNewDividends_def res_simps Let_def
      split: if_splits intro!: caches_follow_same)

lemma isLiquidityPair_caches_follow:
  "isLiquidityPair c e s a = Inr (b, s', ps) \<Longrightarrow> caches_follow c e s s'"
  by (auto simp: isLiquidityPair_def cacheLiquidityPair_def caches_follow_def probesAsPair_def
      Let_def split: if_splits)

lemma contractAndPair_caches:
  "contractAndPair c e s a = Inr (b, s', ps) \<Longrightarrow> caches_follow c e s s'"
  by (auto simp: contractAndPair_def res_simps split: if_splits
      dest!: isLiquidityPair_caches_follow)

lemma boundedBurn_caches:
  "boundedBurn c s burned fee = Inr s' \<Longrightarrow> caches_follow c' e s s'"
  by (auto simp: boundedBurn_def ERC20_burn_def res_simps Let_def split: if_splits
      intro!: caches_follow_same)

lemma sendBacking_caches: "sendBacking c e s u amount = Inr s' \<Longrightarrow> caches_follow c' e' s s'"
  by (auto simp: sendBacking_def res_simps split: if_splits intro!: caches_follow_same)

lemma transferIfNonzero_caches:
  "transferIfNonzero s from to amount = Inr s' \<Longrightarrow> caches_follow c e s s'"
  by (auto simp: transferIfNonzero_def split: if_splits dest: ERC20_transfer_caches)

lemma caches_follow_update [simp]:
  "caches_follow c e (s\<lparr>entered := x\<rparr>) t = caches_follow c e s t"
  "caches_follow c e s (t\<lparr>entered := x\<rparr>) = caches_follow c e s t"
  "caches_follow c e (s\<lparr>tokensSold := n\<rparr>) t = caches_follow c e s t"
  "caches_follow c e (s\<lparr>lastDividendPerShare := l\<rparr>) t = caches_follow c e s t"
  "caches_follow c e s (t\<lparr>lastDividendPerShare := l\<rparr>) = caches_follow c e s t"
  "caches_follow c e (s\<lparr>accumulatedDividends := d\<rparr>) t = caches_follow c e s t"
  "caches_follow c e (s\<lparr>usdcReserves := r, backingHeld := h\<rparr>) t = caches_follow c e s t"
  by (simp_all add: caches_follow_def)

lemma nonReentrant_caches:
  assumes "nonReentrant s body = Inr s'"
    and "\<And>s1. body (s\<lparr>entered := True\<rparr>) = Inr s1 \<Longrightarrow> caches_follow c e (s\<lparr>entered := True\<rparr>) s1"
  shows "caches_follow c e s s'"
proof -
  from assms(1) obtain s1 where b: "body (s\<lparr>entered := True\<rparr>) = Inr s1"
    and s': "s' = s1\<lparr>entered := False\<rparr>"
    by (auto simp: nonReentrant_def res_simps split: if_splits)
  from assms(2)[OF b] show ?thesis
    by (simp add: s')
qed

lemma handleTaxedTransfer_caches:
  "handleTaxedTransfer c e s from to amount = Inr s' \<Longrightarrow> caches_follow c e s s'"
  unfolding handleTaxedTransfer_def
  by (auto simp: res_simps Let_def split: if_splits
      dest!: contractAndPair_caches ERC20_transfer_caches[where c = c and e = e]
        distributeDividends_caches[where c' = c and e = e]
        transferIfNonzero_caches[where c = c and e = e])
     (blast intro: caches_follow_trans)+

lemma refund_body_caches:
  assumes "refund_body c e s sender amount = Inr s'"
  shows "caches_follow c e s s'"
proof -
  from assms obtain a and f :: refund_split and q b1 b2 b3 where
    1: "accrueSender e s sender = Inr a"
    and 2: "transferIfNonzero a (this c) (devAddress a) (devFeeTokens f) = Inr b1"
    and 3: "boundedBurn c b1 (totalBurned a) (burnFeeTokens f) = Inr b2"
    and 4: "distributeDividends c b2 (reflectionFeeTokens f) = Inr b3"
    and 5: "sendBacking c e b3 sender q = Inr s'"
    unfolding refund_body_def by (auto simp: res_simps split: if_splits)
  have "caches_follow c e s a" using 1 by (rule accrueSender_caches)
  moreover have "caches_follow c e a b1" using 2 by (rule transferIfNonzero_caches)
  moreover have "caches_follow c e b1 b2" using 3 by (rule boundedBurn_caches)
  moreover have "caches_follow c e b2 b3" using 4 by (rule distributeDividends_caches)
  moreover have "caches_follow c e b3 s'" using 5 by (rule sendBacking_caches)
  ultimately show ?thesis
    by (blast intro: caches_follow_trans)
qed

lemma handleRefund_caches:
  "handleRefund c e s sender amount = Inr s' \<Longrightarrow> caches_follow c e s s'"
  unfolding handleRefund_def
  by (erule nonReentrant_caches) (rule refund_body_caches)

lemma update_internal_caches:
  "update_internal c e s from to amount = Inr s' \<Longrightarrow> caches_follow c e s s'"
  unfolding update_internal_def
  by (auto simp: res_simps split: if_splits
      dest!: ERC20_transfer_caches[where c = c and e = e] handleRefund_caches
        handleTaxedTransfer_caches
      intro: caches_follow_trans)

lemma transfer_internal_caches:
  "transfer_internal c e s from to amount = Inr s' \<Longrightarrow> caches_follow c e s s'"
  unfolding transfer_internal_def
  by (auto simp: res_simps split: if_splits
      dest!: updateUserDividendTracking_caches[where c = c and e' = e] update_internal_caches)
     (blast intro: caches_follow_trans)+

lemma approve_internal_caches:
  "approve_internal s holder spender amount = Inr s' \<Longrightarrow> caches_follow c e s s'"
  by (auto simp: approve_internal_def split: if_splits intro!: caches_follow_same)

lemma transferFrom_caches:
  "transferFrom c e s spender from to amount = Inr s' \<Longrightarrow> caches_follow c e s s'"
  unfolding transferFrom_def
  by (auto simp: res_simps split: if_splits
      dest!: approve_internal_caches[where c = c and e = e] transfer_internal_caches
      intro: caches_follow_trans)

lemma buy_internal_caches:
  "buy_internal c e s buyer usdcAmount = Inr s' \<Longrightarrow> caches_follow c e s s'"
  unfolding buy_internal_def
  by (auto simp: res_simps Let_def split: if_splits
      dest!: accrueExisting_caches[where c = c and e' = e]
        distributeDividends_caches[where c' = c and e = e]
        ERC20_transfer_caches[where c = c and e = e])
     (blast intro: caches_follow_trans)+

lemma buy_body_caches:
  "buy_body c e s sender amount = Inr s' \<Longrightarrow> caches_follow c e s s'"
  unfolding buy_body_def
  by (auto simp: res_simps Let_def split: if_splits dest!: buy_internal_caches)

lemma buy_caches: "buy c e s sender amount = Inr s' \<Longrightarrow> caches_follow c e s s'"
  unfolding buy_def
  by (erule nonReentrant_caches) (rule buy_body_caches)

lemma claim_body_caches:
  "claim_body c e s user = Inr s' \<Longrightarrow> caches_follow c e s s'"
  unfolding claim_body_def
  by (auto simp: res_simps Let_def split: if_splits
      dest!: accumulateNewDividends_caches[where c = c and e = e]
        ERC20_transfer_caches[where c = c and e = e]
      intro: caches_follow_trans)

lemma claimDividends_caches: "claimDividends c e s user = Inr s' \<Longrightarrow> caches_follow c e s s'"
  unfolding claimDividends_def
  by (erule nonReentrant_caches) (rule claim_body_caches)

lemma exec_caches:
  assumes "exec c e call s = Inr s'"
  shows "caches_follow c e s s'"
proof (cases call)
  case (Buy sender amount)
  with assms show ?thesis by (simp add: buy_caches)
next
  case (Transfer sender dst amount)
  with assms show ?thesis by (simp add: transfer_def transfer_internal_caches)
next
  case (TransferFrom spender src dst amount)
  with assms show ?thesis by (simp add: transferFrom_caches)
next
  case (Approve sender spender amount)
  with assms show ?thesis by (simp add: approve_internal_caches)
next
  case (IncreaseAllowance sender spender amount)
  with assms show ?thesis
    by (auto simp: increaseAllowance_def res_simps dest: approve_internal_caches)
next
  case (DecreaseAllowance sender spender amount)
  with assms show ?thesis
    by (auto simp: decreaseAllowance_def split: if_splits dest: approve_internal_caches)
next
  case (ClaimDividends sender)
  with assms show ?thesis by (simp add: claimDividends_caches)
next
  case (SetDevAddress sender newDev)
  with assms show ?thesis
    by (auto simp: setDevAddress_def onlyOwner_def caches_follow_def Let_def split: if_splits)
next
  case (ExcludeFromFee sender account b)
  with assms show ?thesis
    by (auto simp: excludeFromFee_def onlyOwner_def caches_follow_def split: if_splits)
next
  case (TransferOwnership sender newOwner)
  with assms show ?thesis by (auto simp: onlyOwner_def caches_follow_def split: if_splits)
next
  case (AcceptOwnership sender)
  with assms show ?thesis by (auto simp: caches_follow_def split: if_splits)
next
  case (RenounceOwnership sender)
  with assms show ?thesis by (auto simp: onlyOwner_def caches_follow_def split: if_splits)
qed

lemma cached_kept: "caches_follow c e s s' \<Longrightarrow> cached s a b \<Longrightarrow> cached s' a b"
  unfolding caches_follow_def cached_def by (cases b) auto

lemma later_cached: "later c s t \<Longrightarrow> cached s a b \<Longrightarrow> cached t a b"
  by (induction rule: later.induct) (auto dest: exec_caches cached_kept)

lemma cached_answer:
  "cached t a b \<Longrightarrow> isLiquidityPair c e t a = Inr (codeLength e a \<noteq> 0 \<and> b, t, [])"
  by (cases b) (auto simp: cached_def isLiquidityPair_def)

lemma isContract_code: "isContract e a \<Longrightarrow> codeLength e a \<noteq> 0"
  by (auto simp: isContract_def isContract_run_def split: if_splits)

lemma cached_contractAndPair:
  "cached t a b \<Longrightarrow>
   contractAndPair c e t a = Inr (isContract e a \<and> b, t, snd (isContract_run e a))"
  by (auto simp: contractAndPair_def cached_answer dest: isContract_code)

lemma classification_settles:
  assumes f: "caches_follow c e s s'" and k: "pairCache s' a \<or> notPairCache s' a"
    and r: "isLiquidityPair c e s a = Inr (b, s1, ps)" and n: "codeLength e a \<noteq> 0"
  shows "cached s' a b"
proof (cases "pairCache s a \<or> notPairCache s a")
  case True
  with r n have "cached s a b"
    by (auto simp: isLiquidityPair_def cached_def split: if_splits)
  with f show ?thesis by (rule cached_kept)
next
  case False
  with r n have b: "b = probesAsPair c e a"
    by (auto simp: isLiquidityPair_def probesAsPair_def Let_def split: if_splits)
  from f False k show ?thesis
    unfolding caches_follow_def cached_def b by (cases "probesAsPair c e a") auto
qed

lemma classified_kept: "caches_follow c e s s' \<Longrightarrow> classified s a \<Longrightarrow> classified s' a"
  unfolding caches_follow_def classified_def by blast

lemma contractAndPair_classifies:
  "contractAndPair c e s a = Inr (b, s', ps) \<Longrightarrow> isContract e a \<Longrightarrow> classified s' a"
  by (auto simp: contractAndPair_def isLiquidityPair_def cacheLiquidityPair_def classified_def
      res_simps Let_def split: if_splits dest: isContract_code)

lemma handleTaxedTransfer_classifies:
  assumes h: "handleTaxedTransfer c e s src dst n = Inr s'"
    and a: "a = src \<or> a = dst" and k: "isContract e a"
  shows "classified s' a"
proof -
  from h obtain b1 u1 p1 where r1: "contractAndPair c e s src = Inr (b1, u1, p1)"
    unfolding handleTaxedTransfer_def
    by (auto simp: res_simps split: if_splits)
  from h r1 obtain b2 u2 p2 where
    r2: "(if b1 then Inr (b1, u1, p1) else contractAndPair c e u1 dst) = Inr (b2, u2, p2)"
    unfolding handleTaxedTransfer_def
    by (auto simp: res_simps split: if_splits)
  show ?thesis
  proof (cases b2)
    case True
    with h r1 r2 obtain u3 b4 p4 where
      t: "ERC20_transfer u2 src dst n = Inr u3"
      and r4: "contractAndPair c e u3 dst = Inr (b4, s', p4)"
      unfolding handleTaxedTransfer_def
      by (auto simp: res_simps split: if_splits)
    have f12: "caches_follow c e u1 u2"
      using r2 by (auto split: if_splits dest: contractAndPair_caches)
    have f23: "caches_follow c e u2 u3" using t by (rule ERC20_transfer_caches)
    have f34: "caches_follow c e u3 s'" using r4 by (rule contractAndPair_caches)
    from a show ?thesis
    proof
      assume "a = dst"
      with r4 k show ?thesis by (auto dest: contractAndPair_classifies)
    next
      assume "a = src"
      with r1 k have "classified u1 a" by (auto dest: contractAndPair_classifies)
      then show ?thesis
        by (intro classified_kept[OF f34] classified_kept[OF f23] classified_kept[OF f12])
    qed
  next
    case False
    with r2 have nb1: "\<not> b1" and r2': "contractAndPair c e u1 dst = Inr (b2, u2, p2)"
      by (auto split: if_splits)
    from h r1 r2' nb1 False obtain devFee fee net v1 v2 v3 where
      t1: "ERC20_transfer u2 src (this c) n = Inr v1"
      and d: "distributeDividends c v1 fee = Inr v2"
      and t2: "transferIfNonzero v2 (this c) dst net = Inr v3"
      and t3: "transferIfNonzero v3 (this c) (devAddress v3) devFee = Inr s'"
      unfolding handleTaxedTransfer_def
      by (auto simp: res_simps Let_def split: if_splits)
    have f: "caches_follow c e u2 s'"
      using ERC20_transfer_caches[OF t1, of c e] distributeDividends_caches[OF d, of c e]
        transferIfNonzero_caches[OF t2, of c e] transferIfNonzero_caches[OF t3, of c e]
      by (blast intro: caches_follow_trans)
    from a show ?thesis
    proof
      assume "a = dst"
      with r2' k have "classified u2 a" by (auto dest: contractAndPair_classifies)
      then show ?thesis by (rule classified_kept[OF f])
    next
      assume "a = src"
      with r1 k have "classified u1 a" by (auto dest: contractAndPair_classifies)
      then have "classified u2 a"
        by (rule classified_kept[OF contractAndPair_caches[OF r2']])
      then show ?thesis by (rule classified_kept[OF f])
    qed
  qed
qed

lemma tracking_excluded:
  "(if b then updateUserDividendTracking e s u else Inr s) = Inr s1 \<Longrightarrow>
   isExcludedFromFee s1 = isExcludedFromFee s"
  by (auto split: if_splits dest: updateUserDividendTracking_ledger)

lemma spending_excluded:
  "(if allowances s from spender = UINT_LIMIT - 1 then Inr s
    else if allowances s from spender < amount
      then Inl (Require ''ERC20: insufficient allowance'')
    else approve_internal s from spender (allowances s from spender - amount)) = Inr s1
   \<Longrightarrow> isExcludedFromFee s1 = isExcludedFromFee s"
  by (auto simp: approve_internal_def split: if_splits)

lemma transfer_internal_classifies:
  assumes t: "transfer_internal c e s src dst n = Inr s'"
    and x: "dst \<noteq> this c" "\<not> isExcludedFromFee s src" "\<not> isExcludedFromFee s dst"
    and a: "a = src \<or> a = dst" and k: "isContract e a"
  shows "classified s' a"
proof -
  from t obtain s1 s2 where
    1: "(if src \<noteq> 0 \<and> \<not> isContract e src then updateUserDividendTracking e s src
         else Inr s) = Inr s1"
    and 2: "(if dst \<noteq> 0 \<and> \<not> isContract e dst then updateUserDividendTracking e s1 dst
         else Inr s1) = Inr s2"
    and u: "update_internal c e s2 src dst n = Inr s'"
    unfolding transfer_internal_def by (auto simp: res_simps)
  have "isExcludedFromFee s2 = isExcludedFromFee s"
    using tracking_excluded[OF 1] tracking_excluded[OF 2] by simp
  with u x have "handleTaxedTransfer c e s2 src dst n = Inr s'"
    by (auto simp: update_internal_def split: if_splits)
  then show ?thesis using a k by (rule handleTaxedTransfer_classifies)
qed

lemma transferFrom_classifies:
  assumes t: "transferFrom c e s spender src dst n = Inr s'"
    and x: "dst \<noteq> this c" "\<not> isExcludedFromFee s src" "\<not> isExcludedFromFee s dst"
    and a: "a = src \<or> a = dst" and k: "isContract e a"
  shows "classified s' a"
proof -
  from t obtain s1 where
    1: "(if allowances s src spender = UINT_LIMIT - 1 then Inr s
         else if allowances s src spender < n
           then Inl (Require ''ERC20: insufficient allowance'')
         else approve_internal s src spender (allowances s src spender - n)) = Inr s1"
    and u: "transfer_internal c e s1 src dst n = Inr s'"
    unfolding transferFrom_def by (auto simp: res_simps)
  from spending_excluded[OF 1] x have "\<not> isExcludedFromFee s1 src" "\<not> isExcludedFromFee s1 dst"
    by simp_all
  from transfer_internal_classifies[OF u x(1) this a k] show ?thesis .
qed

lemma isLiquidityPair_records:
  "isLiquidityPair c e s a = Inr (b, s1, ps) \<Longrightarrow> codeLength e a \<noteq> 0 \<Longrightarrow> cached s1 a b"
  by (auto simp: isLiquidityPair_def cacheLiquidityPair_def cached_def Let_def split: if_splits)

lemma pairWorld_fields:
  "codeLength pairWorld a = (if a = 8 then 1 else 0)"
  "staticcall pairWorld 8 Token0 = \<lparr>ok = True, len = 32, word = 100\<rparr>"
  "staticcall pairWorld 8 Token1 = \<lparr>ok = True, len = 32, word = 7\<rparr>"
  by (simp_all add: pairWorld_def)

lemma isContract_run_pair: "isContract_run pairWorld 8 = (True, [Token0, Token1])"
  "isContract_run pairWorld 5 = (False, [])"
  by (simp_all add: isContract_run_def pairWorld_fields)

lemma tracking_st1: "updateUserDividendTracking e st1 5 = Inr st1" if "\<not> isContract e 5"
proof -
  have "(lastDividendPerShare st1)(5 := 0) = lastDividendPerShare st1"
    by (simp add: fun_eq_iff st1_fields)
  then have "st1\<lparr>lastDividendPerShare := (lastDividendPerShare st1)(5 := 0)\<rparr> = st1"
    by simp
  with that show ?thesis
    by (simp add: updateUserDividendTracking_def st1_fields Let_def)
qed

lemma isLiquidityPair_pair:
  "isLiquidityPair c0 pairWorld st1 8 =
     Inr (True, st1\<lparr>pairCache := (pairCache st1)(8 := True)\<rparr>, [Token0, Token1])"
  by (simp add: isLiquidityPair_def pairWorld_fields st1_fields Let_def c0_fields
      cacheLiquidityPair_def)

lemma run_swap: "exec c0 pairWorld (Transfer 5 8 997500) st1 = Inr st2_pair"
proof -
  define p where "p = st1\<lparr>pairCache := (pairCache st1)(8 := True)\<rparr>"
  define q where "q = p\<lparr>balances := (balances p)(5 := 997500 - 997500, 8 := 0 + 997500)\<rparr>"
  have c5: "\<not> isContract pairWorld 5" and c8: "isContract pairWorld 8"
    by (simp_all add: isContract_def isContract_run_pair)
  have pf: "balances p 5 = 997500" "balances p 8 = 0" "pairCache p 8"
    by (simp_all add: p_def st1_fields)
  have r1: "contractAndPair c0 pairWorld st1 5 = Inr (False, st1, [])"
    by (simp add: contractAndPair_def c5 isContract_run_pair)
  have r2: "contractAndPair c0 pairWorld st1 8 = Inr (True, p, [Token0, Token1, Token0, Token1])"
    by (simp add: contractAndPair_def c8 isContract_run_pair isLiquidityPair_pair p_def)
  have t: "ERC20_transfer p 5 8 997500 = Inr q"
    unfolding q_def
    by (subst ERC20_transfer_eval) (simp_all add: pf UINT_LIMIT_def)
  have "pairCache q 8" by (simp add: q_def pf)
  then have "isLiquidityPair c0 pairWorld q 8 = Inr (True, q, [])"
    by (simp add: isLiquidityPair_def pairWorld_fields)
  then have r4: "contractAndPair c0 pairWorld q 8 = Inr (True, q, [Token0, Token1])"
    by (simp add: contractAndPair_def c8 isContract_run_pair)
  have fin: "q = st2_pair"
    by (simp add: q_def p_def st2_pair_def fun_eq_iff st1_fields)
  have h: "handleTaxedTransfer c0 pairWorld st1 5 8 997500 = Inr st2_pair"
    unfolding handleTaxedTransfer_def
    by (simp add: st1_fields r1 r2 t[unfolded fin] r4[unfolded fin])
  show ?thesis
    by (simp add: transfer_def transfer_internal_def c5 c8 tracking_st1 update_internal_def
        c0_fields st1_fields h)
qed

lemma st2_pair_fields: "owner st2_pair = 1" "pairCache st2_pair 8" "\<not> notPairCache st2_pair 8"
  by (simp_all add: st2_pair_def st1_def st0_def)

lemma routerWorld_fields:
  "codeLength routerWorld a = (if a = 9 then 1 else 0)"
  "ok (staticcall routerWorld a p) = (a = 9 \<and> p = Factory)"
  by (simp_all add: routerWorld_def)

lemma isContract_run_wallet5: "isContract_run routerWorld 5 = (False, [])"
  by (simp add: isContract_run_def routerWorld_fields)

lemma isLiquidityPair_router_st1:
  "isLiquidityPair c0 routerWorld st1 9 =
     Inr (False, st1\<lparr>notPairCache := (notPairCache st1)(9 := True)\<rparr>, [Token0, Token1])"
  by (simp add: isLiquidityPair_def routerWorld_fields st1_fields Let_def)

lemma run_taxed_router: "handleTaxedTransfer c0 routerWorld st1 5 9 997500 = Inr st2_router"
proof -
  define p where "p = st1\<lparr>notPairCache := (notPairCache st1)(9 := True)\<rparr>"
  define a1 where "a1 = p\<lparr>balances := (balances p)(5 := 0, 100 := 99999999999999500)\<rparr>"
  define a2 where "a2 = a1\<lparr>magnifiedDividendPerShare := 997 * 2 ^ 128 div 500,
                            totalDividendsDistributed := 997\<rparr>"
  define a3 where "a3 = a2\<lparr>balances := (balances a2)(100 := 99999999999004492, 9 := 995008)\<rparr>"
  have c5: "\<not> isContract routerWorld 5"
    by (simp add: isContract_def isContract_run_wallet5)
  have r1: "contractAndPair c0 routerWorld st1 5 = Inr (False, st1, [])"
    by (simp add: contractAndPair_def c5 isContract_run_wallet5)
  have r2: "contractAndPair c0 routerWorld st1 9 =
      Inr (False, p, [Token0, Token1, Factory, Token0, Token1])"
    by (simp add: contractAndPair_def isContract_router isContract_run_router
        isLiquidityPair_router_st1 p_def)
  have pf: "balances p a = (if a = 100 then 99999999999002000 else if a = 2 then 500
                     else if a = 5 then 997500 else 0)" "totalBurned p = 0"
    "magnifiedDividendPerShare p = 0" "totalDividendsDistributed p = 0" "devAddress p = 2" for a
    by (simp_all add: p_def st1_fields)
  have fees: "mulDiv 997500 TRANSFER_DEV_FEE_BPS 10000 = Inr 498"
    "mulDiv 997500 TRANSFER_REFLECTION_FEE_BPS 10000 = Inr 997"
    "mulDiv 997500 TRANSFER_RESERVE_FEE_BPS 10000 = Inr 997"
    by (simp_all add: mulDiv_eval TRANSFER_DEV_FEE_BPS_def TRANSFER_REFLECTION_FEE_BPS_def
        TRANSFER_RESERVE_FEE_BPS_def UINT_LIMIT_def)
  have net: "usub (usub (usub 997500 498) 997) 997 = 995008"
    by (simp add: usub_eval UINT_LIMIT_def)
  have t1: "ERC20_transfer p 5 100 997500 = Inr a1"
    unfolding a1_def
    by (subst ERC20_transfer_eval) (simp_all add: pf UINT_LIMIT_def)
  have a1f: "balances a1 100 = 99999999999999500" "totalBurned a1 = 0"
    "magnifiedDividendPerShare a1 = 0" "totalDividendsDistributed a1 = 0"
    by (simp_all add: a1_def pf)
  have d: "distributeDividends c0 a1 997 = Inr a2"
    unfolding distributeDividends_def getCirculatingSupply_def totalSupply_def a2_def
    by (simp add: a1f c0_fields TOTAL_SUPPLY_value csub_def cmul_def cdiv_def cadd_def
        MAGNITUDE_def UINT_LIMIT_def)
  have a2f: "balances a2 100 = 99999999999999500" "balances a2 9 = 0" "devAddress a2 = 2"
    by (simp_all add: a2_def a1_def pf)
  have t2: "transferIfNonzero a2 100 9 995008 = Inr a3"
    unfolding a3_def
    by (rule transferIfNonzero_eval, simp, subst ERC20_transfer_eval)
       (simp_all add: a2f UINT_LIMIT_def)
  have a3f: "balances a3 100 = 99999999999004492" "balances a3 2 = 500" "devAddress a3 = 2"
    by (simp_all add: a3_def a2_def a1_def pf)
  have t3: "transferIfNonzero a3 100 2 498 =
      Inr (a3\<lparr>balances := (balances a3)(100 := 99999999999003994, 2 := 998)\<rparr>)"
    by (rule transferIfNonzero_eval, simp, subst ERC20_transfer_eval)
       (simp_all add: a3f UINT_LIMIT_def)
  have fin: "a3\<lparr>balances := (balances a3)(100 := 99999999999003994, 2 := 998)\<rparr> = st2_router"
    by (simp add: a3_def a2_def a1_def p_def st2_router_def st2_def fun_eq_iff st1_fields)
  show ?thesis
    unfolding handleTaxedTransfer_def
    by (simp add: st1_fields r1 r2 fees net Let_def c0_fields t1 d t2 t3 fin a3f)
qed

lemma run_transfer_router: "exec c0 routerWorld (Transfer 5 9 997500) st1 = Inr st2_router"
proof -
  have c5: "\<not> isContract routerWorld 5"
    by (simp add: isContract_def isContract_run_wallet5)
  show ?thesis
    by (simp add: transfer_def transfer_internal_def c5 isContract_router tracking_st1
        update_internal_def c0_fields st1_fields run_taxed_router)
qed

lemma st2_router_fields:
  "owner st2_router = 1" "notPairCache st2_router 9" "\<not> pairCache st2_router 9"
  by (simp_all add: st2_router_def st2_def st1_def st0_def)

text \<open>
  Claim C8, for the trading-pair sub-classification. Let a \<^verbatim>\<open>transfer\<close> or
  \<^verbatim>\<open>transferFrom\<close> on the taxed path (not a refund, neither party excluded from fees)
  return, let \<open>a\<close> be its sender or its recipient, an address that \<^verbatim>\<open>isContract\<close> takes
  for a contract, and let \<open>b\<close> be the answer of \<^verbatim>\<open>isLiquidityPair\<close> for \<open>a\<close> on the storage
  of the call. Then \<open>a\<close> is cached with the answer \<open>b\<close> as soon as \<^verbatim>\<open>isLiquidityPair\<close> has
  returned, at the end of the call, and after any number of further calls of the
  contract; every later \<^verbatim>\<open>isLiquidityPair\<close> on \<open>a\<close>, in any world outside, sends no probe,
  leaves the storage as it is and answers \<open>b\<close> again as long as \<open>a\<close> has code. The only
  probes that \<^verbatim>\<open>isContract(a) && isLiquidityPair(a)\<close> then sends are those of
  \<^verbatim>\<open>isContract\<close>, which keeps no cache and probes on every call.
\<close>

theorem pair_classification_is_write_once:
  assumes call: "exec c e (Transfer src dst n) s = Inr s'
      \<or> exec c e (TransferFrom spender src dst n) s = Inr s'"
    and taxed: "dst \<noteq> this c" "\<not> isExcludedFromFee s src" "\<not> isExcludedFromFee s dst"
    and party: "a = src \<or> a = dst" "isContract e a"
    and answer: "isLiquidityPair c e s a = Inr (b, s1, ps)"
    and after: "later c s' t"
  shows "cached s1 a b \<and> cached s' a b \<and> cached t a b
    \<and> isLiquidityPair c e' t a = Inr (codeLength e' a \<noteq> 0 \<and> b, t, [])
    \<and> contractAndPair c e' t a = Inr (isContract e' a \<and> b, t, snd (isContract_run e' a))"
proof -
  from call have f: "caches_follow c e s s'"
    by (rule disjE) (erule exec_caches)+
  from call have "transfer_internal c e s src dst n = Inr s'
      \<or> transferFrom c e s spender src dst n = Inr s'"
    by (simp add: transfer_def)
  then have k: "classified s' a"
    using transfer_internal_classifies[OF _ taxed party]
      transferFrom_classifies[OF _ taxed party] by blast
  from classification_settles[OF f _ answer isContract_code[OF party(2)]] k
  have 1: "cached s' a b" by (simp add: classified_def)
  from later_cached[OF after 1] have 2: "cached t a b" .
  from isLiquidityPair_records[OF answer isContract_code[OF party(2)]]
  have 0: "cached s1 a b" .
  from 0 1 2 cached_answer[OF 2] cached_contractAndPair[OF 2] show ?thesis
    by simp
qed

text \<open>
  Address 5 sells its tokens to the pair at address 8: the pair is cached as a pair,
  and after a later call of the owner \<^verbatim>\<open>isLiquidityPair\<close> answers true and sends
  nothing. Address 5 transfers its tokens to the router at address 9, which answers
  \<^verbatim>\<open>factory()\<close> only: the router is cached as no pair, and after a later call of the
  owner \<^verbatim>\<open>isLiquidityPair\<close> answers false and sends nothing, while \<^verbatim>\<open>isContract\<close> sends
  its three probes again.
\<close>

theorem pair_classification_is_write_once_witness:
  "exec c0 pairWorld (Transfer 5 8 997500) st1 = Inr st2_pair
   \<and> 8 \<noteq> this c0 \<and> \<not> isExcludedFromFee st1 5 \<and> \<not> isExcludedFromFee st1 8
   \<and> isContract pairWorld 8
   \<and> isLiquidityPair c0 pairWorld st1 8 =
       Inr (True, st1\<lparr>pairCache := (pairCache st1)(8 := True)\<rparr>, [Token0, Token1])
   \<and> exec c0 wallets (TransferOwnership 1 3) st2_pair = Inr (st2_pair\<lparr>pendingOwner := 3\<rparr>)
   \<and> later c0 st2_pair (st2_pair\<lparr>pendingOwner := 3\<rparr>)
   \<and> pairCache st2_pair 8
   \<and> pairCache (st2_pair\<lparr>pendingOwner := 3\<rparr>) 8
   \<and> isLiquidityPair c0 pairWorld (st2_pair\<lparr>pendingOwner := 3\<rparr>) 8 =
       Inr (True, st2_pair\<lparr>pendingOwner := 3\<rparr>, [])
   \<and> contractAndPair c0 pairWorld (st2_pair\<lparr>pendingOwner := 3\<rparr>) 8 =
       Inr (True, st2_pair\<lparr>pendingOwner := 3\<rparr>, [Token0, Token1])
   \<and> exec c0 routerWorld (Transfer 5 9 997500) st1 = Inr st2_router
   \<and> 9 \<noteq> this c0 \<and> \<not> isExcludedFromFee st1 9
   \<and> isContract routerWorld 9
   \<and> isLiquidityPair c0 routerWorld st1 9 =
       Inr (False, st1\<lparr>notPairCache := (notPairCache st1)(9 := True)\<rparr>, [Token0, Token1])
   \<and> exec c0 wallets (TransferOwnership 1 3) st2_router = Inr (st2_router\<lparr>pendingOwner := 3\<rparr>)
   \<and> later c0 st2_router (st2_router\<lparr>pendingOwner := 3\<rparr>)
   \<and> notPairCache st2_router 9 \<and> \<not> pairCache st2_router 9
   \<and> notPairCache (st2_router\<lparr>pendingOwner := 3\<rparr>) 9
   \<and> \<not> pairCache (st2_router\<lparr>pendingOwner := 3\<rparr>) 9
   \<and> isLiquidityPair c0 routerWorld (st2_router\<lparr>pendingOwner := 3\<rparr>) 9 =
       Inr (False, st2_router\<lparr>pendingOwner := 3\<rparr>, [])
   \<and> contractAndPair c0 routerWorld (st2_router\<lparr>pendingOwner := 3\<rparr>) 9 =
       Inr (False, st2_router\<lparr>pendingOwner := 3\<rparr>, [Token0, Token1, Factory])"
proof -
  have x: "8 \<noteq> this c0" "9 \<noteq> this c0" "\<not> isExcludedFromFee st1 5"
    "\<not> isExcludedFromFee st1 8" "\<not> isExcludedFromFee st1 9"
    by (simp_all add: c0_fields st1_fields)
  have k: "isContract pairWorld 8" "codeLength pairWorld 8 \<noteq> 0"
    "codeLength routerWorld 9 \<noteq> 0"
    by (simp_all add: isContract_def isContract_run_pair pairWorld_fields routerWorld_fields)
  have op: "exec c0 wallets (TransferOwnership 1 3) st2_pair = Inr (st2_pair\<lparr>pendingOwner := 3\<rparr>)"
    by (simp add: onlyOwner_def st2_pair_fields)
  have or: "exec c0 wallets (TransferOwnership 1 3) st2_router
      = Inr (st2_router\<lparr>pendingOwner := 3\<rparr>)"
    by (simp add: onlyOwner_def st2_router_fields)
  have lp: "later c0 st2_pair (st2_pair\<lparr>pendingOwner := 3\<rparr>)"
    using later_step[OF later_refl op] .
  have lr: "later c0 st2_router (st2_router\<lparr>pendingOwner := 3\<rparr>)"
    using later_step[OF later_refl or] .
  from pair_classification_is_write_once[where e' = pairWorld and spender = 0,
      OF disjI1, OF run_swap x(1,3,4) disjI2, OF refl k(1) isLiquidityPair_pair lp]
    pair_classification_is_write_once[where e' = routerWorld and spender = 0,
      OF disjI1, OF run_transfer_router x(2,3,5) disjI2, OF refl isContract_router
        isLiquidityPair_router_st1 lr]
    run_swap run_transfer_router x k op or lp lr isLiquidityPair_pair
    isLiquidityPair_router_st1 isContract_router
  show ?thesis
    by (simp add: cached_def isContract_run_pair isContract_run_router)
qed

text \<open>
  The broad classification is probed again: for the same router, already classified
  and cached as not a trading pair, \<^verbatim>\<open>isContract\<close> sends \<^verbatim>\<open>token0()\<close>, \<^verbatim>\<open>token1()\<close> and
  \<^verbatim>\<open>factory()\<close> once more on the second evaluation of
  \<^verbatim>\<open>isContract(a) && isLiquidityPair(a)\<close>.
\<close>

theorem classifier_write_once_counterexample:
  "isContract_run routerWorld 9 = (True, [Token0, Token1, Factory])
   \<and> contractAndPair c0 routerWorld st0 9 =
       Inr (False, st0_probed, [Token0, Token1, Factory, Token0, Token1])
   \<and> contractAndPair c0 routerWorld st0_probed 9 =
       Inr (False, st0_probed, [Token0, Token1, Factory])
   \<and> notPairCache st0_probed 9"
proof -
  have n: "codeLength routerWorld 9 \<noteq> 0"
    by (simp add: routerWorld_def)
  have "isLiquidityPair c0 routerWorld st0_probed 9 = Inr (False, st0_probed, [])"
    by (simp add: isLiquidityPair_def n st0_probed_fields)
  then show ?thesis
    by (simp add: contractAndPair_def isContract_router isContract_run_router
        isLiquidityPair_router st0_probed_fields)
qed

section \<open>Dividends on tokens just received\<close>

text \<open>
  Claim C5, evaluated. After the constructor and the first buy by address 5, address
  6 holds no token and has no pending dividends. Address 5 then transfers 997,500
  tokens to address 6, an ordinary taxed transfer with a reflection fee of 997
  tokens. \<^verbatim>\<open>_transfer\<close> has taken the snapshot \<^verbatim>\<open>lastDividendPerShare\<close> of address 6
  before \<^verbatim>\<open>_distributeDividends\<close> ran, and nothing takes it again after: address 6,
  credited with 995,008 tokens, has 1,984,045 tokens of pending dividends from that
  same transfer's reflection fee, and \<^verbatim>\<open>claimDividends\<close> pays them out of the
  contract's balance.
\<close>

theorem recipient_earns_on_received_tokens:
  "constructor c0 1 2 = Inr st0
   \<and> exec c0 wallets (Buy 5 1000000000000000000) st0 = Inr st1
   \<and> balances st1 6 = 0
   \<and> pendingDividends wallets st1 6 = Inr 0
   \<and> exec c0 wallets (Transfer 5 6 997500) st1 = Inr st2
   \<and> balances st2 6 = 995008
   \<and> totalDividendsDistributed st2 = 997
   \<and> pendingDividends wallets st2 6 = Inr 1984045
   \<and> exec c0 wallets (ClaimDividends 6) st2 = Inr st3
   \<and> balances st3 6 = 2979053"
proof -
  have a: "pendingDividends wallets st1 6 = Inr 0"
    by (simp add: pendingDividends_def st1_fields)
  have b: "balances st1 6 = 0" "balances st2 6 = 995008" "balances st3 6 = 2979053"
    by (simp_all add: st1_fields st2_fields st3_def)
  have d: "totalDividendsDistributed st2 = 997"
    by (simp add: st2_def)
  from run_constructor run_buy run_transfer pending_st2 run_claim a b d
  show ?thesis by simp
qed

end
